(* ===== verification/Gb_Prelude.thy ===== *)
theory Gb_Prelude
  imports Main "HOL-Library.Word" "HOL-Library.Monad_Syntax"
begin

text \<open>
  The prelude of the development: byte buffers as the code sees them (a list of octets of
  the allocated length), bounds-checked reads and writes of the little-endian fields of the
  packed wire structures, size arithmetic at the width of \<^verbatim>\<open>size_t\<close> on the 32-bit
  boards the repository targets, and the generic list lemmas that the components share.

  Convention of every theory: a computation of type \<open>'a option\<close> that yields \<open>None\<close> has run
  into undefined behaviour of the C code (an access outside a buffer, a null or dangling
  pointer); the errors that the code itself reports are ordinary values (a negative errno, a
  Greybus result code, a null result modelled as \<open>False\<close> or an inner \<open>option\<close>).
\<close>

unbundle bit_operations_syntax

section \<open>Widths and buffers\<close>

type_synonym u8 = "8 word"
type_synonym u16 = "16 word"
type_synonym u32 = "32 word"
type_synonym u64 = "64 word"
type_synonym bytes = "u8 list"

named_theorems buf_simps "reads and writes of byte buffers"
named_theorems le_simps "little-endian encoding and decoding"

text \<open>Addition at the width of \<^verbatim>\<open>size_t\<close> (32 bits on the Cortex-M boards).\<close>

definition size_add :: "nat \<Rightarrow> nat \<Rightarrow> nat" where
  "size_add a b = (a + b) mod 2 ^ 32"

lemma size_add_small [simp]: "a + b < 2 ^ 32 \<Longrightarrow> size_add a b = a + b"
  by (simp add: size_add_def)

definition size_sub :: "nat \<Rightarrow> nat \<Rightarrow> nat" where
  "size_sub a b = (if b \<le> a then a - b else a + 2 ^ 32 - b)"

lemma size_sub_le [simp]: "b \<le> a \<Longrightarrow> size_sub a b = a - b"
  by (simp add: size_sub_def)

section \<open>Bounds-checked access\<close>

definition rd8 :: "bytes \<Rightarrow> nat \<Rightarrow> u8 option" where
  "rd8 b i = (if i < length b then Some (b ! i) else None)"

definition wr8 :: "bytes \<Rightarrow> nat \<Rightarrow> u8 \<Rightarrow> bytes option" where
  "wr8 b i v = (if i < length b then Some (b[i := v]) else None)"

text \<open>Little-endian composition, as \<^verbatim>\<open>sys_le16_to_cpu\<close> and its wider relatives read it.\<close>

definition le16 :: "u8 \<Rightarrow> u8 \<Rightarrow> u16" where
  "le16 b0 b1 = word_of_nat (unat b0 + 256 * unat b1)"

definition le32 :: "u8 \<Rightarrow> u8 \<Rightarrow> u8 \<Rightarrow> u8 \<Rightarrow> u32" where
  "le32 b0 b1 b2 b3 =
     word_of_nat (unat b0 + 256 * unat b1 + 65536 * unat b2 + 16777216 * unat b3)"

definition bytes16 :: "u16 \<Rightarrow> bytes" where
  "bytes16 v = [word_of_nat (unat v mod 256), word_of_nat (unat v div 256)]"

definition bytes32 :: "u32 \<Rightarrow> bytes" where
  "bytes32 v =
     [word_of_nat (unat v mod 256), word_of_nat (unat v div 256 mod 256),
      word_of_nat (unat v div 65536 mod 256), word_of_nat (unat v div 16777216)]"

definition rd16 :: "bytes \<Rightarrow> nat \<Rightarrow> u16 option" where
  "rd16 b i = do { b0 \<leftarrow> rd8 b i; b1 \<leftarrow> rd8 b (i + 1); Some (le16 b0 b1) }"

definition rd32 :: "bytes \<Rightarrow> nat \<Rightarrow> u32 option" where
  "rd32 b i = do {
     b0 \<leftarrow> rd8 b i; b1 \<leftarrow> rd8 b (i + 1); b2 \<leftarrow> rd8 b (i + 2); b3 \<leftarrow> rd8 b (i + 3);
     Some (le32 b0 b1 b2 b3) }"

text \<open>\<^verbatim>\<open>memcpy\<close> out of a buffer and into one.\<close>

definition rd_slice :: "bytes \<Rightarrow> nat \<Rightarrow> nat \<Rightarrow> bytes option" where
  "rd_slice b i n = (if i + n \<le> length b then Some (take n (drop i b)) else None)"

definition wr_slice :: "bytes \<Rightarrow> nat \<Rightarrow> bytes \<Rightarrow> bytes option" where
  "wr_slice b i xs =
     (if i + length xs \<le> length b then Some (take i b @ xs @ drop (i + length xs) b) else None)"

definition wr16 :: "bytes \<Rightarrow> nat \<Rightarrow> u16 \<Rightarrow> bytes option" where
  "wr16 b i v = wr_slice b i (bytes16 v)"

definition wr32 :: "bytes \<Rightarrow> nat \<Rightarrow> u32 \<Rightarrow> bytes option" where
  "wr32 b i v = wr_slice b i (bytes32 v)"

section \<open>Lemmas on access\<close>

lemma unat_u8_lt: "unat (b :: u8) < 256"
  using unsigned_less[of b] by simp

lemma unat_u16_lt: "unat (v :: u16) < 65536"
  using unsigned_less[of v] by simp

lemma unat_u32_lt: "unat (v :: u32) < 4294967296"
  using unsigned_less[of v] by simp

lemma unat_of_nat_u8 [simp]: "n < 256 \<Longrightarrow> unat (word_of_nat n :: u8) = n"
  by (simp add: unat_of_nat)

lemma unat_of_nat_u16 [simp]: "n < 65536 \<Longrightarrow> unat (word_of_nat n :: u16) = n"
  by (simp add: unat_of_nat)

lemma unat_of_nat_u32 [simp]: "n < 4294967296 \<Longrightarrow> unat (word_of_nat n :: u32) = n"
  by (simp add: unat_of_nat)

lemma unat_le16: "unat (le16 a b) = unat a + 256 * unat b"
  unfolding le16_def
  by (rule unat_of_nat_u16) (use unat_u8_lt[of a] unat_u8_lt[of b] in linarith)

lemma unat_le32:
  "unat (le32 a b c d) = unat a + 256 * unat b + 65536 * unat c + 16777216 * unat d"
  unfolding le32_def
  by (rule unat_of_nat_u32)
     (use unat_u8_lt[of a] unat_u8_lt[of b] unat_u8_lt[of c] unat_u8_lt[of d] in linarith)

lemma le16_bytes16 [le_simps]: "le16 (bytes16 v ! 0) (bytes16 v ! 1) = v"
proof -
  have "unat v div 256 < 256" using unat_u16_lt[of v] by simp
  then have "unat (le16 (bytes16 v ! 0) (bytes16 v ! 1)) = unat v"
    by (simp add: unat_le16 bytes16_def del: of_nat_mod of_nat_div)
  then show ?thesis by (simp add: word_unat_eq_iff)
qed

lemma octets_step:
  "a0 + 256 * q1 = n \<Longrightarrow> a1 + 256 * q2 = q1 \<Longrightarrow> a2 + 256 * q3 = q2 \<Longrightarrow>
     a0 + 256 * a1 + 65536 * a2 + 16777216 * q3 = (n :: nat)"
  by linarith

lemma octets_of_nat:
  "n mod 256 + 256 * (n div 256 mod 256) + 65536 * (n div 65536 mod 256)
     + 16777216 * (n div 16777216) = (n :: nat)"
proof -
  have "n div 65536 = n div 256 div 256" "n div 16777216 = n div 256 div 256 div 256"
    by (simp_all add: div_mult2_eq [symmetric])
  then show ?thesis
    by (simp only:) (rule octets_step [OF mod_mult_div_eq mod_mult_div_eq mod_mult_div_eq])
qed

lemma le32_bytes32 [le_simps]:
  "le32 (bytes32 v ! 0) (bytes32 v ! 1) (bytes32 v ! 2) (bytes32 v ! 3) = v"
proof -
  have "unat v div 16777216 < 256" using unat_u32_lt[of v] by simp
  then have "unat (le32 (bytes32 v ! 0) (bytes32 v ! 1) (bytes32 v ! 2) (bytes32 v ! 3)) = unat v"
    using octets_of_nat[of "unat v"]
    by (simp add: unat_le32 bytes32_def numeral_3_eq_3 numeral_2_eq_2 del: of_nat_mod of_nat_div)
  then show ?thesis by (simp add: word_unat_eq_iff)
qed

lemma length_bytes16 [simp]: "length (bytes16 v) = 2"
  by (simp add: bytes16_def)

lemma length_bytes32 [simp]: "length (bytes32 v) = 4"
  by (simp add: bytes32_def)

lemma rd8_Some [buf_simps]: "i < length b \<Longrightarrow> rd8 b i = Some (b ! i)"
  by (simp add: rd8_def)

lemma rd8_eq_None [simp]: "rd8 b i = None \<longleftrightarrow> length b \<le> i"
  by (auto simp: rd8_def)

lemma rd16_Some [buf_simps]: "i + 2 \<le> length b \<Longrightarrow> rd16 b i = Some (le16 (b ! i) (b ! (i + 1)))"
  by (simp add: rd16_def rd8_def)

lemma rd8_Cons [buf_simps]:
  "rd8 (x # xs) 0 = Some x"
  "rd8 (x # xs) (Suc n) = rd8 xs n"
  "rd8 (x # xs) (numeral k) = rd8 xs (pred_numeral k)"
  by (simp_all add: rd8_def numeral_eq_Suc)

lemma rd8_SomeD: "rd8 b i = Some v \<Longrightarrow> i < length b \<and> v = b ! i"
  by (auto simp: rd8_def split: if_splits)

lemma rd16_SomeD: "rd16 b i = Some v \<Longrightarrow> i + 2 \<le> length b"
  by (auto simp: rd16_def rd8_def bind_eq_Some_conv split: if_splits)

lemma rd16_eq_None [simp]: "rd16 b i = None \<longleftrightarrow> length b < i + 2"
  by (auto simp: rd16_def bind_eq_None_conv)

lemma rd32_Some [buf_simps]:
  "i + 4 \<le> length b \<Longrightarrow>
     rd32 b i = Some (le32 (b ! i) (b ! (i + 1)) (b ! (i + 2)) (b ! (i + 3)))"
  by (simp add: rd32_def rd8_def)

lemma rd_slice_Some [buf_simps]:
  "i + n \<le> length b \<Longrightarrow> rd_slice b i n = Some (take n (drop i b))"
  by (simp add: rd_slice_def)

lemma wr8_Some [buf_simps]: "i < length b \<Longrightarrow> wr8 b i v = Some (b[i := v])"
  by (simp add: wr8_def)

lemma wr_slice_Some [buf_simps]:
  "i + length xs \<le> length b \<Longrightarrow>
     wr_slice b i xs = Some (take i b @ xs @ drop (i + length xs) b)"
  by (simp add: wr_slice_def)

lemma wr16_Some [buf_simps]:
  "i + 2 \<le> length b \<Longrightarrow> wr16 b i v = Some (take i b @ bytes16 v @ drop (i + 2) b)"
  by (simp add: wr16_def wr_slice_def)

lemma wr32_Some [buf_simps]:
  "i + 4 \<le> length b \<Longrightarrow> wr32 b i v = Some (take i b @ bytes32 v @ drop (i + 4) b)"
  by (simp add: wr32_def wr_slice_def)

lemma rd16_bytes16 [le_simps]: "rd16 (bytes16 v @ xs) 0 = Some v"
  using le16_bytes16[of v] by (simp add: rd16_def rd8_def nth_append)

lemma rd32_bytes32 [le_simps]: "rd32 (bytes32 v @ xs) 0 = Some v"
  using le32_bytes32[of v] by (simp add: rd32_def rd8_def nth_append numeral_3_eq_3 numeral_2_eq_2)

lemma rd8_append_right: "length xs \<le> i \<Longrightarrow> rd8 (xs @ ys) i = rd8 ys (i - length xs)"
  by (auto simp: rd8_def nth_append)

lemma rd16_append_right:
  "length xs \<le> i \<Longrightarrow> rd16 (xs @ ys) i = rd16 ys (i - length xs)"
  by (simp add: rd16_def rd8_append_right Suc_diff_le)

lemma rd32_append_right:
  "length xs \<le> i \<Longrightarrow> rd32 (xs @ ys) i = rd32 ys (i - length xs)"
  by (simp add: rd32_def rd8_append_right Suc_diff_le)

section \<open>Weakest preconditions\<close>

text \<open>
  \<open>wp mf m P\<close>: the computation \<open>m\<close> yields a result with \<open>P\<close>, or it faults and faults are
  admitted (\<open>mf\<close>). \<open>wp False\<close> is total correctness, \<open>wp True\<close> partial correctness.
\<close>

definition wp :: "bool \<Rightarrow> 'a option \<Rightarrow> ('a \<Rightarrow> bool) \<Rightarrow> bool" where
  "wp mf m P \<longleftrightarrow> (case m of None \<Rightarrow> mf | Some x \<Rightarrow> P x)"

named_theorems wp_rules "weakest preconditions of computations"

lemma wp_simps [simp, wp_rules]:
  "wp mf (Some x) P = P x"
  "wp mf None P = mf"
  "wp mf (m \<bind> f) P = wp mf m (\<lambda>x. wp mf (f x) P)"
  by (simp_all add: wp_def split: bind_splits)

lemma wp_mono: "wp mf m P \<Longrightarrow> (\<And>x. P x \<Longrightarrow> Q x) \<Longrightarrow> wp mf m Q"
  by (simp add: wp_def split: option.splits)

lemma wp_mono_pair:
  "wp mf m (\<lambda>(x, y). P x y) \<Longrightarrow> (\<And>x y. P x y \<Longrightarrow> Q (x, y)) \<Longrightarrow> wp mf m Q"
  by (auto simp: wp_def split: option.splits)

lemma wp_weaken: "wp False m P \<Longrightarrow> wp mf m P"
  by (simp add: wp_def split: option.splits)

lemma wp_False_iff: "wp False m P \<longleftrightarrow> (\<exists>x. m = Some x \<and> P x)"
  by (simp add: wp_def split: option.splits)

lemma wp_True_iff: "wp True m P \<longleftrightarrow> (\<forall>x. m = Some x \<longrightarrow> P x)"
  by (simp add: wp_def split: option.splits)

lemma wp_TrueD: "wp mf m P \<Longrightarrow> m = Some x \<Longrightarrow> P x"
  by (simp add: wp_def)

section \<open>Generic list lemmas\<close>

lemma count_list_remove_once:
  "count_list (remove1 x xs) y = count_list xs y - (if x = y then 1 else 0)"
  by (induction xs) auto

end
