(* ===== verification/Gb_Types.thy ===== *)
theory Gb_Types
  imports Gb_Prelude
begin

text \<open>
  The constants that every component uses: the operation results and flags of
  \<^verbatim>\<open>include/greybus/greybus.h\<close>, the errno values of the C library the firmware is built with,
  and the map from errno values to operation results of \<^verbatim>\<open>greybus-core.c\<close>.
  Errno values are those of Zephyr's minimal libc and of newlib; \<^verbatim>\<open>EOVERFLOW\<close> is defined there,
  so the fallback of the source (75) is not taken.
\<close>

unbundle bit_operations_syntax

section \<open>Operation results\<close>

abbreviation (input) GB_OP_SUCCESS :: u8 where "GB_OP_SUCCESS \<equiv> 0x00"
abbreviation (input) GB_OP_INTERRUPTED :: u8 where "GB_OP_INTERRUPTED \<equiv> 0x01"
abbreviation (input) GB_OP_TIMEOUT :: u8 where "GB_OP_TIMEOUT \<equiv> 0x02"
abbreviation (input) GB_OP_NO_MEMORY :: u8 where "GB_OP_NO_MEMORY \<equiv> 0x03"
abbreviation (input) GB_OP_PROTOCOL_BAD :: u8 where "GB_OP_PROTOCOL_BAD \<equiv> 0x04"
abbreviation (input) GB_OP_OVERFLOW :: u8 where "GB_OP_OVERFLOW \<equiv> 0x05"
abbreviation (input) GB_OP_INVALID :: u8 where "GB_OP_INVALID \<equiv> 0x06"
abbreviation (input) GB_OP_RETRY :: u8 where "GB_OP_RETRY \<equiv> 0x07"
abbreviation (input) GB_OP_NONEXISTENT :: u8 where "GB_OP_NONEXISTENT \<equiv> 0x08"
abbreviation (input) GB_OP_UNKNOWN_ERROR :: u8 where "GB_OP_UNKNOWN_ERROR \<equiv> 0xfe"
abbreviation (input) GB_OP_INTERNAL :: u8 where "GB_OP_INTERNAL \<equiv> 0xff"

abbreviation (input) GB_TYPE_RESPONSE_FLAG :: u8 where "GB_TYPE_RESPONSE_FLAG \<equiv> 0x80"
abbreviation (input) GB_INVALID_TYPE :: u8 where "GB_INVALID_TYPE \<equiv> 0x7f"
abbreviation (input) GB_PING_TYPE :: u8 where "GB_PING_TYPE \<equiv> 0x00"

text \<open>\<^verbatim>\<open>sizeof(struct gb_operation_hdr)\<close> and the limits derived from the MTU.\<close>

abbreviation (input) HDR_SIZE :: nat where "HDR_SIZE \<equiv> 8"
abbreviation (input) GB_MTU :: nat where "GB_MTU \<equiv> 2048"
abbreviation (input) GB_MAX_PAYLOAD_SIZE :: nat where "GB_MAX_PAYLOAD_SIZE \<equiv> 2040"
abbreviation (input) CPORT_BUF_SIZE :: nat where "CPORT_BUF_SIZE \<equiv> 2048"

section \<open>Errno values\<close>

abbreviation (input) ENOENT :: int where "ENOENT \<equiv> 2"
abbreviation (input) EINTR :: int where "EINTR \<equiv> 4"
abbreviation (input) EIO :: int where "EIO \<equiv> 5"
abbreviation (input) ENXIO :: int where "ENXIO \<equiv> 6"
abbreviation (input) EBADF :: int where "EBADF \<equiv> 9"
abbreviation (input) ENOMEM :: int where "ENOMEM \<equiv> 12"
abbreviation (input) EBUSY :: int where "EBUSY \<equiv> 16"
abbreviation (input) EEXIST :: int where "EEXIST \<equiv> 17"
abbreviation (input) ENODEV :: int where "ENODEV \<equiv> 19"
abbreviation (input) EINVAL :: int where "EINVAL \<equiv> 22"
abbreviation (input) EPROTO :: int where "EPROTO \<equiv> 71"
abbreviation (input) ENOSYS :: int where "ENOSYS \<equiv> 88"
abbreviation (input) ENETDOWN :: int where "ENETDOWN \<equiv> 115"
abbreviation (input) ETIMEDOUT :: int where "ETIMEDOUT \<equiv> 116"
abbreviation (input) EALREADY :: int where "EALREADY \<equiv> 120"
abbreviation (input) ENOTCONN :: int where "ENOTCONN \<equiv> 128"
abbreviation (input) ENOTSUP :: int where "ENOTSUP \<equiv> 134"
abbreviation (input) EOVERFLOW :: int where "EOVERFLOW \<equiv> 139"

section \<open>Errno to operation result\<close>

definition gb_errno_to_op_result :: "int \<Rightarrow> u8" where
  "gb_errno_to_op_result err =
     (if err = 0 then GB_OP_SUCCESS
      else if err = ENOMEM \<or> err = - ENOMEM then GB_OP_NO_MEMORY
      else if err = EINTR \<or> err = - EINTR then GB_OP_INTERRUPTED
      else if err = ETIMEDOUT \<or> err = - ETIMEDOUT then GB_OP_TIMEOUT
      else if err = EPROTO \<or> err = - EPROTO \<or> err = ENOSYS \<or> err = - ENOSYS
        then GB_OP_PROTOCOL_BAD
      else if err = EINVAL \<or> err = - EINVAL then GB_OP_INVALID
      else if err = EOVERFLOW \<or> err = - EOVERFLOW then GB_OP_OVERFLOW
      else if err = ENODEV \<or> err = - ENODEV \<or> err = ENXIO \<or> err = - ENXIO
        then GB_OP_NONEXISTENT
      else if err = EBUSY \<or> err = - EBUSY then GB_OP_RETRY
      else GB_OP_UNKNOWN_ERROR)"

lemma gb_errno_neg: "gb_errno_to_op_result (- e) = gb_errno_to_op_result e"
  by (simp add: gb_errno_to_op_result_def minus_equation_iff[of e] eq_commute[of _ e] disj_commute)

lemma gb_errno_success: "gb_errno_to_op_result e = GB_OP_SUCCESS \<longleftrightarrow> e = 0"
  by (simp add: gb_errno_to_op_result_def)

lemma gb_errno_range:
  "gb_errno_to_op_result e \<in>
     {GB_OP_SUCCESS, GB_OP_NO_MEMORY, GB_OP_INTERRUPTED, GB_OP_TIMEOUT, GB_OP_PROTOCOL_BAD,
      GB_OP_INVALID, GB_OP_OVERFLOW, GB_OP_NONEXISTENT, GB_OP_RETRY, GB_OP_UNKNOWN_ERROR}"
  by (simp add: gb_errno_to_op_result_def)

text \<open>
  A driver's error code becomes a result octet that is success exactly for zero, that does not
  depend on the sign, and that is one of the results the protocol knows.
\<close>

theorem errno_to_result:
  "(gb_errno_to_op_result e = GB_OP_SUCCESS \<longleftrightarrow> e = 0) \<and> gb_errno_to_op_result (- e) = gb_errno_to_op_result e
   \<and> gb_errno_to_op_result e \<in> {GB_OP_SUCCESS, GB_OP_NO_MEMORY, GB_OP_INTERRUPTED, GB_OP_TIMEOUT, GB_OP_PROTOCOL_BAD,
      GB_OP_INVALID, GB_OP_OVERFLOW, GB_OP_NONEXISTENT, GB_OP_RETRY, GB_OP_UNKNOWN_ERROR}"
  using gb_errno_success[of e] gb_errno_neg[of e] gb_errno_range[of e] by blast

end
