(* ===== verification/Gb_Operation.thy ===== *)
theory Gb_Operation
  imports Gb_Types
begin

text \<open>
  A single Greybus operation (\<^verbatim>\<open>struct gb_operation\<close> of \<^verbatim>\<open>include/greybus/greybus.h\<close>) and the
  functions of \<^verbatim>\<open>greybus-core.c\<close> that look at one operation only: the payload accessors and
  the allocation of the response. A buffer is the list of octets of the block that
  \<^verbatim>\<open>alloc_buf\<close> returned, so its length is the allocated size and not what the header in it
  claims. \<open>'w\<close> is the state of everything outside the modelled code (transport heap, devices);
  the operations of the outside are arguments that take it and return it updated.
\<close>

unbundle bit_operations_syntax

section \<open>Operations and their buffers\<close>

type_synonym fptr = nat

datatype callback = Callback_sync | Callback_user fptr

record gb_bundle =
  bnd_id :: int
  bnd_cport_start :: u32
  bnd_dev :: "nat option list"

record gb_operation =
  op_cport :: nat
  op_has_responded :: bool
  op_ref_count :: int
  op_time :: "int \<times> int"
  op_request_buffer :: "bytes option"
  op_response_buffer :: "bytes option"
  op_is_unipro_rx_buf :: bool
  op_callback :: "callback option"
  op_sync_sem :: nat
  op_response :: "nat option"
  op_bundle :: "nat option"

text \<open>The image of \<^verbatim>\<open>struct gb_operation_hdr\<close>: size, id, type, result and two pad octets.\<close>

definition hdr_bytes :: "u16 \<Rightarrow> u16 \<Rightarrow> u8 \<Rightarrow> u8 \<Rightarrow> bytes" where
  "hdr_bytes sz ident ty res = bytes16 sz @ bytes16 ident @ [ty, res, 0, 0]"

abbreviation hdr_size :: "bytes \<Rightarrow> u16 option" where "hdr_size b \<equiv> rd16 b 0"
abbreviation hdr_id :: "bytes \<Rightarrow> u16 option" where "hdr_id b \<equiv> rd16 b 2"
abbreviation hdr_type :: "bytes \<Rightarrow> u8 option" where "hdr_type b \<equiv> rd8 b 4"
abbreviation hdr_result :: "bytes \<Rightarrow> u8 option" where "hdr_result b \<equiv> rd8 b 5"

lemma length_hdr_bytes [simp]: "length (hdr_bytes s i t r) = HDR_SIZE"
  by (simp add: hdr_bytes_def)

lemma hdr_bytes_fields [simp]:
  "hdr_size (hdr_bytes s i t r @ p) = Some s"
  "hdr_id (hdr_bytes s i t r @ p) = Some i"
  "hdr_type (hdr_bytes s i t r @ p) = Some t"
  "hdr_result (hdr_bytes s i t r @ p) = Some r"
proof -
  show "hdr_size (hdr_bytes s i t r @ p) = Some s" "hdr_id (hdr_bytes s i t r @ p) = Some i"
    by (simp_all add: hdr_bytes_def rd16_bytes16 rd16_append_right)
  show "hdr_type (hdr_bytes s i t r @ p) = Some t" "hdr_result (hdr_bytes s i t r @ p) = Some r"
    by (simp_all add: hdr_bytes_def rd8_def bytes16_def)
qed

lemmas hdr_bytes_fields_nil [simp] = hdr_bytes_fields [where p = "[]", simplified append_Nil2]

section \<open>Accessors\<close>

definition gb_operation_get_request_payload_size :: "gb_operation option \<Rightarrow> nat option" where
  "gb_operation_get_request_payload_size oper =
     (case oper of None \<Rightarrow> Some 0
      | Some op \<Rightarrow>
          (case op_request_buffer op of None \<Rightarrow> Some 0
           | Some b \<Rightarrow> do {
               sz \<leftarrow> hdr_size b;
               if unat sz < HDR_SIZE then Some 0 else Some (unat sz - HDR_SIZE) }))"

text \<open>
  \<^verbatim>\<open>gb_operation_get_request_payload\<close> and \<^verbatim>\<open>gb_operation_get_response_payload\<close> are the
  buffer plus the header; a field of the payload structure is read or written at its offset.
\<close>

definition req8 :: "gb_operation \<Rightarrow> nat \<Rightarrow> u8 option" where
  "req8 op off = do { b \<leftarrow> op_request_buffer op; rd8 b (HDR_SIZE + off) }"

definition req16 :: "gb_operation \<Rightarrow> nat \<Rightarrow> u16 option" where
  "req16 op off = do { b \<leftarrow> op_request_buffer op; rd16 b (HDR_SIZE + off) }"

definition req32 :: "gb_operation \<Rightarrow> nat \<Rightarrow> u32 option" where
  "req32 op off = do { b \<leftarrow> op_request_buffer op; rd32 b (HDR_SIZE + off) }"

definition req_slice :: "gb_operation \<Rightarrow> nat \<Rightarrow> nat \<Rightarrow> bytes option" where
  "req_slice op off n = do { b \<leftarrow> op_request_buffer op; rd_slice b (HDR_SIZE + off) n }"

definition resp_update :: "(bytes \<Rightarrow> bytes option) \<Rightarrow> gb_operation \<Rightarrow> gb_operation option" where
  "resp_update f op = do {
     b \<leftarrow> op_response_buffer op; b' \<leftarrow> f b; Some (op\<lparr>op_response_buffer := Some b'\<rparr>) }"

definition resp8 :: "gb_operation \<Rightarrow> nat \<Rightarrow> u8 \<Rightarrow> gb_operation option" where
  "resp8 op off v = resp_update (\<lambda>b. wr8 b (HDR_SIZE + off) v) op"

definition resp16 :: "gb_operation \<Rightarrow> nat \<Rightarrow> u16 \<Rightarrow> gb_operation option" where
  "resp16 op off v = resp_update (\<lambda>b. wr16 b (HDR_SIZE + off) v) op"

definition resp32 :: "gb_operation \<Rightarrow> nat \<Rightarrow> u32 \<Rightarrow> gb_operation option" where
  "resp32 op off v = resp_update (\<lambda>b. wr32 b (HDR_SIZE + off) v) op"

definition resp_slice :: "gb_operation \<Rightarrow> nat \<Rightarrow> bytes \<Rightarrow> gb_operation option" where
  "resp_slice op off xs = resp_update (\<lambda>b. wr_slice b (HDR_SIZE + off) xs) op"

text \<open>Sixty-four bits are two halves, the low one first.\<close>

definition req64 :: "gb_operation \<Rightarrow> nat \<Rightarrow> u64 option" where
  "req64 op off = do {
     lo \<leftarrow> req32 op off; hi \<leftarrow> req32 op (off + 4); Some (ucast lo OR push_bit 32 (ucast hi)) }"

definition resp64 :: "gb_operation \<Rightarrow> nat \<Rightarrow> u64 \<Rightarrow> gb_operation option" where
  "resp64 op off v = do { op' \<leftarrow> resp32 op off (ucast v); resp32 op' (off + 4) (ucast (drop_bit 32 v)) }"

section \<open>Allocating the response\<close>

type_synonym 'w alloc_fn = "'w \<Rightarrow> nat \<Rightarrow> bool \<times> 'w"

text \<open>
  \<^verbatim>\<open>size + sizeof(*resp_hdr)\<close> is \<^verbatim>\<open>size_t\<close> arithmetic; the header field gets its low
  sixteen bits. The Boolean of the result says whether the returned pointer is non-null. A
  response buffer the operation already had is overwritten, as in the code.
\<close>

definition gb_operation_alloc_response ::
  "'w alloc_fn \<Rightarrow> 'w \<Rightarrow> gb_operation \<Rightarrow> nat \<Rightarrow> (bool \<times> gb_operation \<times> 'w) option" where
  "gb_operation_alloc_response alloc_buf w op sz =
     (let n = size_add sz HDR_SIZE; (ok, w') = alloc_buf w n in
      if \<not> ok then Some (False, op\<lparr>op_response_buffer := None\<rparr>, w')
      else do {
        req \<leftarrow> op_request_buffer op;
        let b = replicate n 0;
        b \<leftarrow> wr16 b 0 (word_of_nat n);
        ident \<leftarrow> hdr_id req;
        b \<leftarrow> wr16 b 2 ident;
        ty \<leftarrow> hdr_type req;
        b \<leftarrow> wr8 b 4 (GB_TYPE_RESPONSE_FLAG OR ty);
        Some (True, op\<lparr>op_response_buffer := Some b\<rparr>, w') })"

lemma wr_hdr_fields:
  "wr16 ([a0, a1, a2, a3, a4, a5, a6, a7] @ p) 0 sz = Some (bytes16 sz @ [a2, a3, a4, a5, a6, a7] @ p)"
  "wr16 (bytes16 sz @ [a2, a3, a4, a5, a6, a7] @ p) 2 i =
     Some (bytes16 sz @ bytes16 i @ [a4, a5, a6, a7] @ p)"
  "wr8 (bytes16 sz @ bytes16 i @ [a4, a5, a6, a7] @ p) 4 t =
     Some (bytes16 sz @ bytes16 i @ [t, a5, a6, a7] @ p)"
  by (simp_all add: wr16_def wr_slice_def wr8_def bytes16_def)

text \<open>The closed form of a successful allocation: the request's id, its type with the response
  flag, and a zeroed payload.\<close>

lemma alloc_response_ok:
  assumes "alloc_buf w (sz + HDR_SIZE) = (True, w')"
    and "op_request_buffer op = Some req" and "hdr_id req = Some ident" and "hdr_type req = Some ty"
    and "sz + HDR_SIZE < 2 ^ 32"
  shows "gb_operation_alloc_response alloc_buf w op sz =
    Some (True, op\<lparr>op_response_buffer :=
      Some (hdr_bytes (word_of_nat (sz + HDR_SIZE)) ident (GB_TYPE_RESPONSE_FLAG OR ty) 0
            @ replicate sz 0)\<rparr>, w')"
proof -
  have rep: "replicate (sz + 8) (0 :: u8) = [0, 0, 0, 0, 0, 0, 0, 0] @ replicate sz 0"
    by (simp add: numeral_eq_Suc)
  have n: "size_add sz 8 = sz + 8" using assms(5) by simp
  show ?thesis
    unfolding gb_operation_alloc_response_def Let_def n assms(1) prod.case rep wr_hdr_fields
      bind.bind_lunit assms(2,3,4)
    by (simp only: if_False if_True not_True_eq_False bind.bind_lunit wr_hdr_fields hdr_bytes_def
        append_assoc append.simps)
qed

end
