(* ===== verification/Gb_Dispatch.thy ===== *)
theory Gb_Dispatch
  imports Gb_Operation
begin

text \<open>
  Operation handlers and drivers (\<^verbatim>\<open>struct gb_operation_handler\<close>, \<^verbatim>\<open>struct gb_driver\<close>), the
  order \<^verbatim>\<open>_gb_register_driver\<close> sorts a handler table into, and the binary search of
  \<^verbatim>\<open>find_operation_handler\<close>. A function pointer is a number; what calling it does is a
  parameter of the components that call through it.
\<close>

section \<open>Handler tables\<close>

record gb_operation_handler =
  oh_type :: u8
  oh_handler :: "fptr option"
  oh_fast_handler :: "fptr option"

record gb_driver =
  drv_init :: "fptr option"
  drv_exit :: "fptr option"
  drv_connected :: "fptr option"
  drv_disconnected :: "fptr option"
  drv_op_handlers :: "gb_operation_handler list option"
  drv_op_handlers_count :: nat
  drv_bundle :: "nat option"

definition gb_compare_handlers :: "gb_operation_handler \<Rightarrow> gb_operation_handler \<Rightarrow> int" where
  "gb_compare_handlers h1 h2 = uint (oh_type h1) - uint (oh_type h2)"

text \<open>\<^verbatim>\<open>qsort\<close> with a comparison function: insertion into a list already in order.\<close>

fun insert_handler :: "gb_operation_handler \<Rightarrow> gb_operation_handler list \<Rightarrow> gb_operation_handler list" where
  "insert_handler h [] = [h]"
| "insert_handler h (x # xs) =
     (if gb_compare_handlers h x \<le> 0 then h # x # xs else x # insert_handler h xs)"

fun qsort_handlers :: "gb_operation_handler list \<Rightarrow> gb_operation_handler list" where
  "qsort_handlers [] = []"
| "qsort_handlers (h # hs) = insert_handler h (qsort_handlers hs)"

text \<open>What \<^verbatim>\<open>_gb_register_driver\<close> does to a driver's table: its first \<open>count\<close> entries are sorted.\<close>

definition sort_op_handlers :: "gb_driver \<Rightarrow> gb_driver option" where
  "sort_op_handlers driver =
     (case drv_op_handlers driver of
        None \<Rightarrow> Some driver
      | Some hs \<Rightarrow>
          let n = drv_op_handlers_count driver in
          if length hs < n then None
          else Some (driver\<lparr>drv_op_handlers := Some (qsort_handlers (take n hs) @ drop n hs)\<rparr>))"

text \<open>
  The loop of \<^verbatim>\<open>find_operation_handler\<close> on the \<^verbatim>\<open>int\<close> bounds \<open>l\<close> and \<open>r\<close>. The outer
  \<open>None\<close> is an access outside the table, the inner one the null result.
\<close>

function find_loop ::
  "gb_operation_handler list \<Rightarrow> u8 \<Rightarrow> int \<Rightarrow> int \<Rightarrow> gb_operation_handler option option" where
  "find_loop hs ty l r =
     (if l \<le> r then
        (let m = (l + r) div 2 in
         if m < 0 \<or> int (length hs) \<le> m then None
         else if oh_type (hs ! nat m) < ty then find_loop hs ty (m + 1) r
         else if oh_type (hs ! nat m) > ty then find_loop hs ty l (m - 1)
         else Some (Some (hs ! nat m)))
      else Some None)"
  by pat_completeness auto
termination
  by (relation "measure (\<lambda>(hs, ty, l, r). nat (r - l + 1))") auto

declare find_loop.simps [simp del]

definition find_operation_handler :: "u8 \<Rightarrow> gb_driver \<Rightarrow> gb_operation_handler option option" where
  "find_operation_handler ty driver =
     (case drv_op_handlers driver of
        None \<Rightarrow> Some None
      | Some hs \<Rightarrow>
          if ty = GB_INVALID_TYPE then Some None
          else find_loop hs ty 0 (int (drv_op_handlers_count driver) - 1))"

section \<open>Sorting\<close>

lemma compare_le_iff: "gb_compare_handlers h x \<le> 0 \<longleftrightarrow> oh_type h \<le> oh_type x"
  by (simp add: gb_compare_handlers_def word_le_def)

lemma set_insert_handler [simp]: "set (insert_handler h xs) = insert h (set xs)"
  by (induction xs) auto

lemma length_insert_handler [simp]: "length (insert_handler h xs) = Suc (length xs)"
  by (induction xs) auto

lemma sorted_insert_handler:
  "sorted (map oh_type xs) \<Longrightarrow> sorted (map oh_type (insert_handler h xs))"
  by (induction xs) (auto simp: compare_le_iff)

lemma distinct_insert_handler:
  "distinct (map oh_type (insert_handler h xs)) \<longleftrightarrow> distinct (map oh_type (h # xs))"
  by (induction xs) auto

lemma set_qsort_handlers [simp]: "set (qsort_handlers hs) = set hs"
  by (induction hs) auto

lemma length_qsort_handlers [simp]: "length (qsort_handlers hs) = length hs"
  by (induction hs) auto

lemma sorted_qsort_handlers: "sorted (map oh_type (qsort_handlers hs))"
  by (induction hs) (auto intro: sorted_insert_handler)

lemma distinct_qsort_handlers:
  "distinct (map oh_type (qsort_handlers hs)) \<longleftrightarrow> distinct (map oh_type hs)"
  by (induction hs) (auto simp: distinct_insert_handler)

section \<open>Searching\<close>

lemma find_loop_sound:
  "find_loop hs ty l r = Some (Some h) \<Longrightarrow> h \<in> set hs \<and> oh_type h = ty"
proof (induction hs ty l r rule: find_loop.induct)
  case (1 hs ty l r)
  show ?case
    using "1.prems" "1.IH"
    by (auto simp: Let_def nat_less_iff find_loop.simps[of hs ty l r] split: if_splits)
qed

text \<open>Within the table and over sorted types the loop neither leaves the table nor misses a
  handler between its bounds.\<close>


lemma find_loop_None_iff:
  "sorted (map oh_type hs) \<Longrightarrow> 0 \<le> l \<Longrightarrow> r < int (length hs) \<Longrightarrow>
     find_loop hs ty l r = Some None \<and> (\<forall>i. l \<le> int i \<and> int i \<le> r \<longrightarrow> oh_type (hs ! i) \<noteq> ty)
     \<or> (\<exists>h. find_loop hs ty l r = Some (Some h))"
proof (induction hs ty l r rule: find_loop.induct)
  case (1 hs ty l r)
  show ?case
  proof (cases "l \<le> r")
    case False
    then show ?thesis by (force simp: find_loop.simps[of hs ty l r])
  next
    case True
    define m where "m = (l + r) div 2"
    have m: "l \<le> m" "m \<le> r" using True by (auto simp: m_def)
    have idx: "\<not> (m < 0 \<or> int (length hs) \<le> m)" "nat m < length hs"
      using m "1.prems" by auto
    have mono: "i \<le> j \<Longrightarrow> j < length hs \<Longrightarrow> oh_type (hs ! i) \<le> oh_type (hs ! j)" for i j
      using sorted_nth_mono[OF "1.prems"(1), of i j] by simp
    consider (lo) "oh_type (hs ! nat m) < ty" | (hi) "oh_type (hs ! nat m) > ty"
      | (eq) "oh_type (hs ! nat m) = ty" by force
    then show ?thesis
    proof cases
      case lo
      have eqn: "find_loop hs ty l r = find_loop hs ty (m + 1) r"
        using True idx lo by (subst find_loop.simps) (simp add: Let_def m_def)
      have below: "oh_type (hs ! i) \<noteq> ty" if "int i \<le> m" for i
        using mono[of i "nat m"] that lo idx by force
      from "1.IH"(1)[OF True m_def idx(1) lo "1.prems"(1)] m "1.prems" below show ?thesis
        unfolding eqn by force
    next
      case hi
      have eqn: "find_loop hs ty l r = find_loop hs ty l (m - 1)"
        using True idx hi by (subst find_loop.simps) (auto simp add: Let_def m_def)
      have above: "oh_type (hs ! i) \<noteq> ty" if "m \<le> int i" "int i \<le> r" for i
        using mono[of "nat m" i] that hi idx m "1.prems" by force
      have "\<not> oh_type (hs ! nat m) < ty" using hi by auto
      from "1.IH"(2)[OF True m_def idx(1) this hi "1.prems"(1,2)] m "1.prems" above show ?thesis
        unfolding eqn by force
    next
      case eq
      then show ?thesis
        using True idx by (subst find_loop.simps, subst find_loop.simps) (auto simp: Let_def m_def)
    qed
  qed
qed

lemma find_loop_no_fault:
  "0 \<le> l \<Longrightarrow> r < int (length hs) \<Longrightarrow> find_loop hs ty l r \<noteq> None"
proof (induction hs ty l r rule: find_loop.induct)
  case (1 hs ty l r)
  show ?case
    using "1.prems" "1.IH"[OF _ refl] by (auto simp: Let_def find_loop.simps[of hs ty l r])
qed

definition driver_ok :: "gb_driver \<Rightarrow> bool" where
  "driver_ok d \<longleftrightarrow> (\<forall>hs. drv_op_handlers d = Some hs \<longrightarrow>
     drv_op_handlers_count d \<le> length hs \<and> (\<forall>h \<in> set hs. oh_handler h \<noteq> None))"

lemma find_operation_handler_no_fault:
  "driver_ok d \<Longrightarrow> find_operation_handler ty d \<noteq> None"
  using find_loop_no_fault by (auto simp: find_operation_handler_def driver_ok_def split: option.splits)

lemma sort_op_handlers_ok:
  assumes "driver_ok d"
  obtains d' where "sort_op_handlers d = Some d'" and "driver_ok d'"
proof (cases "drv_op_handlers d")
  case None
  then show ?thesis using that assms by (simp add: sort_op_handlers_def)
next
  case (Some hs)
  with assms have "sort_op_handlers d = Some (d\<lparr>drv_op_handlers :=
      Some (qsort_handlers (take (drv_op_handlers_count d) hs) @ drop (drv_op_handlers_count d) hs)\<rparr>)"
    by (simp add: sort_op_handlers_def driver_ok_def Let_def)
  from that[OF this] assms Some show ?thesis
    by (auto simp: driver_ok_def dest: in_set_takeD in_set_dropD)
qed

definition handler_table :: "gb_operation_handler list \<Rightarrow> u8 \<Rightarrow> gb_operation_handler option" where
  "handler_table hs ty = (if ty = GB_INVALID_TYPE then None else find (\<lambda>h. oh_type h = ty) hs)"

lemma handler_table_Some_iff:
  assumes "distinct (map oh_type hs)"
  shows "handler_table hs ty = Some h \<longleftrightarrow>
    h \<in> set hs \<and> oh_type h = ty \<and> ty \<noteq> GB_INVALID_TYPE"
proof -
  have "find (\<lambda>h. oh_type h = ty) hs = Some h \<longleftrightarrow> h \<in> set hs \<and> oh_type h = ty"
    using assms by (induction hs) auto
  then show ?thesis by (auto simp: handler_table_def)
qed

lemma handler_table_None_iff:
  "handler_table hs ty = None \<longleftrightarrow> ty = GB_INVALID_TYPE \<or> (\<forall>h \<in> set hs. oh_type h \<noteq> ty)"
  by (auto simp: handler_table_def find_None_iff)

text \<open>A driver as \<^verbatim>\<open>_gb_register_driver\<close> leaves it: the table sorted, its count the table's
  length.\<close>

definition registered_table :: "gb_driver \<Rightarrow> gb_operation_handler list \<Rightarrow> bool" where
  "registered_table d hs \<longleftrightarrow>
     drv_op_handlers d = Some (qsort_handlers hs) \<and> drv_op_handlers_count d = length hs"

lemma find_registered:
  assumes reg: "registered_table d hs" and dist: "distinct (map oh_type hs)"
  shows "find_operation_handler ty d = Some (handler_table hs ty)"
proof (cases "ty = GB_INVALID_TYPE")
  case True
  then show ?thesis
    using reg by (simp add: find_operation_handler_def registered_table_def handler_table_def)
next
  case False
  let ?q = "qsort_handlers hs"
  have eq: "find_operation_handler ty d = find_loop ?q ty 0 (int (length ?q) - 1)"
    using reg False by (simp add: find_operation_handler_def registered_table_def)
  consider (none) "find_loop ?q ty 0 (int (length ?q) - 1) = Some None"
      "\<forall>i. 0 \<le> int i \<and> int i \<le> int (length ?q) - 1 \<longrightarrow> oh_type (?q ! i) \<noteq> ty"
    | (some) h where "find_loop ?q ty 0 (int (length ?q) - 1) = Some (Some h)"
    using find_loop_None_iff[OF sorted_qsort_handlers, of 0 "int (length ?q) - 1" hs ty] by auto
  then show ?thesis
  proof cases
    case none
    have "\<forall>h \<in> set ?q. oh_type h \<noteq> ty"
      using none(2) by (force simp: in_set_conv_nth simp del: set_qsort_handlers length_qsort_handlers)
    then have "handler_table hs ty = None" by (simp add: handler_table_None_iff)
    with none(1) show ?thesis by (simp add: eq)
  next
    case some
    then have "handler_table hs ty = Some h"
      using find_loop_sound[OF some] dist False by (simp add: handler_table_Some_iff)
    with some show ?thesis by (simp add: eq)
  qed
qed

text \<open>Whatever the table, a handler that is found has the type that was asked for.\<close>

lemma find_operation_handler_sound:
  assumes "find_operation_handler ty d = Some (Some h)" and "drv_op_handlers d = Some hs"
  shows "h \<in> set hs \<and> oh_type h = ty"
  using assms find_loop_sound by (auto simp: find_operation_handler_def split: if_splits)

text \<open>
  C13. The binary search over the table that registration sorts finds what a search through the
  driver's own table finds: for every type the handler of that type if there is one and nothing
  otherwise, and nothing for the invalid type.
\<close>

theorem dispatch_is_lookup:
  assumes "sort_op_handlers driver = Some driver'" and "drv_op_handlers driver = Some hs"
    and "drv_op_handlers_count driver = length hs" and "distinct (map oh_type hs)"
  shows "find_operation_handler ty driver' = Some (handler_table hs ty)"
proof (rule find_registered[OF _ assms(4)])
  show "registered_table driver' hs" using assms(1-3) by (auto simp: sort_op_handlers_def registered_table_def)
qed

theorem dispatch_is_lookup_witness:
  "find_operation_handler 1 (the (sort_op_handlers
     \<lparr>drv_init = None, drv_exit = None, drv_connected = None, drv_disconnected = None,
      drv_op_handlers = Some [\<lparr>oh_type = 2, oh_handler = Some 20, oh_fast_handler = None\<rparr>,
                              \<lparr>oh_type = 1, oh_handler = Some 10, oh_fast_handler = None\<rparr>],
      drv_op_handlers_count = 2, drv_bundle = None\<rparr>))
   = Some (Some \<lparr>oh_type = 1, oh_handler = Some 10, oh_fast_handler = None\<rparr>)"
proof -
  let ?hs = "[\<lparr>oh_type = 2, oh_handler = Some (20 :: nat), oh_fast_handler = None\<rparr>,
              \<lparr>oh_type = 1, oh_handler = Some 10, oh_fast_handler = None\<rparr>]"
  let ?d = "\<lparr>drv_init = None, drv_exit = None, drv_connected = None, drv_disconnected = None,
      drv_op_handlers = Some ?hs, drv_op_handlers_count = 2, drv_bundle = None\<rparr>"
  obtain d' where "sort_op_handlers ?d = Some d'" by (simp add: sort_op_handlers_def)
  then show ?thesis
    using dispatch_is_lookup[of ?d d' ?hs 1] by (simp add: handler_table_def)
qed

end
