(* ===== verification/Gb_Heap.thy ===== *)
theory Gb_Heap
  imports Gb_Operation
begin

text \<open>
  The heap of reference-counted operations and \<^verbatim>\<open>gb_operation_ref\<close>, \<^verbatim>\<open>gb_operation_unref\<close> and
  \<^verbatim>\<open>gb_operation_destroy\<close> of \<^verbatim>\<open>greybus-core.c\<close>. An address is an index into the heap; a freed or
  never allocated cell is \<open>None\<close>, and touching it is a fault. The invariant says that each
  count is the number of references that exist: \<open>ext a\<close> references from outside the heap
  (fifos, callers) and the \<^verbatim>\<open>response\<close> pointers of live operations. Under it \<open>unref\<close> neither
  faults nor frees an operation that is still referenced.
\<close>

type_synonym heap = "gb_operation option list"

definition hget :: "heap \<Rightarrow> nat \<Rightarrow> gb_operation option" where
  "hget H a = (if a < length H then H ! a else None)"

definition hput :: "heap \<Rightarrow> nat \<Rightarrow> gb_operation \<Rightarrow> heap" where
  "hput H a op = H[a := Some op]"

definition hfree :: "heap \<Rightarrow> nat \<Rightarrow> heap" where
  "hfree H a = H[a := None]"

definition heap_ref :: "nat \<Rightarrow> heap \<Rightarrow> heap option" where
  "heap_ref a H = do {
     op \<leftarrow> hget H a; Some (hput H a (op\<lparr>op_ref_count := op_ref_count op + 1\<rparr>)) }"

definition counted :: "gb_operation option \<Rightarrow> bool" where
  "counted x \<longleftrightarrow> (case x of None \<Rightarrow> False | Some op \<Rightarrow> 1 \<le> op_ref_count op)"

lemma filter_update_less:
  "i < length xs \<Longrightarrow> P (xs ! i) \<Longrightarrow> \<not> P y \<Longrightarrow> length (filter P (xs[i := y])) < length (filter P xs)"
proof (induction xs arbitrary: i)
  case Nil
  then show ?case by simp
next
  case (Cons x xs)
  then show ?case by (cases i) auto
qed

text \<open>
  The decremented count is stored first; when it reaches zero the buffers go back to their
  allocator, the reference to the response is dropped and the operation is freed. The buffer of
  an operation that came from UniPro is released by a stub of the repository that does nothing.
\<close>

function heap_unref ::
  "('w \<Rightarrow> bytes option \<Rightarrow> 'w) \<Rightarrow> nat \<Rightarrow> heap \<Rightarrow> 'w \<Rightarrow> (heap \<times> 'w) option" where
  "heap_unref free_buf a H w =
     (case hget H a of
        None \<Rightarrow> None
      | Some op \<Rightarrow>
          let rc = op_ref_count op - 1; H1 = hput H a (op\<lparr>op_ref_count := rc\<rparr>) in
          if rc \<noteq> 0 then Some (H1, w)
          else
            let w1 = (if op_is_unipro_rx_buf op then w else free_buf w (op_request_buffer op));
                w2 = free_buf w1 (op_response_buffer op) in
            case op_response op of
              None \<Rightarrow> Some (hfree H1 a, w2)
            | Some r \<Rightarrow>
                (case heap_unref free_buf r H1 w2 of
                   None \<Rightarrow> None
                 | Some (H2, w3) \<Rightarrow> Some (hfree H2 a, w3)))"
  by pat_completeness auto
termination
  by (relation "measure (\<lambda>(f, a, H, w). length (filter counted H))")
     (auto simp: hget_def hput_def counted_def split: if_splits intro!: filter_update_less)

declare heap_unref.simps [simp del]

section \<open>The counting invariant\<close>

text \<open>
  \<open>Z\<close> holds the operations whose count has reached zero but which are not freed yet: their
  response pointer is no longer counted as a reference of the heap.
\<close>

definition resp_refs :: "nat set \<Rightarrow> heap \<Rightarrow> nat \<Rightarrow> nat" where
  "resp_refs Z H a =
     card {i. i < length H \<and> i \<notin> Z \<and> (\<exists>op. H ! i = Some op \<and> op_response op = Some a)}"

definition cell_ok :: "bool \<Rightarrow> int \<Rightarrow> gb_operation option \<Rightarrow> nat \<Rightarrow> bool" where
  "cell_ok zombie e x n \<longleftrightarrow>
     0 \<le> e \<and>
     (case x of
        None \<Rightarrow> e = 0 \<and> n = 0
      | Some op \<Rightarrow>
          if zombie then op_ref_count op = 0 \<and> e = 0 \<and> n = 0
          else 0 < op_ref_count op \<and> op_ref_count op = e + int n)"

definition heap_inv_except :: "nat set \<Rightarrow> (nat \<Rightarrow> int) \<Rightarrow> heap \<Rightarrow> bool" where
  "heap_inv_except Z ext H \<longleftrightarrow>
     (\<forall>a. cell_ok (a \<in> Z) (ext a) (hget H a) (resp_refs Z H a))"

definition heap_inv :: "(nat \<Rightarrow> int) \<Rightarrow> heap \<Rightarrow> bool" where
  "heap_inv = heap_inv_except {}"

lemma hget_hput [simp]: "a < length H \<Longrightarrow> hget (hput H a op) b = (if a = b then Some op else hget H b)"
  by (auto simp: hget_def hput_def nth_list_update)

lemma hget_hfree [simp]: "hget (hfree H a) b = (if a = b then None else hget H b)"
  by (auto simp: hget_def hfree_def nth_list_update)

lemma hget_append [simp]:
  "hget (H @ [Some op]) b = (if b = length H then Some op else hget H b)"
  by (auto simp: hget_def nth_append)

lemma hget_SomeD: "hget H a = Some op \<Longrightarrow> a < length H \<and> H ! a = Some op"
  by (auto simp: hget_def split: if_splits)

lemma length_hput [simp]: "length (hput H a op) = length H"
  by (simp add: hput_def)

lemma length_hfree [simp]: "length (hfree H a) = length H"
  by (simp add: hfree_def)

lemma resp_refs_alt: "resp_refs Z H a = card {i. i \<notin> Z \<and> (\<exists>op. hget H i = Some op \<and> op_response op = Some a)}"
  unfolding resp_refs_def by (rule arg_cong[where f = card]) (auto simp: hget_def split: if_splits)

lemma finite_resp: "finite {i. i \<notin> Z \<and> (\<exists>op. hget H i = Some op \<and> op_response op = Some a)}"
  by (rule finite_subset[of _ "{i. i < length H}"]) (auto dest: hget_SomeD)

lemma resp_refs_hput_same:
  assumes "hget H a = Some op" and "op_response op' = op_response op"
  shows "resp_refs Z (hput H a op') b = resp_refs Z H b"
  unfolding resp_refs_alt using assms hget_SomeD[OF assms(1)]
  by (intro arg_cong[where f = card]) auto

lemma resp_refs_rc:
  "hget H a = Some op \<Longrightarrow> resp_refs Z (hput H a (op\<lparr>op_ref_count := n\<rparr>)) b = resp_refs Z H b"
  by (rule resp_refs_hput_same) simp_all

text \<open>Moving a live operation to the zombies gives up its reference to its response.\<close>

lemma resp_refs_zombie:
  assumes "hget H a = Some op" and "a \<notin> Z"
  shows "resp_refs Z H b = resp_refs (insert a Z) H b + (if op_response op = Some b then 1 else 0)"
proof -
  let ?S = "\<lambda>Z. {i. i \<notin> Z \<and> (\<exists>op. hget H i = Some op \<and> op_response op = Some b)}"
  have "?S Z = (if op_response op = Some b then insert a (?S (insert a Z)) else ?S (insert a Z))"
    using assms by auto
  moreover have "finite (?S (insert a Z))" by (rule finite_resp)
  ultimately show ?thesis unfolding resp_refs_alt by simp
qed

lemma resp_refs_hfree_zombie: "a \<notin> Z \<Longrightarrow> resp_refs Z (hfree H a) b = resp_refs (insert a Z) H b"
  unfolding resp_refs_alt by (intro arg_cong[where f = card]) auto

lemma resp_refs_hfree_none:
  assumes "hget H a = Some op" and "op_response op = None"
  shows "resp_refs Z (hfree H a) b = resp_refs Z H b"
  unfolding resp_refs_alt using assms by (intro arg_cong[where f = card]) auto

lemma cell_ok_simps [simp]:
  "cell_ok z e None n \<longleftrightarrow> e = 0 \<and> n = 0"
  "cell_ok True e (Some op) n \<longleftrightarrow> op_ref_count op = 0 \<and> e = 0 \<and> n = 0"
  "cell_ok False e (Some op) n \<longleftrightarrow> 0 \<le> e \<and> 0 < op_ref_count op \<and> op_ref_count op = e + int n"
  by (auto simp: cell_ok_def)

lemma cell_ok_nonneg: "cell_ok z e x n \<Longrightarrow> 0 \<le> e"
  by (simp add: cell_ok_def)

lemma heap_inv_exceptI:
  "(\<And>a. cell_ok (a \<in> Z) (ext a) (hget H a) (resp_refs Z H a)) \<Longrightarrow> heap_inv_except Z ext H"
  by (simp add: heap_inv_except_def)

lemma heap_inv_exceptD:
  "heap_inv_except Z ext H \<Longrightarrow> cell_ok (a \<in> Z) (ext a) (hget H a) (resp_refs Z H a)"
  by (simp add: heap_inv_except_def)

lemma heap_inv_live:
  assumes "heap_inv_except Z ext H" and "1 \<le> ext a"
  obtains op where "hget H a = Some op" and "a \<notin> Z" and "0 < op_ref_count op"
    and "op_ref_count op = ext a + int (resp_refs Z H a)"
proof -
  note c = heap_inv_exceptD[OF assms(1), of a]
  then obtain op where op: "hget H a = Some op" using assms(2) by (cases "hget H a") auto
  moreover from c op assms(2) have "a \<notin> Z" by (cases "a \<in> Z") auto
  ultimately show ?thesis using c that by simp
qed

section \<open>Taking and dropping a reference\<close>

lemma heap_ref_inv:
  assumes inv: "heap_inv_except Z ext H" and a: "hget H a = Some op" "a \<notin> Z"
  shows "heap_ref a H = Some (hput H a (op\<lparr>op_ref_count := op_ref_count op + 1\<rparr>))"
    and "heap_inv_except Z (ext(a := ext a + 1)) (hput H a (op\<lparr>op_ref_count := op_ref_count op + 1\<rparr>))"
proof -
  show "heap_ref a H = Some (hput H a (op\<lparr>op_ref_count := op_ref_count op + 1\<rparr>))"
    using a by (simp add: heap_ref_def)
  let ?H = "hput H a (op\<lparr>op_ref_count := op_ref_count op + 1\<rparr>)"
  note refs = resp_refs_rc[OF a(1)]
  show "heap_inv_except Z (ext(a := ext a + 1)) ?H"
  proof (rule heap_inv_exceptI)
    fix b
    show "cell_ok (b \<in> Z) ((ext(a := ext a + 1)) b) (hget ?H b) (resp_refs Z ?H b)"
      using heap_inv_exceptD[OF inv, of b] a hget_SomeD[OF a(1)]
      by (cases "b = a") (auto simp: refs)
  qed
qed

lemma heap_inv_dec:
  assumes inv: "heap_inv_except Z ext H" and a: "hget H a = Some op" and e: "1 \<le> ext a"
    and rc: "op_ref_count op \<noteq> 1"
  shows "heap_inv_except Z (ext(a := ext a - 1)) (hput H a (op\<lparr>op_ref_count := op_ref_count op - 1\<rparr>))"
proof (rule heap_inv_exceptI)
  fix b
  let ?H = "hput H a (op\<lparr>op_ref_count := op_ref_count op - 1\<rparr>)"
  note refs = resp_refs_rc[OF a]
  have z: "a \<notin> Z" using heap_inv_exceptD[OF inv, of a] a e by (cases "a \<in> Z") auto
  show "cell_ok (b \<in> Z) ((ext(a := ext a - 1)) b) (hget ?H b) (resp_refs Z ?H b)"
    using heap_inv_exceptD[OF inv, of b] a hget_SomeD[OF a] e rc z
    by (cases "b = a") (auto simp: refs)
qed

text \<open>The last reference goes: the operation becomes a zombie and its own reference to its
  response is handed to whoever drops it next.\<close>

lemma heap_inv_last:
  assumes inv: "heap_inv_except Z ext H" and a: "hget H a = Some op" and e: "1 \<le> ext a"
    and rc: "op_ref_count op = 1" and r: "op_response op = Some r"
  shows "a \<notin> Z" and "r \<noteq> a"
    and "heap_inv_except (insert a Z) ((ext(a := ext a - 1))(r := ext r + 1))
      (hput H a (op\<lparr>op_ref_count := op_ref_count op - 1\<rparr>))"
proof -
  show z: "a \<notin> Z" using heap_inv_exceptD[OF inv, of a] a e by (cases "a \<in> Z") auto
  have one: "ext a = 1" "resp_refs Z H a = 0"
    using heap_inv_exceptD[OF inv, of a] a e rc z by auto
  have split: "resp_refs Z H b = resp_refs (insert a Z) H b + (if b = r then 1 else 0)" for b
    using resp_refs_zombie[OF a z, of b] r by auto
  show ra: "r \<noteq> a" using split[of a] one by auto
  let ?H = "hput H a (op\<lparr>op_ref_count := op_ref_count op - 1\<rparr>)"
  note refs = resp_refs_rc[OF a]
  show "heap_inv_except (insert a Z) ((ext(a := ext a - 1))(r := ext r + 1)) ?H"
  proof (rule heap_inv_exceptI)
    fix b
    show "cell_ok (b \<in> insert a Z) (((ext(a := ext a - 1))(r := ext r + 1)) b) (hget ?H b)
        (resp_refs (insert a Z) ?H b)"
    proof (cases "b = a")
      case True
      then show ?thesis using one ra rc hget_SomeD[OF a] split[of a] by (simp add: refs)
    next
      case False
      then show ?thesis
        using heap_inv_exceptD[OF inv, of b] split[of b] hget_SomeD[OF a]
        by (cases "hget H b"; cases "b \<in> Z"; cases "b = r") (auto simp: refs)
    qed
  qed
qed

lemma heap_inv_last_none:
  assumes inv: "heap_inv_except Z ext H" and a: "hget H a = Some op" and e: "1 \<le> ext a"
    and rc: "op_ref_count op = 1" and r: "op_response op = None"
  shows "heap_inv_except Z (ext(a := ext a - 1))
      (hfree (hput H a (op\<lparr>op_ref_count := op_ref_count op - 1\<rparr>)) a)"
proof (rule heap_inv_exceptI)
  fix b
  let ?op = "op\<lparr>op_ref_count := op_ref_count op - 1\<rparr>"
  have z: "a \<notin> Z" using heap_inv_exceptD[OF inv, of a] a e by (cases "a \<in> Z") auto
  have one: "ext a = 1" "resp_refs Z H a = 0"
    using heap_inv_exceptD[OF inv, of a] a e rc z by auto
  have "hget (hput H a ?op) a = Some ?op" using hget_SomeD[OF a] by simp
  from resp_refs_hfree_none[OF this, of Z] r resp_refs_rc[OF a, of Z]
  have refs: "resp_refs Z (hfree (hput H a ?op) a) c = resp_refs Z H c" for c by simp
  show "cell_ok (b \<in> Z) ((ext(a := ext a - 1)) b) (hget (hfree (hput H a ?op) a) b)
      (resp_refs Z (hfree (hput H a ?op) a) b)"
    using heap_inv_exceptD[OF inv, of b] one hget_SomeD[OF a] by (cases "b = a") (auto simp: refs)
qed

lemma heap_inv_bury:
  assumes inv: "heap_inv_except (insert a Z) ext H" and a: "a \<notin> Z" "hget H a \<noteq> None"
  shows "heap_inv_except Z ext (hfree H a)"
proof (rule heap_inv_exceptI)
  fix b
  from a(2) obtain op where "hget H a = Some op" by auto
  with heap_inv_exceptD[OF inv, of a] have "ext a = 0" "resp_refs (insert a Z) H a = 0" by auto
  then show "cell_ok (b \<in> Z) (ext b) (hget (hfree H a) b) (resp_refs Z (hfree H a) b)"
    using heap_inv_exceptD[OF inv, of b] by (cases "b = a") (auto simp: resp_refs_hfree_zombie[OF a(1)])
qed

text \<open>The frame of \<open>unref\<close>: cells other than freed ones keep everything but their count, and no
  operation outside the zombies appears from nowhere.\<close>

definition same_but_count :: "gb_operation \<Rightarrow> gb_operation \<Rightarrow> bool" where
  "same_but_count op op' \<longleftrightarrow> op' = op\<lparr>op_ref_count := op_ref_count op'\<rparr>"

lemma same_but_count_refl [simp]: "same_but_count op op"
  by (simp add: same_but_count_def)

lemma same_but_count_upd [simp]: "same_but_count op (op\<lparr>op_ref_count := n\<rparr>)"
  by (simp add: same_but_count_def)

lemma same_but_count_trans [trans]:
  "same_but_count a b \<Longrightarrow> same_but_count b c \<Longrightarrow> same_but_count a c"
  by (cases a; cases b; cases c) (auto simp: same_but_count_def)

definition heap_frame :: "heap \<Rightarrow> heap \<Rightarrow> bool" where
  "heap_frame H H' \<longleftrightarrow> length H' = length H \<and>
     (\<forall>b op'. hget H' b = Some op' \<longrightarrow> (\<exists>op. hget H b = Some op \<and> same_but_count op op'))"

lemma heap_frame_refl [simp]: "heap_frame H H"
  by (auto simp: heap_frame_def)

lemma heap_frame_trans: "heap_frame H H' \<Longrightarrow> heap_frame H' H'' \<Longrightarrow> heap_frame H H''"
  unfolding heap_frame_def using same_but_count_trans by metis

lemma heap_frame_rc:
  assumes "hget H a = Some op"
  shows "heap_frame H (hput H a (op\<lparr>op_ref_count := n\<rparr>))"
  using assms hget_SomeD[OF assms] by (auto simp: heap_frame_def split: if_splits)

lemma heap_frame_hfree: "heap_frame H (hfree H a)"
  by (auto simp: heap_frame_def)

lemma heap_unref_inv:
  assumes "heap_inv_except Z ext H" and "1 \<le> ext a"
  shows "\<exists>H' w'. heap_unref f a H w = Some (H', w') \<and> heap_inv_except Z (ext(a := ext a - 1)) H'
     \<and> heap_frame H H' \<and> (\<forall>z \<in> Z. hget H' z = hget H z)"
  using assms
proof (induction f a H w arbitrary: Z ext rule: heap_unref.induct)
  case (1 f a H w)
  from heap_inv_live[OF "1.prems"] obtain op where op: "hget H a = Some op" "a \<notin> Z" by metis
  let ?H1 = "hput H a (op\<lparr>op_ref_count := op_ref_count op - 1\<rparr>)"
  let ?w1 = "if op_is_unipro_rx_buf op then w else f w (op_request_buffer op)"
  have keep: "\<forall>z \<in> Z. hget ?H1 z = hget H z" using op hget_SomeD[OF op(1)] by auto
  show ?case
  proof (cases "op_ref_count op = 1")
    case False
    then show ?thesis
      using op keep heap_inv_dec[OF "1.prems"(1) op(1) "1.prems"(2)] heap_frame_rc[OF op(1)]
      by (subst heap_unref.simps) (simp add: Let_def)
  next
    case rc: True
    show ?thesis
    proof (cases "op_response op")
      case None
      then show ?thesis
        using op rc keep heap_inv_last_none[OF "1.prems"(1) op(1) "1.prems"(2) rc]
          heap_frame_trans[OF heap_frame_rc[OF op(1)] heap_frame_hfree]
        by (subst heap_unref.simps) (auto simp add: Let_def)
    next
      case (Some r)
      note last = heap_inv_last[OF "1.prems"(1) op(1) "1.prems"(2) rc Some]
      define ext1 where "ext1 = (ext(a := ext a - 1))(r := ext r + 1)"
      note inv1 = last(3)[folded ext1_def]
      have "1 \<le> ext1 r"
        using cell_ok_nonneg[OF heap_inv_exceptD[OF "1.prems"(1), of r]] by (simp add: ext1_def)
      moreover have "\<not> op_ref_count op - 1 \<noteq> 0" using rc by simp
      ultimately obtain H2 w3 where H2: "heap_unref f r ?H1 (f ?w1 (op_response_buffer op)) = Some (H2, w3)"
        and inv2: "heap_inv_except (insert a Z) (ext1(r := ext1 r - 1)) H2"
        and fr: "heap_frame ?H1 H2" and z: "\<forall>z \<in> insert a Z. hget H2 z = hget ?H1 z"
        using "1.IH"[OF op(1) refl refl _ refl refl Some inv1] by metis
      have ext: "ext1(r := ext1 r - 1) = ext(a := ext a - 1)"
        using last(2) by (auto simp: ext1_def)
      have "hget H2 a \<noteq> None" using z hget_SomeD[OF op(1)] by auto
      from heap_inv_bury[OF inv2 last(1) this] have "heap_inv_except Z (ext(a := ext a - 1)) (hfree H2 a)"
        unfolding ext .
      moreover have "heap_frame H (hfree H2 a)"
        using heap_frame_trans[OF heap_frame_rc[OF op(1)] heap_frame_trans[OF fr heap_frame_hfree]] .
      moreover have "heap_unref f a H w = Some (hfree H2 a, w3)"
        using op rc Some H2 by (subst heap_unref.simps) (simp add: Let_def)
      moreover have "\<forall>z \<in> Z. hget (hfree H2 a) z = hget H z" using z keep op(2) by auto
      ultimately show ?thesis by blast
    qed
  qed
qed

end
