(* ===== verification/Gb_Manifest.thy ===== *)
theory Gb_Manifest
  imports Gb_Operation
begin

text \<open>
  The interface manifest, \<^verbatim>\<open>subsys/greybus/greybus-manifest.c\<close>: the module's state
  \<^verbatim>\<open>g_greybus\<close> (the list of cports and the largest ids seen), the validation of one descriptor,
  the parse, release and patch loops and the queries that the core makes. A manifest is the
  list of octets of its buffer; a descriptor is addressed by its offset. Fields of packed
  structures are read at the offsets of \<^verbatim>\<open>greybus-manifest.h\<close>. \<open>malloc\<close> is a parameter.
\<close>

unbundle bit_operations_syntax

section \<open>State\<close>

record gb_cport =
  cpt_id :: int
  cpt_bundle :: int
  cpt_protocol :: int

record greybus =
  mf_cports :: "gb_cport list"
  max_bundle_id :: nat
  max_property_id :: nat
  max_device_id :: nat
  max_string_id :: nat
  max_patch_property_id :: nat
  max_patch_device_id :: nat
  max_patch_string_id :: nat

definition g_greybus :: greybus where
  "g_greybus = \<lparr>mf_cports = [], max_bundle_id = 0, max_property_id = 0, max_device_id = 0,
     max_string_id = 0, max_patch_property_id = 0, max_patch_device_id = 0,
     max_patch_string_id = 0\<rparr>"

abbreviation (input) GREYBUS_VERSION_MAJOR :: u8 where "GREYBUS_VERSION_MAJOR \<equiv> 0x00"

datatype greybus_descriptor_type =
  GREYBUS_TYPE_INVALID | GREYBUS_TYPE_INTERFACE | GREYBUS_TYPE_STRING | GREYBUS_TYPE_BUNDLE
  | GREYBUS_TYPE_CPORT | GREYBUS_TYPE_MIKROBUS | GREYBUS_TYPE_PROPERTY | GREYBUS_TYPE_DEVICE

definition descriptor_type :: "u8 \<Rightarrow> greybus_descriptor_type" where
  "descriptor_type t =
     (if t = 1 then GREYBUS_TYPE_INTERFACE else if t = 2 then GREYBUS_TYPE_STRING
      else if t = 3 then GREYBUS_TYPE_BUNDLE else if t = 4 then GREYBUS_TYPE_CPORT
      else if t = 5 then GREYBUS_TYPE_MIKROBUS else if t = 6 then GREYBUS_TYPE_PROPERTY
      else if t = 7 then GREYBUS_TYPE_DEVICE else GREYBUS_TYPE_INVALID)"

text \<open>The \<^verbatim>\<open>ALIGN\<close> macro pads to a multiple of four.\<close>

definition ALIGN :: "nat \<Rightarrow> nat" where
  "ALIGN x = (if x mod 4 \<noteq> 0 then x - x mod 4 + 4 else x)"

definition alloc_cport :: "'w alloc_fn \<Rightarrow> 'w \<Rightarrow> bool \<times> 'w" where
  "alloc_cport malloc w = malloc w 20"

definition free_cport :: "int \<Rightarrow> greybus \<Rightarrow> greybus" where
  "free_cport cportid g = g\<lparr>mf_cports := filter (\<lambda>c. cpt_id c \<noteq> cportid) (mf_cports g)\<rparr>"

section \<open>One descriptor\<close>

text \<open>
  The switch over the descriptor type. \<open>Inl e\<close> is an early \<open>return e\<close>, \<open>Inr n\<close> the
  expected size. The largest ids are updated, and the length and id octets read, before the
  size of the descriptor is compared with what its type needs, as in the code.
\<close>

definition identify_switch ::
  "bool \<Rightarrow> 'w alloc_fn \<Rightarrow> bytes \<Rightarrow> nat \<Rightarrow> nat \<Rightarrow> bool \<Rightarrow> greybus_descriptor_type \<Rightarrow> greybus \<Rightarrow> 'w
     \<Rightarrow> ((int + nat) \<times> greybus \<times> 'w) option" where
  "identify_switch mikrobus malloc b off desc_size release t g w =
     (case t of
        GREYBUS_TYPE_STRING \<Rightarrow> do {
          len \<leftarrow> rd8 b (off + 4);
          ident \<leftarrow> rd8 b (off + 5);
          Some (Inr (ALIGN (4 + 2 + unat len)),
                g\<lparr>max_string_id := max (max_string_id g) (unat ident)\<rparr>, w) }
      | GREYBUS_TYPE_INTERFACE \<Rightarrow> Some (Inr (4 + 4), g, w)
      | GREYBUS_TYPE_BUNDLE \<Rightarrow> do {
          ident \<leftarrow> rd8 b (off + 4);
          Some (Inr (4 + 4), g\<lparr>max_bundle_id := max (max_bundle_id g) (unat ident)\<rparr>, w) }
      | GREYBUS_TYPE_CPORT \<Rightarrow>
          (if 4 + 4 \<le> desc_size then
             (if \<not> release then
                (let (ok, w') = alloc_cport malloc w in
                 if \<not> ok then Some (Inl (- ENOMEM), g, w')
                 else do {
                   ident \<leftarrow> rd16 b (off + 4);
                   bundle \<leftarrow> rd8 b (off + 6);
                   protocol \<leftarrow> rd8 b (off + 7);
                   Some (Inr (4 + 4),
                     g\<lparr>mf_cports := mf_cports g @
                        [\<lparr>cpt_id = uint ident, cpt_bundle = uint bundle,
                          cpt_protocol = uint protocol\<rparr>]\<rparr>, w') })
              else do {
                ident \<leftarrow> rd16 b (off + 4);
                Some (Inr (4 + 4), free_cport (uint ident) g, w) })
           else Some (Inr (4 + 4), g, w))
      | GREYBUS_TYPE_PROPERTY \<Rightarrow> do {
          len \<leftarrow> rd8 b (off + 4);
          ident \<leftarrow> rd8 b (off + 5);
          Some (Inr (ALIGN (4 + 4 + unat len)),
                g\<lparr>max_property_id := max (max_property_id g) (unat ident)\<rparr>, w) }
      | GREYBUS_TYPE_DEVICE \<Rightarrow> do {
          ident \<leftarrow> rd8 b (off + 4);
          Some (Inr (4 + 16), g\<lparr>max_device_id := max (max_device_id g) (unat ident)\<rparr>, w) }
      | GREYBUS_TYPE_MIKROBUS \<Rightarrow>
          (if mikrobus then Some (Inr (4 + 12), g, w) else Some (Inl (- EINVAL), g, w))
      | GREYBUS_TYPE_INVALID \<Rightarrow> Some (Inl (- EINVAL), g, w))"

text \<open>What follows the switch: the size check and the value returned.\<close>

definition descriptor_result :: "int + nat \<Rightarrow> nat \<Rightarrow> int" where
  "descriptor_result r desc_size =
     (case r of
        Inl e \<Rightarrow> e
      | Inr expected_size \<Rightarrow> if desc_size < expected_size then - EINVAL else int desc_size)"

definition identify_descriptor ::
  "bool \<Rightarrow> 'w alloc_fn \<Rightarrow> bytes \<Rightarrow> nat \<Rightarrow> nat \<Rightarrow> bool \<Rightarrow> greybus \<Rightarrow> 'w
     \<Rightarrow> (int \<times> greybus \<times> 'w) option" where
  "identify_descriptor mikrobus malloc b off sz release g w =
     (if sz < 4 then Some (- EINVAL, g, w)
      else do {
        desc_size \<leftarrow> rd16 b off;
        if sz < unat desc_size then Some (- EINVAL, g, w)
        else do {
          t \<leftarrow> rd8 b (off + 2);
          (r, g', w') \<leftarrow>
             identify_switch mikrobus malloc b off (unat desc_size) release (descriptor_type t) g w;
          Some (descriptor_result r (unat desc_size), g', w') } })"

section \<open>Parsing and releasing\<close>

text \<open>
  The \<^verbatim>\<open>while (size)\<close> loop. The size of a descriptor that was accepted is positive and at
  most what remains (lemma \<open>identify_descriptor_bound\<close>), so \<^verbatim>\<open>size -= desc_size\<close> cannot
  wrap and the subtraction on \<open>nat\<close> is exact.
\<close>

function parse_loop ::
  "bool \<Rightarrow> 'w alloc_fn \<Rightarrow> bytes \<Rightarrow> nat \<Rightarrow> nat \<Rightarrow> bool \<Rightarrow> greybus \<Rightarrow> 'w
     \<Rightarrow> (bool \<times> greybus \<times> 'w) option" where
  "parse_loop mikrobus malloc b off sz release g w =
     (if sz = 0 then Some (True, g, w)
      else case identify_descriptor mikrobus malloc b off sz release g w of
             None \<Rightarrow> None
           | Some (r, g', w') \<Rightarrow>
               if r \<le> 0 then Some (False, g', w')
               else parse_loop mikrobus malloc b (off + nat r) (sz - nat r) release g' w')"
  by pat_completeness auto
termination
  by (relation "measure (\<lambda>(mk, m, b, off, sz, rl, g, w). sz)") auto

declare parse_loop.simps [simp del]

definition manifest_parse_gen ::
  "bool \<Rightarrow> 'w alloc_fn \<Rightarrow> bytes \<Rightarrow> nat \<Rightarrow> bool \<Rightarrow> greybus \<Rightarrow> 'w \<Rightarrow> (bool \<times> greybus \<times> 'w) option" where
  "manifest_parse_gen mikrobus malloc b sz release g w =
     (if release then parse_loop mikrobus malloc b 4 (size_sub sz 4) release g w
      else if sz \<le> 4 then Some (False, g, w)
      else do {
        manifest_size \<leftarrow> rd16 b 0;
        if unat manifest_size \<noteq> sz then Some (False, g, w)
        else do {
          major \<leftarrow> rd8 b 2;
          if major > GREYBUS_VERSION_MAJOR then Some (False, g, w)
          else parse_loop mikrobus malloc b 4 (size_sub sz 4) release g w } })"

definition manifest_parse ::
  "bool \<Rightarrow> 'w alloc_fn \<Rightarrow> bytes \<Rightarrow> nat \<Rightarrow> greybus \<Rightarrow> 'w \<Rightarrow> (bool \<times> greybus \<times> 'w) option" where
  "manifest_parse mikrobus malloc b sz g w = manifest_parse_gen mikrobus malloc b sz False g w"

definition manifest_release ::
  "bool \<Rightarrow> 'w alloc_fn \<Rightarrow> bytes \<Rightarrow> nat \<Rightarrow> greybus \<Rightarrow> 'w \<Rightarrow> (bool \<times> greybus \<times> 'w) option" where
  "manifest_release mikrobus malloc b sz g w = manifest_parse_gen mikrobus malloc b sz True g w"

definition parse_manifest_blob ::
  "bool \<Rightarrow> 'w alloc_fn \<Rightarrow> bytes \<Rightarrow> greybus \<Rightarrow> 'w \<Rightarrow> (greybus \<times> 'w) option" where
  "parse_manifest_blob mikrobus malloc b g w = do {
     sz \<leftarrow> rd16 b 0;
     (_, g', w') \<leftarrow> manifest_parse mikrobus malloc b (unat sz) g w;
     Some (g', w') }"

definition release_manifest_blob ::
  "bool \<Rightarrow> 'w alloc_fn \<Rightarrow> bytes \<Rightarrow> greybus \<Rightarrow> 'w \<Rightarrow> (greybus \<times> 'w) option" where
  "release_manifest_blob mikrobus malloc b g w = do {
     sz \<leftarrow> rd16 b 0;
     (_, g', w') \<leftarrow> manifest_release mikrobus malloc b (unat sz) g w;
     Some (g', w') }"

section \<open>Queries\<close>

definition get_manifest_size :: "bytes option \<Rightarrow> nat option" where
  "get_manifest_size blob =
     (case blob of None \<Rightarrow> Some 0 | Some b \<Rightarrow> do { sz \<leftarrow> rd16 b 0; Some (unat sz) })"

definition manifest_get_num_cports :: "greybus \<Rightarrow> nat" where
  "manifest_get_num_cports g = length (mf_cports g)"

definition manifest_get_num_cports_bundle :: "greybus \<Rightarrow> int \<Rightarrow> nat" where
  "manifest_get_num_cports_bundle g bundle_id =
     length (filter (\<lambda>c. cpt_bundle c = bundle_id) (mf_cports g))"

fun start_cport_loop :: "int \<Rightarrow> gb_cport list \<Rightarrow> u32 \<Rightarrow> u32" where
  "start_cport_loop bundle_id [] cport_id = cport_id"
| "start_cport_loop bundle_id (c # cs) cport_id =
     start_cport_loop bundle_id cs
       (if cpt_bundle c = bundle_id \<and> (word_of_int (cpt_id c) :: u32) < cport_id
        then word_of_int (cpt_id c) else cport_id)"

definition manifest_get_start_cport_bundle :: "greybus \<Rightarrow> int \<Rightarrow> u32" where
  "manifest_get_start_cport_bundle g bundle_id =
     start_cport_loop bundle_id (mf_cports g) 0xffffffff"

definition manifest_get_max_bundle_id :: "greybus \<Rightarrow> nat" where
  "manifest_get_max_bundle_id g = max_bundle_id g"

section \<open>Patching a manifest with a fragment\<close>

text \<open>
  \<^verbatim>\<open>identify_patch_descriptor\<close> renumbers the ids of the fragment's descriptors in place (8-bit
  additions), so it returns the changed fragment. \<open>Inl e\<close> is an early return, \<open>Inr (n, skip)\<close>
  the expected size and the \<^verbatim>\<open>skip\<close> flag.
\<close>

definition add8 :: "u8 \<Rightarrow> nat \<Rightarrow> u8" where
  "add8 v n = v + word_of_nat n"

definition identify_patch_switch ::
  "bool \<Rightarrow> bytes \<Rightarrow> nat \<Rightarrow> greybus_descriptor_type \<Rightarrow> greybus
     \<Rightarrow> ((int + nat \<times> bool) \<times> bytes \<times> greybus) option" where
  "identify_patch_switch mikrobus b off t g =
     (case t of
        GREYBUS_TYPE_STRING \<Rightarrow> do {
          len \<leftarrow> rd8 b (off + 4);
          ident \<leftarrow> rd8 b (off + 5);
          let ident' = add8 ident (max_string_id g);
          b' \<leftarrow> wr8 b (off + 5) ident';
          Some (Inr (ALIGN (4 + 2 + unat len), False), b',
                g\<lparr>max_patch_string_id := max (max_patch_string_id g) (unat ident')\<rparr>) }
      | GREYBUS_TYPE_INTERFACE \<Rightarrow> Some (Inr (4 + 4, True), b, g)
      | GREYBUS_TYPE_BUNDLE \<Rightarrow> Some (Inr (4 + 4, True), b, g)
      | GREYBUS_TYPE_CPORT \<Rightarrow> Some (Inr (4 + 4, True), b, g)
      | GREYBUS_TYPE_PROPERTY \<Rightarrow> do {
          len \<leftarrow> rd8 b (off + 4);
          ident \<leftarrow> rd8 b (off + 5);
          let ident' = add8 ident (max_property_id g);
          b' \<leftarrow> wr8 b (off + 5) ident';
          propname \<leftarrow> rd8 b' (off + 6);
          b'' \<leftarrow> wr8 b' (off + 6) (add8 propname (max_string_id g));
          Some (Inr (ALIGN (4 + 4 + unat len), False), b'',
                g\<lparr>max_patch_property_id := max (max_patch_property_id g) (unat ident')\<rparr>) }
      | GREYBUS_TYPE_DEVICE \<Rightarrow> do {
          ident \<leftarrow> rd8 b (off + 4);
          let ident' = add8 ident (max_device_id g);
          b' \<leftarrow> wr8 b (off + 4) ident';
          driver \<leftarrow> rd8 b' (off + 5);
          b'' \<leftarrow> wr8 b' (off + 5) (add8 driver (max_string_id g));
          Some (Inr (4 + 16, False), b'',
                g\<lparr>max_patch_device_id := max (max_patch_device_id g) (unat ident')\<rparr>) }
      | GREYBUS_TYPE_MIKROBUS \<Rightarrow>
          (if mikrobus then Some (Inr (4 + 12, False), b, g) else Some (Inl (- EINVAL), b, g))
      | GREYBUS_TYPE_INVALID \<Rightarrow> Some (Inl (- EINVAL), b, g))"

definition patch_descriptor_result :: "int + nat \<times> bool \<Rightarrow> nat \<Rightarrow> int" where
  "patch_descriptor_result r desc_size =
     (case r of
        Inl e \<Rightarrow> e
      | Inr (expected_size, skip) \<Rightarrow>
          if desc_size < expected_size then - EINVAL
          else if skip then - int desc_size else int desc_size)"

definition identify_patch_descriptor ::
  "bool \<Rightarrow> bytes \<Rightarrow> nat \<Rightarrow> nat \<Rightarrow> greybus \<Rightarrow> (int \<times> bytes \<times> greybus) option" where
  "identify_patch_descriptor mikrobus b off sz g =
     (if sz < 4 then Some (- EINVAL, b, g)
      else do {
        desc_size \<leftarrow> rd16 b off;
        if sz < unat desc_size then Some (- EINVAL, b, g)
        else do {
          t \<leftarrow> rd8 b (off + 2);
          (r, b', g') \<leftarrow> identify_patch_switch mikrobus b off (descriptor_type t) g;
          Some (patch_descriptor_result r (unat desc_size), b', g') } })"

text \<open>
  \<^verbatim>\<open>realloc\<close> keeps the old octets up to the smaller size; octets that C leaves unspecified
  are zero here. A failing \<^verbatim>\<open>realloc\<close> is not checked by the code, which then writes through a
  null pointer.
\<close>

definition realloc_bytes :: "bytes \<Rightarrow> nat \<Rightarrow> bytes" where
  "realloc_bytes m n = take n m @ replicate (n - length m) 0"

definition patch_append ::
  "'w alloc_fn \<Rightarrow> bytes \<Rightarrow> u16 \<Rightarrow> bytes \<Rightarrow> nat \<Rightarrow> nat \<Rightarrow> 'w \<Rightarrow> (bytes \<times> u16 \<times> 'w) option" where
  "patch_append realloc m manifest_size b off desc_size w = do {
     let n = unat manifest_size + desc_size;
     (ok, w') \<leftarrow> Some (realloc w n);
     m' \<leftarrow> (if ok then Some (realloc_bytes m n) else None);
     desc \<leftarrow> rd_slice b off desc_size;
     m' \<leftarrow> wr_slice m' (unat manifest_size) desc;
     hsz \<leftarrow> rd16 m' 0;
     m' \<leftarrow> wr16 m' 0 (hsz + word_of_nat desc_size);
     Some (m', manifest_size + word_of_nat desc_size, w') }"

lemma identify_patch_switch_length:
  "identify_patch_switch mk b off t g = Some (r, b', g') \<Longrightarrow> length b' = length b"
  by (auto simp: identify_patch_switch_def Let_def wr8_def bind_eq_Some_conv
      split: greybus_descriptor_type.splits if_splits)

lemma identify_patch_switch_Inl:
  "identify_patch_switch mk b off t g = Some (Inl e, b', g') \<Longrightarrow> e = - EINVAL"
  by (auto simp: identify_patch_switch_def Let_def bind_eq_Some_conv
      split: greybus_descriptor_type.splits if_splits)

lemma identify_patch_switch_pos:
  "identify_patch_switch mk b off t g = Some (Inr (n, sk), b', g') \<Longrightarrow> 4 < n"
  by (auto simp: identify_patch_switch_def Let_def bind_eq_Some_conv ALIGN_def
      split: greybus_descriptor_type.splits if_splits)

text \<open>What the loop needs to make progress: the result is never zero, a result below the
  header size means the remaining count was too small, and otherwise the offset is inside.\<close>

lemma identify_patch_progress:
  assumes id: "identify_patch_descriptor mk b off sz g = Some (r, b', g')"
  shows "length b' = length b" and "r \<noteq> 0" and "4 \<le> sz \<Longrightarrow> off < length b"
    and "sz < 4 \<Longrightarrow> r = - EINVAL"
proof -
  consider (small) "r = - EINVAL" "b' = b" "4 \<le> sz \<longrightarrow> off + 2 \<le> length b"
    | (sw) ds t x where "rd16 b off = Some ds" "4 \<le> sz" "r = patch_descriptor_result x (unat ds)"
        "identify_patch_switch mk b off (descriptor_type t) g = Some (x, b', g')"
    using id
    by (auto simp: identify_patch_descriptor_def bind_eq_Some_conv split: if_splits dest: rd16_SomeD)
  then have "length b' = length b \<and> r \<noteq> 0 \<and> (4 \<le> sz \<longrightarrow> off < length b) \<and> (sz < 4 \<longrightarrow> r = - EINVAL)"
  proof cases
    case small
    then show ?thesis by (auto dest: rd16_SomeD)
  next
    case (sw ds t x)
    have "r \<noteq> 0"
    proof (cases x)
      case (Inl e)
      with sw(3,4) show ?thesis
        by (auto simp: patch_descriptor_result_def dest: identify_patch_switch_Inl)
    next
      case (Inr y)
      then obtain n sk where "x = Inr (n, sk)" by (cases y) auto
      with sw(3,4) show ?thesis
        by (auto simp: patch_descriptor_result_def simp del: of_nat_unat
            dest!: identify_patch_switch_pos)
    qed
    with sw(1,2,4) show ?thesis
      by (auto dest: rd16_SomeD identify_patch_switch_length)
  qed
  then show "length b' = length b" "r \<noteq> 0" "4 \<le> sz \<Longrightarrow> off < length b" "sz < 4 \<Longrightarrow> r = - EINVAL"
    by auto
qed

text \<open>
  The \<^verbatim>\<open>while (size)\<close> loop of \<^verbatim>\<open>manifest_patch\<close>. A result of zero or below, an error as much
  as a skipped descriptor, is negated and skipped over; \<^verbatim>\<open>size -= desc_size\<close> is \<^verbatim>\<open>size_t\<close>
  arithmetic and may wrap, which \<open>size_sub\<close> writes out.
\<close>

function patch_loop ::
  "bool \<Rightarrow> 'w alloc_fn \<Rightarrow> bytes \<Rightarrow> u16 \<Rightarrow> bytes \<Rightarrow> nat \<Rightarrow> nat \<Rightarrow> greybus \<Rightarrow> 'w
     \<Rightarrow> (bytes \<times> bytes \<times> greybus \<times> 'w) option" where
  "patch_loop mikrobus realloc m manifest_size b off sz g w =
     (if sz = 0 then Some (m, b, g, w)
      else case identify_patch_descriptor mikrobus b off sz g of
             None \<Rightarrow> None
           | Some (r, b', g') \<Rightarrow>
               if r \<le> 0 then
                 patch_loop mikrobus realloc m manifest_size b' (off + nat (- r))
                   (size_sub sz (nat (- r))) g' w
               else
                 case patch_append realloc m manifest_size b' off (nat r) w of
                   None \<Rightarrow> None
                 | Some (m', manifest_size', w') \<Rightarrow>
                     patch_loop mikrobus realloc m' manifest_size' b' (off + nat r)
                       (size_sub sz (nat r)) g' w')"
  by pat_completeness auto
termination
proof (relation "measure (\<lambda>(mk, re, m, ms, b, off, sz, g, w).
          2 * (length b - off) + (if sz < 4 then 1 else 0))", goal_cases)
  case 1
  show ?case by simp
next
  case (2 mk re m ms b off sz g w x r y b' g')
  note p = identify_patch_progress[of mk b off sz g r b' g']
  show ?case
  proof (cases "sz < 4")
    case True
    with 2 p(1,4) show ?thesis by (auto simp: size_sub_def)
  next
    case False
    with 2 p(1,2,3) show ?thesis by (auto simp: zero_less_mult_iff intro!: diff_less_mono2)
  qed
next
  case (3 mk re m ms b off sz g w x r y b' g')
  note p = identify_patch_progress[of mk b off sz g r b' g']
  with 3 show ?case by auto
qed

declare patch_loop.simps [simp del]

definition manifest_patch ::
  "bool \<Rightarrow> 'w alloc_fn \<Rightarrow> bytes \<Rightarrow> bytes \<Rightarrow> nat \<Rightarrow> greybus \<Rightarrow> 'w
     \<Rightarrow> (bool \<times> bytes \<times> greybus \<times> 'w) option" where
  "manifest_patch mikrobus realloc mnfb data sz g w = do {
     manifest_size \<leftarrow> rd16 mnfb 0;
     if sz \<le> 4 then Some (False, mnfb, g, w)
     else do {
       fragment_size \<leftarrow> rd16 data 0;
       if unat fragment_size \<noteq> sz then Some (False, mnfb, g, w)
       else do {
         major \<leftarrow> rd8 data 2;
         if major > GREYBUS_VERSION_MAJOR then Some (False, mnfb, g, w)
         else do {
           let g = g\<lparr>max_patch_property_id := 0, max_patch_device_id := 0,
                     max_patch_string_id := 0\<rparr>;
           (m, data', g, w) \<leftarrow>
             patch_loop mikrobus realloc mnfb manifest_size data 4 (size_sub sz 4) g w;
           Some (True, m,
             g\<lparr>max_property_id := max_property_id g + max_patch_property_id g,
               max_device_id := max_device_id g + max_patch_device_id g,
               max_string_id := max_string_id g + max_patch_string_id g\<rparr>, w) } } } }"

section \<open>Registering the drivers of the cports\<close>

text \<open>
  \<^verbatim>\<open>enable_cports\<close> walks the cport list in order. Which protocols are compiled in is a
  configuration choice, the parameter \<open>enabled\<close>; \<open>register p\<close> stands for the
  \<^verbatim>\<open>gb_\<dots>_register\<close> function of protocol \<open>p\<close>.
\<close>

definition registrable_protocols :: "int list" where
  "registrable_protocols =
     [0x00, 0x02, 0x03, 0x08, 0x11, 0x10, 0x06, 0x09, 0x0b, 0x04, 0x05, 0x0f, 0x07, 0x0d,
      0x12, 0x13]"

definition enable_cport ::
  "(int \<Rightarrow> bool) \<Rightarrow> (int \<Rightarrow> int \<Rightarrow> int \<Rightarrow> 's \<Rightarrow> 's) \<Rightarrow> gb_cport \<Rightarrow> 's \<Rightarrow> 's" where
  "enable_cport enabled register c s =
     fold (\<lambda>p s. if enabled p \<and> cpt_protocol c = p then register p (cpt_id c) (cpt_bundle c) s else s)
       registrable_protocols s"

definition enable_cports ::
  "(int \<Rightarrow> bool) \<Rightarrow> (int \<Rightarrow> int \<Rightarrow> int \<Rightarrow> 's \<Rightarrow> 's) \<Rightarrow> greybus \<Rightarrow> 's \<Rightarrow> 's" where
  "enable_cports enabled register g s = fold (enable_cport enabled register) (mf_cports g) s"

section \<open>Bounds of the parse\<close>

lemma identify_switch_ok:
  assumes "off + sz + 2 \<le> length b" and "4 \<le> sz" and "ds \<le> sz"
  shows "\<exists>r g' w'. identify_switch mk malloc b off ds release t g w = Some (r, g', w')"
  using assms
  by (cases t) (auto simp: identify_switch_def rd8_Some rd16_Some split: prod.splits)

lemma identify_switch_pos:
  "identify_switch mk malloc b off ds release t g w = Some (Inr n, g', w') \<Longrightarrow> 4 < n"
  by (auto simp: identify_switch_def bind_eq_Some_conv ALIGN_def
      split: greybus_descriptor_type.splits if_splits prod.splits)

lemma identify_switch_Inl:
  "identify_switch mk malloc b off ds release t g w = Some (Inl e, g', w') \<Longrightarrow>
     e = - EINVAL \<or> e = - ENOMEM"
  by (auto simp: identify_switch_def bind_eq_Some_conv
      split: greybus_descriptor_type.splits if_splits prod.splits)

lemma identify_descriptor_bound:
  assumes "identify_descriptor mk malloc b off sz release g w = Some (r, g', w')" and "0 < r"
  shows "4 < nat r \<and> nat r \<le> sz"
proof -
  from assms obtain dsz :: u16 and t x where "\<not> sz < unat dsz"
      and sw: "identify_switch mk malloc b off (unat dsz) release (descriptor_type t) g w
         = Some (x, g', w')" and "r = descriptor_result x (unat dsz)"
    by (auto simp: identify_descriptor_def bind_eq_Some_conv split: if_splits)
  with assms(2) show ?thesis
    by (cases x) (auto simp: descriptor_result_def simp del: of_nat_unat split: if_splits
        dest: identify_switch_pos identify_switch_Inl)
qed

lemma identify_descriptor_no_fault:
  assumes "off + sz + 2 \<le> length b"
  shows "identify_descriptor mk malloc b off sz release g w \<noteq> None"
proof (cases "4 \<le> sz")
  case False
  then show ?thesis by (simp add: identify_descriptor_def)
next
  case True
  then obtain ds t where rd: "rd16 b off = Some ds" "rd8 b (off + 2) = Some t"
    using assms by (simp add: rd16_Some rd8_Some)
  show ?thesis
  proof (cases "sz < unat ds")
    case True
    with rd(1) show ?thesis by (simp add: identify_descriptor_def)
  next
    case False
    with identify_switch_ok[OF assms \<open>4 \<le> sz\<close>, of "unat ds" mk malloc release "descriptor_type t" g w]
      rd \<open>4 \<le> sz\<close>
    show ?thesis by (auto simp: identify_descriptor_def)
  qed
qed

lemma parse_loop_no_fault:
  "off + sz + 2 \<le> length b \<Longrightarrow> parse_loop mk malloc b off sz release g w \<noteq> None"
proof (induction mk malloc b off sz release g w rule: parse_loop.induct)
  case (1 mk malloc b off sz release g w)
  show ?case
  proof (cases "sz = 0")
    case True
    then show ?thesis by (subst parse_loop.simps) simp
  next
    case False
    from identify_descriptor_no_fault[OF "1.prems"]
    obtain r g' w' where id: "identify_descriptor mk malloc b off sz release g w = Some (r, g', w')"
      by fast
    show ?thesis
    proof (cases "r \<le> 0")
      case True
      then show ?thesis using False id by (subst parse_loop.simps) simp
    next
      case pos: False
      with identify_descriptor_bound[OF id] have "off + nat r + (sz - nat r) + 2 \<le> length b"
        using "1.prems" by simp
      from "1.IH"[OF False id _ refl pos this] False id pos show ?thesis
        by (subst parse_loop.simps) simp
    qed
  qed
qed

section \<open>Abstract manifests\<close>


definition pad4 :: "bytes \<Rightarrow> bytes" where
  "pad4 xs = xs @ replicate (ALIGN (length xs) - length xs) 0"







lemma ALIGN_ge: "x \<le> ALIGN x" and ALIGN_le: "ALIGN x \<le> x + 3"
  by (auto simp: ALIGN_def)




lemma length_pad4 [simp]: "length (pad4 xs) = ALIGN (length xs)"
  using ALIGN_ge[of "length xs"] by (simp add: pad4_def)


lemma rd_at_end [simp]:
  "rd8 (pre @ ys) (length pre + k) = rd8 ys k" "rd16 (pre @ ys) (length pre + k) = rd16 ys k"
  "rd16 (pre @ ys) (length pre) = rd16 ys 0" "rd8 (pre @ ys) (Suc (Suc (length pre))) = rd8 ys 2"
  by (simp_all add: rd8_append_right rd16_append_right)











text \<open>
  C15. Parsing a manifest of any contents reads at most two octets behind the buffer: it never faults
  on a buffer that is two octets longer than the size it is given.
\<close>

theorem manifest_parse_stays_near:
  assumes "sz + 2 \<le> length b"
  shows "manifest_parse mk malloc b sz g w \<noteq> None"
proof (cases "sz \<le> 4")
  case True
  then show ?thesis by (simp add: manifest_parse_def manifest_parse_gen_def)
next
  case False
  then have "parse_loop mk malloc b 4 (size_sub sz 4) False g w \<noteq> None"
    using parse_loop_no_fault[of 4 "sz - 4" b] assms by simp
  moreover have "4 < length b" using False assms by simp
  moreover from this have "rd16 b 0 = Some (le16 (b ! 0) (b ! 1))" "rd8 b 2 = Some (b ! 2)"
    by (auto simp: rd16_def rd8_def)
  ultimately show ?thesis using False by (auto simp: manifest_parse_def manifest_parse_gen_def)
qed

theorem manifest_parse_stays_near_witness:
  "manifest_parse True (\<lambda>w n. (True, w)) [8, 0, 0, 1, 4, 0, 2, 0, 77, 88] 8 g_greybus () \<noteq> None"
  by (rule manifest_parse_stays_near) simp

section \<open>Where the code leaves the buffer\<close>

text \<open>
  A string descriptor that consists of its header only and is the last of the manifest has its
  length octet read although the buffer has ended.
\<close>

theorem manifest_parse_overread:
  "manifest_parse mk malloc [8, 0, 0, 1, 4, 0, 2, 0] 8 g w = None"
  by (simp add: manifest_parse_def manifest_parse_gen_def parse_loop.simps identify_descriptor_def
      rd16_def rd8_def le16_def descriptor_type_def identify_switch_def)

text \<open>
  In a fragment, a descriptor that is rejected with fewer than 22 octets left makes the
  remaining size wrap around, because the negative error is skipped as if it were a size, and
  the loop reads beyond the fragment.
\<close>

theorem patch_error_faults:
  assumes "0 < sz" and "sz < 22" and "off + sz = length b"
    and "identify_patch_descriptor mk b off sz g = Some (- EINVAL, b', g')"
  shows "patch_loop mk realloc m ms b off sz g w = None"
proof -
  have len: "length b' = length b" using identify_patch_progress(1)[OF assms(4)] .
  have "\<not> size_sub sz 22 < 4" "size_sub sz 22 \<noteq> 0" using assms(2) by (auto simp: size_sub_def)
  moreover from this have "identify_patch_descriptor mk b' (off + 22) (size_sub sz 22) g' = None"
    using assms(2,3) len by (simp add: identify_patch_descriptor_def bind_eq_None_conv)
  ultimately have "patch_loop mk realloc m ms b' (off + 22) (size_sub sz 22) g' w = None"
    by (subst patch_loop.simps) simp
  with assms(1,4) show ?thesis
    by (subst patch_loop.simps) simp
qed

theorem patch_error_faults_witness:
  "patch_loop True (\<lambda>w n. (True, w)) [4, 0, 0, 1] 4 [8, 0, 0, 1, 4, 0, 9, 0] 4 4 g_greybus () = None"
proof (rule patch_error_faults)
  show "identify_patch_descriptor True [8, 0, 0, 1, 4, 0, 9, 0] 4 4 g_greybus
      = Some (- EINVAL, [8, 0, 0, 1, 4, 0, 9, 0], g_greybus)"
    by (simp add: identify_patch_descriptor_def rd16_def rd8_def le16_def descriptor_type_def
        identify_patch_switch_def patch_descriptor_result_def)
qed simp_all

end
