(* ===== verification/Gb_Core.thy ===== *)
theory Gb_Core
  imports Gb_Dispatch Gb_Heap Gb_Manifest
begin

text \<open>
  The core, \<^verbatim>\<open>subsys/greybus/greybus-core.c\<close>: its global state, the life cycle of operations on
  the heap, the receive path, the per-cport worker, requests and their responses, the
  registration of drivers and the tape. Every definition is one function of the file, in the
  order of its statements.

  What the core calls through pointers is the record \<open>env\<close>: the transport backend, the
  allocators, the clock, thread creation, the tape mechanism and the drivers' callbacks. The
  watchdog and time-stamp functions are stubs without effect in the repository
  (\<^verbatim>\<open>greybus-stubs.c\<close>) and are left out. \<^verbatim>\<open>irq_lock\<close> sections and the serialisation by the
  semaphore make each definition an atomic step.
\<close>

unbundle bit_operations_syntax

section \<open>State\<close>

text \<open>An entry of the receive fifo: an operation, or the static time-out operation of the cport.\<close>

datatype rx_entry = Rx_op nat | Rx_timedout

text \<open>
  \<^verbatim>\<open>sys_dlist_append\<close> on a fifo whose nodes are embedded in its elements: appending a node that
  is already linked corrupts the list, a fault.
\<close>

definition sys_dlist_append :: "'a list \<Rightarrow> 'a \<Rightarrow> 'a list option" where
  "sys_dlist_append xs x = (if x \<in> set xs then None else Some (xs @ [x]))"

record gb_cport_driver =
  cp_driver :: "nat option"
  cp_tx_fifo :: "nat list"
  cp_rx_fifo :: "rx_entry list"
  cp_rx_fifo_lock :: nat
  cp_thread :: bool
  cp_exit_worker :: bool

text \<open>
  \<open>tx_log\<close> records the calls of \<^verbatim>\<open>transport_backend->send\<close> with their results and \<open>tape\<close> the
  octets written to the tape; both are observations, no definition reads them.
\<close>

record 'w core =
  cport_count :: nat
  request_id :: u32
  g_cport :: "gb_cport_driver list"
  g_bundle :: "gb_bundle option list"
  transport_backend :: bool
  gb_tape :: bool
  gb_tape_fd :: int
  core_heap :: heap
  core_drivers :: "gb_driver list"
  core_manifest :: greybus
  tx_log :: "(nat \<times> bytes \<times> int) list"
  tape :: bytes
  world :: 'w

record 'w env =
  env_alloc_buf :: "'w alloc_fn"
  env_free_buf :: "'w \<Rightarrow> bytes option \<Rightarrow> 'w"
  env_malloc :: "'w alloc_fn"
  env_send :: "'w \<Rightarrow> nat \<Rightarrow> bytes \<Rightarrow> int \<times> 'w"
  env_send_async :: "('w \<Rightarrow> nat \<Rightarrow> bytes \<Rightarrow> int \<times> 'w) option"
  env_listen :: "'w \<Rightarrow> nat \<Rightarrow> int \<times> 'w"
  env_stop_listening :: "('w \<Rightarrow> nat \<Rightarrow> int \<times> 'w) option"
  env_transport_init :: "'w \<Rightarrow> 'w"
  env_transport_exit :: "('w \<Rightarrow> 'w) option"
  env_clock :: "'w \<Rightarrow> (int \<times> int) \<times> 'w"
  env_pthread_create :: "'w \<Rightarrow> nat \<Rightarrow> int \<times> 'w"
  env_handler :: "fptr \<Rightarrow> 'w core \<Rightarrow> nat \<Rightarrow> (u8 \<times> 'w core) option"
  env_fast_handler :: "fptr \<Rightarrow> 'w core \<Rightarrow> nat \<Rightarrow> bytes \<Rightarrow> 'w core option"
  env_callback :: "fptr \<Rightarrow> 'w core \<Rightarrow> nat \<Rightarrow> 'w core option"
  env_driver_init :: "fptr \<Rightarrow> 'w core \<Rightarrow> nat \<Rightarrow> nat option \<Rightarrow> (int \<times> 'w core) option"
  env_driver_exit :: "fptr \<Rightarrow> 'w core \<Rightarrow> nat \<Rightarrow> nat option \<Rightarrow> 'w core option"
  env_driver_event :: "fptr \<Rightarrow> 'w core \<Rightarrow> nat \<Rightarrow> 'w core option"

definition get_op :: "'w core \<Rightarrow> nat \<Rightarrow> gb_operation option" where
  "get_op c a = hget (core_heap c) a"

definition put_op :: "nat \<Rightarrow> gb_operation \<Rightarrow> 'w core \<Rightarrow> 'w core" where
  "put_op a op c = c\<lparr>core_heap := hput (core_heap c) a op\<rparr>"

definition get_cp :: "'w core \<Rightarrow> nat \<Rightarrow> gb_cport_driver option" where
  "get_cp c p = (if p < length (g_cport c) then Some (g_cport c ! p) else None)"

definition put_cp :: "nat \<Rightarrow> gb_cport_driver \<Rightarrow> 'w core \<Rightarrow> 'w core" where
  "put_cp p cp c = c\<lparr>g_cport := (g_cport c)[p := cp]\<rparr>"

definition get_driver :: "'w core \<Rightarrow> nat \<Rightarrow> gb_driver option" where
  "get_driver c d = (if d < length (core_drivers c) then Some (core_drivers c ! d) else None)"

definition put_driver :: "nat \<Rightarrow> gb_driver \<Rightarrow> 'w core \<Rightarrow> 'w core" where
  "put_driver d drv c = c\<lparr>core_drivers := (core_drivers c)[d := drv]\<rparr>"

section \<open>The life cycle of operations\<close>

definition gb_operation_ref :: "nat \<Rightarrow> 'w core \<Rightarrow> 'w core option" where
  "gb_operation_ref a c = do {
     H \<leftarrow> heap_ref a (core_heap c); Some (c\<lparr>core_heap := H\<rparr>) }"

definition gb_operation_unref :: "'w env \<Rightarrow> nat \<Rightarrow> 'w core \<Rightarrow> 'w core option" where
  "gb_operation_unref E a c = do {
     (H, w) \<leftarrow> heap_unref (env_free_buf E) a (core_heap c) (world c);
     Some (c\<lparr>core_heap := H, world := w\<rparr>) }"

definition gb_operation_destroy :: "'w env \<Rightarrow> nat \<Rightarrow> 'w core \<Rightarrow> 'w core option" where
  "gb_operation_destroy E a c = gb_operation_unref E a c"

definition new_operation :: "nat \<Rightarrow> gb_operation" where
  "new_operation cport =
     \<lparr>op_cport = cport, op_has_responded = False, op_ref_count = 1, op_time = (0, 0),
      op_request_buffer = None, op_response_buffer = None, op_is_unipro_rx_buf = False,
      op_callback = None, op_sync_sem = 0, op_response = None, op_bundle = None\<rparr>"

text \<open>\<^verbatim>\<open>_gb_operation_create\<close>: the null result is \<open>None\<close>, otherwise the new address.\<close>

definition gb_operation_create_raw ::
  "'w env \<Rightarrow> nat \<Rightarrow> 'w core \<Rightarrow> nat option \<times> 'w core" where
  "gb_operation_create_raw E cport c =
     (if cport_count c \<le> cport then (None, c)
      else
        let (ok, w) = env_malloc E (world c) 100; c1 = c\<lparr>world := w\<rparr> in
        if \<not> ok then (None, c1)
        else (Some (length (core_heap c1)),
              c1\<lparr>core_heap := core_heap c1 @ [Some (new_operation cport)]\<rparr>))"

definition gb_operation_create ::
  "'w env \<Rightarrow> nat \<Rightarrow> u8 \<Rightarrow> nat \<Rightarrow> 'w core \<Rightarrow> (nat option \<times> 'w core) option" where
  "gb_operation_create E cport ty req_size c =
     (if cport_count c \<le> cport then Some (None, c)
      else
        case gb_operation_create_raw E cport c of
          (None, c1) \<Rightarrow> Some (None, c1)
        | (Some a, c1) \<Rightarrow>
            (let n = size_add req_size HDR_SIZE; (ok, w) = env_alloc_buf E (world c1) n;
                 c2 = c1\<lparr>world := w\<rparr> in
             if \<not> ok then Some (None, c2\<lparr>core_heap := hfree (core_heap c2) a\<rparr>)
             else do {
               let b = replicate n 0;
               b \<leftarrow> wr16 b 0 (word_of_nat n);
               b \<leftarrow> wr8 b 4 ty;
               op \<leftarrow> get_op c2 a;
               Some (Some a, put_op a (op\<lparr>op_request_buffer := Some b\<rparr>) c2) }))"

text \<open>The non-UniPro variant: a copy of the first \<open>sz\<close> octets of the received buffer.\<close>

definition gb_rx_create_operation ::
  "'w env \<Rightarrow> nat \<Rightarrow> bytes \<Rightarrow> nat \<Rightarrow> 'w core \<Rightarrow> (nat option \<times> 'w core) option" where
  "gb_rx_create_operation E cport data sz c = do {
     (r, c1) \<leftarrow> gb_operation_create E cport 0 (size_sub sz HDR_SIZE) c;
     (case r of
        None \<Rightarrow> Some (None, c1)
      | Some a \<Rightarrow> do {
          op \<leftarrow> get_op c1 a;
          b \<leftarrow> op_request_buffer op;
          src \<leftarrow> rd_slice data 0 sz;
          b' \<leftarrow> wr_slice b 0 src;
          Some (Some a, put_op a (op\<lparr>op_request_buffer := Some b'\<rparr>) c1) }) }"

definition gb_operation_get_request_result :: "'w core \<Rightarrow> nat option \<Rightarrow> u8 option" where
  "gb_operation_get_request_result c oper =
     (case oper of
        None \<Rightarrow> Some GB_OP_INTERNAL
      | Some a \<Rightarrow> do {
          op \<leftarrow> get_op c a;
          (case op_response op of
             None \<Rightarrow> Some GB_OP_TIMEOUT
           | Some r \<Rightarrow> do {
               rop \<leftarrow> get_op c r;
               (case op_request_buffer rop of
                  None \<Rightarrow> Some GB_OP_INTERNAL
                | Some b \<Rightarrow> do {
                    sz \<leftarrow> hdr_size b;
                    if unat sz < HDR_SIZE then Some GB_OP_INTERNAL else hdr_result b }) }) })"

definition gb_operation_get_bundle :: "'w core \<Rightarrow> nat option \<Rightarrow> nat option option" where
  "gb_operation_get_bundle c oper =
     (case oper of None \<Rightarrow> Some None | Some a \<Rightarrow> do { op \<leftarrow> get_op c a; Some (op_bundle op) })"

section \<open>Sending\<close>

definition transport_send :: "'w env \<Rightarrow> nat \<Rightarrow> bytes \<Rightarrow> 'w core \<Rightarrow> int \<times> 'w core" where
  "transport_send E cport msg c =
     (let (r, w) = env_send E (world c) cport msg in
      (r, c\<lparr>world := w, tx_log := tx_log c @ [(cport, msg, r)]\<rparr>))"

definition gb_operation_send_oom_response ::
  "'w env \<Rightarrow> nat \<Rightarrow> 'w core \<Rightarrow> (int \<times> 'w core) option" where
  "gb_operation_send_oom_response E a c = do {
     op \<leftarrow> get_op c a;
     cp \<leftarrow> get_cp c (op_cport op);
     if cp_exit_worker cp then Some (- ENETDOWN, c)
     else do {
       b \<leftarrow> op_request_buffer op;
       ident \<leftarrow> hdr_id b;
       ty \<leftarrow> hdr_type b;
       Some (transport_send E (op_cport op)
               (hdr_bytes 8 ident (GB_TYPE_RESPONSE_FLAG OR ty) GB_OP_NO_MEMORY) c) } }"

definition core_alloc_response ::
  "'w env \<Rightarrow> nat \<Rightarrow> nat \<Rightarrow> 'w core \<Rightarrow> (bool \<times> 'w core) option" where
  "core_alloc_response E a sz c = do {
     op \<leftarrow> get_op c a;
     (ok, op', w) \<leftarrow> gb_operation_alloc_response (env_alloc_buf E) (world c) op sz;
     Some (ok, put_op a op' (c\<lparr>world := w\<rparr>)) }"

text \<open>What \<^verbatim>\<open>gb_operation_send_response\<close> does once a response buffer exists.\<close>

definition send_response_buffer ::
  "'w env \<Rightarrow> nat \<Rightarrow> u8 \<Rightarrow> bool \<Rightarrow> 'w core \<Rightarrow> (int \<times> 'w core) option" where
  "send_response_buffer E a result has_allocated_response c = do {
     op \<leftarrow> get_op c a;
     b \<leftarrow> op_response_buffer op;
     b' \<leftarrow> wr8 b 5 result;
     let c1 = put_op a (op\<lparr>op_response_buffer := Some b'\<rparr>) c;
     sz \<leftarrow> hdr_size b';
     msg \<leftarrow> rd_slice b' 0 (unat sz);
     let (retval, c2) = transport_send E (op_cport op) msg c1;
     op2 \<leftarrow> get_op c2 a;
     if retval \<noteq> 0 then
       if has_allocated_response then
         Some (retval, put_op a (op2\<lparr>op_response_buffer := None\<rparr>)
                 (c2\<lparr>world := env_free_buf E (world c2) (op_response_buffer op2)\<rparr>))
       else Some (retval, c2)
     else Some (retval, put_op a (op2\<lparr>op_has_responded := True\<rparr>) c2) }"

definition gb_operation_send_response ::
  "'w env \<Rightarrow> nat \<Rightarrow> u8 \<Rightarrow> 'w core \<Rightarrow> (int \<times> 'w core) option" where
  "gb_operation_send_response E a result c = do {
     op \<leftarrow> get_op c a;
     cp \<leftarrow> get_cp c (op_cport op);
     if cp_exit_worker cp then Some (- ENETDOWN, c)
     else if op_has_responded op then Some (- EINVAL, c)
     else
       (case op_response_buffer op of
          Some _ \<Rightarrow> send_response_buffer E a result False c
        | None \<Rightarrow> do {
            (ok, c1) \<leftarrow> core_alloc_response E a 0 c;
            if \<not> ok then gb_operation_send_oom_response E a c1
            else send_response_buffer E a result True c1 }) }"

text \<open>\<open>hdr->id = v\<close> in the request buffer of an operation.\<close>

definition set_request_id :: "u16 \<Rightarrow> gb_operation \<Rightarrow> gb_operation option" where
  "set_request_id v op = do {
     b \<leftarrow> op_request_buffer op; b' \<leftarrow> wr16 b 2 v; Some (op\<lparr>op_request_buffer := Some b'\<rparr>) }"

text \<open>\<^verbatim>\<open>atomic_inc(&request_id)\<close> yields the old value; its low half is the id. Zero is skipped.\<close>

definition next_request_id :: "u32 \<Rightarrow> u16 \<times> u32" where
  "next_request_id rid =
     (let ident = ucast rid :: u16; rid1 = rid + 1 in
      if ident = 0 then (ucast rid1, rid1 + 1) else (ident, rid1))"

text \<open>The part of \<^verbatim>\<open>gb_operation_send_request\<close> under its first \<^verbatim>\<open>need_response\<close>.\<close>

definition queue_request ::
  "'w env \<Rightarrow> nat \<Rightarrow> callback option \<Rightarrow> 'w core \<Rightarrow> 'w core option" where
  "queue_request E a cb c = do {
     op \<leftarrow> get_op c a;
     let (ident, rid) = next_request_id (request_id c);
     op1 \<leftarrow> set_request_id ident op;
     let (now, w) = env_clock E (world c);
     c' \<leftarrow> gb_operation_ref a
       (put_op a (op1\<lparr>op_time := now, op_callback := cb\<rparr>) (c\<lparr>request_id := rid, world := w\<rparr>));
     cp \<leftarrow> get_cp c' (op_cport op);
     fifo \<leftarrow> sys_dlist_append (cp_tx_fifo cp) a;
     Some (put_cp (op_cport op) (cp\<lparr>cp_tx_fifo := fifo\<rparr>) c') }"

definition gb_operation_send_request ::
  "'w env \<Rightarrow> nat \<Rightarrow> callback option \<Rightarrow> bool \<Rightarrow> 'w core \<Rightarrow> (int \<times> 'w core) option" where
  "gb_operation_send_request E a cb need_response c = do {
     op \<leftarrow> get_op c a;
     cp \<leftarrow> get_cp c (op_cport op);
     if cp_exit_worker cp then Some (- ENETDOWN, c)
     else do {
       op0 \<leftarrow> set_request_id 0 op;
       let c0 = put_op a op0 c;
       c1 \<leftarrow> (if need_response then queue_request E a cb c0 else Some c0);
       op1 \<leftarrow> get_op c1 a;
       b \<leftarrow> op_request_buffer op1;
       sz \<leftarrow> hdr_size b;
       msg \<leftarrow> rd_slice b 0 (unat sz);
       let (retval, c2) = transport_send E (op_cport op) msg c1;
       if need_response \<and> retval \<noteq> 0 then do {
         cp2 \<leftarrow> get_cp c2 (op_cport op);
         c3 \<leftarrow> gb_operation_unref E a
           (put_cp (op_cport op) (cp2\<lparr>cp_tx_fifo := remove1 a (cp_tx_fifo cp2)\<rparr>) c2);
         Some (retval, c3)
       } else Some (retval, c2) } }"

text \<open>
  \<^verbatim>\<open>transport_backend->send_async\<close> is called without a null check: both socket and UART backends
  of the repository leave it null, which is a fault here. The completion callback that the
  transport later runs is \<open>gb_operation_send_request_nowait_cb\<close>.
\<close>

definition call_callback :: "'w env \<Rightarrow> nat \<Rightarrow> 'w core \<Rightarrow> 'w core option" where
  "call_callback E a c = do {
     op \<leftarrow> get_op c a;
     (case op_callback op of
        None \<Rightarrow> Some c
      | Some Callback_sync \<Rightarrow> Some (put_op a (op\<lparr>op_sync_sem := op_sync_sem op + 1\<rparr>) c)
      | Some (Callback_user f) \<Rightarrow> env_callback E f c a) }"

definition gb_operation_send_request_nowait_cb ::
  "'w env \<Rightarrow> int \<Rightarrow> nat \<Rightarrow> 'w core \<Rightarrow> 'w core option" where
  "gb_operation_send_request_nowait_cb E status a c = do {
     op \<leftarrow> get_op c a;
     b \<leftarrow> op_request_buffer op;
     b' \<leftarrow> wr8 b 5 (if status \<noteq> 0 then GB_OP_INTERNAL else 0);
     c1 \<leftarrow> call_callback E a (put_op a (op\<lparr>op_request_buffer := Some b'\<rparr>) c);
     gb_operation_unref E a c1 }"

definition gb_operation_send_request_nowait ::
  "'w env \<Rightarrow> nat \<Rightarrow> callback option \<Rightarrow> bool \<Rightarrow> 'w core \<Rightarrow> (int \<times> 'w core) option" where
  "gb_operation_send_request_nowait E a cb need_response c = do {
     op \<leftarrow> get_op c a;
     cp \<leftarrow> get_cp c (op_cport op);
     if cp_exit_worker cp then Some (- ENETDOWN, c)
     else if need_response then Some (- ENOTSUP, c)
     else do {
       op0 \<leftarrow> set_request_id 0 op;
       c1 \<leftarrow> gb_operation_ref a (put_op a (op0\<lparr>op_callback := cb\<rparr>) c);
       b \<leftarrow> op_request_buffer op0;
       sz \<leftarrow> hdr_size b;
       msg \<leftarrow> rd_slice b 0 (unat sz);
       send_async \<leftarrow> env_send_async E;
       let (retval, w) = send_async (world c1) (op_cport op) msg;
       Some (retval, c1\<lparr>world := w\<rparr>) } }"

text \<open>
  The synchronous variant either returns the error of the send or waits for the callback to post
  the operation's semaphore (\<open>Sync_wait\<close>).
\<close>

datatype sync_result = Sync_return int | Sync_wait

definition gb_operation_send_request_sync ::
  "'w env \<Rightarrow> nat \<Rightarrow> 'w core \<Rightarrow> (sync_result \<times> 'w core) option" where
  "gb_operation_send_request_sync E a c = do {
     op \<leftarrow> get_op c a;
     (retval, c1) \<leftarrow> gb_operation_send_request E a (Some Callback_sync) True
        (put_op a (op\<lparr>op_sync_sem := 0\<rparr>) c);
     Some (if retval \<noteq> 0 then Sync_return retval else Sync_wait, c1) }"

section \<open>Responses and time-outs\<close>

text \<open>The first operation of the transmit fifo whose request has the id.\<close>

fun find_request :: "'w core \<Rightarrow> u16 \<Rightarrow> nat list \<Rightarrow> nat option option" where
  "find_request c ident [] = Some None"
| "find_request c ident (a # as) = do {
     op \<leftarrow> get_op c a;
     b \<leftarrow> op_request_buffer op;
     op_id \<leftarrow> hdr_id b;
     if ident \<noteq> op_id then find_request c ident as else Some (Some a) }"

definition gb_process_response :: "'w env \<Rightarrow> nat \<Rightarrow> 'w core \<Rightarrow> 'w core option" where
  "gb_process_response E r c = do {
     operation \<leftarrow> get_op c r;
     b \<leftarrow> op_request_buffer operation;
     ident \<leftarrow> hdr_id b;
     cp \<leftarrow> get_cp c (op_cport operation);
     found \<leftarrow> find_request c ident (cp_tx_fifo cp);
     (case found of
        None \<Rightarrow> Some c
      | Some a \<Rightarrow> do {
          c1 \<leftarrow> gb_operation_ref r
            (put_cp (op_cport operation) (cp\<lparr>cp_tx_fifo := remove1 a (cp_tx_fifo cp)\<rparr>) c);
          op \<leftarrow> get_op c1 a;
          c2 \<leftarrow> call_callback E a (put_op a (op\<lparr>op_response := Some r\<rparr>) c1);
          gb_operation_unref E a c2 }) }"

text \<open>The time-out is one second; seconds and nanoseconds are compared in turn.\<close>

definition gb_operation_has_timedout :: "int \<times> int \<Rightarrow> int \<times> int \<Rightarrow> bool" where
  "gb_operation_has_timedout start current =
     (let timeout = (fst start + 1, snd start + 0) in
      if fst current > fst timeout then True
      else if fst current < fst timeout then False
      else snd current > snd timeout)"

fun clean_loop :: "'w env \<Rightarrow> nat \<Rightarrow> nat list \<Rightarrow> 'w core \<Rightarrow> 'w core option" where
  "clean_loop E cport [] c = Some c"
| "clean_loop E cport (a # as) c = do {
     op \<leftarrow> get_op c a;
     let (now, w) = env_clock E (world c);
     let c0 = c\<lparr>world := w\<rparr>;
     if \<not> gb_operation_has_timedout (op_time op) now then clean_loop E cport as c0
     else do {
       cp \<leftarrow> get_cp c0 cport;
       c1 \<leftarrow> call_callback E a (put_cp cport (cp\<lparr>cp_tx_fifo := remove1 a (cp_tx_fifo cp)\<rparr>) c0);
       c2 \<leftarrow> gb_operation_unref E a c1;
       clean_loop E cport as c2 } }"

definition gb_clean_timedout_operation :: "'w env \<Rightarrow> nat \<Rightarrow> 'w core \<Rightarrow> 'w core option" where
  "gb_clean_timedout_operation E cport c = do {
     cp \<leftarrow> get_cp c cport;
     clean_loop E cport (cp_tx_fifo cp) c }"

text \<open>
  The time-out handler goes on only when the node of the cport's static operation is already
  linked into a list, that is, already queued.
\<close>

definition gb_operation_timeout :: "nat \<Rightarrow> 'w core \<Rightarrow> 'w core option" where
  "gb_operation_timeout cport c = do {
     cp \<leftarrow> get_cp c cport;
     if Rx_timedout \<notin> set (cp_rx_fifo cp) then Some c
     else do {
       fifo \<leftarrow> sys_dlist_append (cp_rx_fifo cp) Rx_timedout;
       Some (put_cp cport (cp\<lparr>cp_rx_fifo := fifo, cp_rx_fifo_lock := cp_rx_fifo_lock cp + 1\<rparr>) c) } }"

section \<open>Requests and the worker\<close>

definition gb_process_request :: "'w env \<Rightarrow> nat \<Rightarrow> 'w core \<Rightarrow> 'w core option" where
  "gb_process_request E a c = do {
     operation \<leftarrow> get_op c a;
     b \<leftarrow> op_request_buffer operation;
     ty \<leftarrow> hdr_type b;
     if ty = GB_PING_TYPE then do {
       (_, c1) \<leftarrow> gb_operation_send_response E a GB_OP_SUCCESS c; Some c1 }
     else do {
       cp \<leftarrow> get_cp c (op_cport operation);
       d \<leftarrow> cp_driver cp;
       driver \<leftarrow> get_driver c d;
       found \<leftarrow> find_operation_handler ty driver;
       (case found of
          None \<Rightarrow> do {
            (_, c1) \<leftarrow> gb_operation_send_response E a GB_OP_INVALID c; Some c1 }
        | Some op_handler \<Rightarrow> do {
            let c1 = put_op a (operation\<lparr>op_bundle := drv_bundle driver\<rparr>) c;
            f \<leftarrow> oh_handler op_handler;
            (result, c2) \<leftarrow> env_handler E f c1 a;
            operation2 \<leftarrow> get_op c2 a;
            b2 \<leftarrow> op_request_buffer operation2;
            ident \<leftarrow> hdr_id b2;
            if ident \<noteq> 0 then do {
              (_, c3) \<leftarrow> gb_operation_send_response E a result c2; Some c3 }
            else Some c2 }) } }"

text \<open>
  One iteration of \<^verbatim>\<open>gb_pending_message_worker\<close>: it blocks on the semaphore, leaves the loop, or
  handles one entry of the receive fifo. Dequeuing from an empty fifo is a fault.
\<close>

datatype 'w work = Work_blocked | Work_exited "'w core" | Work_done "'w core"

definition worker_entry :: "'w env \<Rightarrow> nat \<Rightarrow> rx_entry \<Rightarrow> 'w core \<Rightarrow> 'w core option" where
  "worker_entry E cportid entry c =
     (case entry of
        Rx_timedout \<Rightarrow> gb_clean_timedout_operation E cportid c
      | Rx_op a \<Rightarrow> do {
          operation \<leftarrow> get_op c a;
          b \<leftarrow> op_request_buffer operation;
          ty \<leftarrow> hdr_type b;
          c1 \<leftarrow> (if ty AND GB_TYPE_RESPONSE_FLAG \<noteq> 0 then gb_process_response E a c
                 else gb_process_request E a c);
          gb_operation_destroy E a c1 })"

definition gb_pending_message_worker :: "'w env \<Rightarrow> nat \<Rightarrow> 'w core \<Rightarrow> 'w work option" where
  "gb_pending_message_worker E cportid c = do {
     cp \<leftarrow> get_cp c cportid;
     if cp_rx_fifo_lock cp = 0 then Some Work_blocked
     else do {
       let cp1 = cp\<lparr>cp_rx_fifo_lock := cp_rx_fifo_lock cp - 1\<rparr>;
       if cp_exit_worker cp1 \<and> cp_rx_fifo cp1 = [] then
         Some (Work_exited (put_cp cportid (cp1\<lparr>cp_thread := False\<rparr>) c))
       else
         (case cp_rx_fifo cp1 of
            [] \<Rightarrow> None
          | entry # rest \<Rightarrow>
              map_option Work_done
                (worker_entry E cportid entry (put_cp cportid (cp1\<lparr>cp_rx_fifo := rest\<rparr>) c))) } }"

section \<open>Receiving\<close>

definition tape_write :: "bytes \<Rightarrow> 'w core \<Rightarrow> 'w core" where
  "tape_write xs c = c\<lparr>tape := tape c @ xs\<rparr>"

text \<open>\<^verbatim>\<open>struct gb_tape_record_header\<close>: size and cport, both sixteen bits.\<close>

definition gb_tape_record_header :: "nat \<Rightarrow> nat \<Rightarrow> bytes" where
  "gb_tape_record_header sz cport = bytes16 (word_of_nat sz) @ bytes16 (word_of_nat cport)"

definition greybus_rx_handler ::
  "'w env \<Rightarrow> nat \<Rightarrow> bytes option \<Rightarrow> nat \<Rightarrow> 'w core \<Rightarrow> (int \<times> 'w core) option" where
  "greybus_rx_handler E cport data sz c =
     (case data of
        None \<Rightarrow> Some (- EINVAL, c)
      | Some buf \<Rightarrow>
          if cport_count c \<le> cport then Some (- EINVAL, c)
          else do {
            cp \<leftarrow> get_cp c cport;
            (case cp_driver cp of
               None \<Rightarrow> Some (0, c)
             | Some d \<Rightarrow> do {
                 driver \<leftarrow> get_driver c d;
                 if drv_op_handlers driver = None then Some (0, c)
                 else if sz < HDR_SIZE then Some (- EINVAL, c)
                 else do {
                   hsz \<leftarrow> hdr_size buf;
                   if sz < unat hsz \<or> unat hsz < HDR_SIZE then Some (- EINVAL, c)
                   else do {
                     c1 \<leftarrow> (if gb_tape c \<and> 0 \<le> gb_tape_fd c then do {
                              msg \<leftarrow> rd_slice buf 0 sz;
                              Some (tape_write msg (tape_write (gb_tape_record_header sz cport) c)) }
                            else Some c);
                     ty \<leftarrow> hdr_type buf;
                     found \<leftarrow> find_operation_handler ty driver;
                     (case Option.bind found oh_fast_handler of
                        Some f \<Rightarrow> do { c2 \<leftarrow> env_fast_handler E f c1 cport buf; Some (0, c2) }
                      | None \<Rightarrow> do {
                          (r, c2) \<leftarrow> gb_rx_create_operation E cport buf (unat hsz) c1;
                          (case r of
                             None \<Rightarrow> Some (- ENOMEM, c2)
                           | Some a \<Rightarrow> do {
                               cp2 \<leftarrow> get_cp c2 cport;
                               fifo \<leftarrow> sys_dlist_append (cp_rx_fifo cp2) (Rx_op a);
                               Some (0, put_cp cport
                                 (cp2\<lparr>cp_rx_fifo := fifo,
                                      cp_rx_fifo_lock := cp_rx_fifo_lock cp2 + 1\<rparr>) c2) }) }) } } }) })"

section \<open>Registering and unregistering drivers\<close>

fun flush_loop :: "'w env \<Rightarrow> nat \<Rightarrow> nat list \<Rightarrow> 'w core \<Rightarrow> 'w core option" where
  "flush_loop E cport [] c = Some c"
| "flush_loop E cport (a # as) c = do {
     cp \<leftarrow> get_cp c cport;
     c1 \<leftarrow> gb_operation_unref E a
       (put_cp cport (cp\<lparr>cp_tx_fifo := remove1 a (cp_tx_fifo cp)\<rparr>) c);
     flush_loop E cport as c1 }"

definition gb_flush_tx_fifo :: "'w env \<Rightarrow> nat \<Rightarrow> 'w core \<Rightarrow> 'w core option" where
  "gb_flush_tx_fifo E cport c = do {
     cp \<leftarrow> get_cp c cport; flush_loop E cport (cp_tx_fifo cp) c }"

text \<open>
  \<^verbatim>\<open>pthread_join\<close> on the worker: the worker iterates until it leaves its loop. The number of
  iterations is bounded by \<open>fuel\<close>; the Boolean says whether the thread has ended, and
  \<open>worker_join_ends\<close> below says that the semaphore's count is fuel enough.
\<close>

fun worker_join :: "'w env \<Rightarrow> nat \<Rightarrow> nat \<Rightarrow> 'w core \<Rightarrow> (bool \<times> 'w core) option" where
  "worker_join E 0 cport c = Some (False, c)"
| "worker_join E (Suc fuel) cport c =
     (case gb_pending_message_worker E cport c of
        None \<Rightarrow> None
      | Some Work_blocked \<Rightarrow> Some (False, c)
      | Some (Work_exited c') \<Rightarrow> Some (True, c')
      | Some (Work_done c') \<Rightarrow> worker_join E fuel cport c')"

text \<open>What \<^verbatim>\<open>gb_unregister_driver\<close> does after the join.\<close>

definition unregister_finish :: "'w env \<Rightarrow> nat \<Rightarrow> nat \<Rightarrow> 'w core \<Rightarrow> 'w core option" where
  "unregister_finish E cport d c = do {
     c1 \<leftarrow> gb_flush_tx_fifo E cport c;
     driver \<leftarrow> get_driver c1 d;
     c2 \<leftarrow> (case drv_exit driver of
              None \<Rightarrow> Some c1
            | Some f \<Rightarrow> env_driver_exit E f c1 cport (drv_bundle driver));
     cp \<leftarrow> get_cp c2 cport;
     Some (put_cp cport (cp\<lparr>cp_driver := None\<rparr>) c2) }"

text \<open>The inner result is \<open>None\<close> when the join does not return.\<close>

definition gb_unregister_driver ::
  "'w env \<Rightarrow> nat \<Rightarrow> 'w core \<Rightarrow> (int option \<times> 'w core) option" where
  "gb_unregister_driver E cport c =
     (if cport_count c \<le> cport then Some (Some (- EINVAL), c)
      else do {
        cp \<leftarrow> get_cp c cport;
        (case cp_driver cp of
           None \<Rightarrow> Some (Some (- EINVAL), c)
         | Some d \<Rightarrow>
             if \<not> transport_backend c then Some (Some (- EINVAL), c)
             else do {
               let c1 = (case env_stop_listening E of
                           None \<Rightarrow> c
                         | Some stop \<Rightarrow> c\<lparr>world := snd (stop (world c) cport)\<rparr>);
               let c2 = put_cp cport (cp\<lparr>cp_exit_worker := True,
                                        cp_rx_fifo_lock := cp_rx_fifo_lock cp + 1\<rparr>) c1;
               (ended, c3) \<leftarrow> worker_join E (cp_rx_fifo_lock cp + 1) cport c2;
               if \<not> ended then Some (None, c3)
               else do { c4 \<leftarrow> unregister_finish E cport d c3; Some (Some 0, c4) } }) })"

definition get_bundle :: "'w core \<Rightarrow> int \<Rightarrow> gb_bundle option option" where
  "get_bundle c i =
     (if 0 \<le> i \<and> nat i < length (g_bundle c) then Some (g_bundle c ! nat i) else None)"

text \<open>
  The bundle of the driver: an existing one, or a new one with the manifest's first cport and as
  many device slots as the bundle has cports. A negative \<open>bundle_id\<close> indexes \<^verbatim>\<open>g_bundle\<close>
  before its start. \<open>Inl e\<close> is an error return.
\<close>

definition register_bundle ::
  "'w env \<Rightarrow> int \<Rightarrow> nat \<Rightarrow> 'w core \<Rightarrow> ((int + nat option) \<times> 'w core) option" where
  "register_bundle E bundle_id num_cports c = do {
     existing \<leftarrow> get_bundle c bundle_id;
     (case existing of
        Some _ \<Rightarrow> Some (Inr (Some (nat bundle_id)), c)
      | None \<Rightarrow>
          let (ok, w) = env_malloc E (world c) 16; c1 = c\<lparr>world := w\<rparr> in
          if \<not> ok then Some (Inl (- ENOMEM), c1)
          else
            let bundle = \<lparr>bnd_id = bundle_id,
                  bnd_cport_start = manifest_get_start_cport_bundle (core_manifest c) bundle_id,
                  bnd_dev = replicate num_cports None\<rparr> in
            Some (Inr (Some (nat bundle_id)),
                  c1\<lparr>g_bundle := (g_bundle c1)[nat bundle_id := Some bundle]\<rparr>)) }"

text \<open>The end of \<^verbatim>\<open>_gb_register_driver\<close>, once the driver's \<open>init\<close> has succeeded.\<close>

definition register_start ::
  "'w env \<Rightarrow> nat \<Rightarrow> nat \<Rightarrow> nat option \<Rightarrow> 'w core \<Rightarrow> (int \<times> 'w core) option" where
  "register_start E cport d bundle c = do {
     driver \<leftarrow> get_driver c d;
     sorted_driver \<leftarrow> sort_op_handlers driver;
     let c1 = put_driver d sorted_driver c;
     cp \<leftarrow> get_cp c1 cport;
     let (rc, w) = env_pthread_create E (world c1) cport;
     let c2 = put_cp cport (cp\<lparr>cp_exit_worker := False\<rparr>) (c1\<lparr>world := w\<rparr>);
     if rc \<noteq> 0 then do {
       c3 \<leftarrow> (case drv_exit driver of
                None \<Rightarrow> Some c2
              | Some f \<Rightarrow> env_driver_exit E f c2 cport bundle);
       Some (rc, c3) }
     else
       Some (0, put_cp cport (cp\<lparr>cp_exit_worker := False, cp_thread := True, cp_driver := Some d\<rparr>) c2) }"

text \<open>Its middle: the driver gets its bundle and is initialised.\<close>

definition register_init ::
  "'w env \<Rightarrow> nat \<Rightarrow> nat \<Rightarrow> nat option \<Rightarrow> 'w core \<Rightarrow> (int \<times> 'w core) option" where
  "register_init E cport d bundle c = do {
     driver \<leftarrow> get_driver c d;
     let c1 = put_driver d (driver\<lparr>drv_bundle := bundle\<rparr>) c;
     (retval, c2) \<leftarrow> (case drv_init driver of
                        None \<Rightarrow> Some (0, c1)
                      | Some f \<Rightarrow> env_driver_init E f c1 cport bundle);
     if retval \<noteq> 0 then Some (retval, c2) else register_start E cport d bundle c2 }"

definition gb_register_driver ::
  "'w env \<Rightarrow> nat \<Rightarrow> int \<Rightarrow> nat option \<Rightarrow> 'w core \<Rightarrow> (int \<times> 'w core) option" where
  "gb_register_driver E cport bundle_id drv c =
     (let num_cports = manifest_get_num_cports_bundle (core_manifest c) bundle_id in
      if cport_count c \<le> cport then Some (- EINVAL, c)
      else
        case drv of
          None \<Rightarrow> Some (- EINVAL, c)
        | Some d \<Rightarrow> do {
            cp \<leftarrow> get_cp c cport;
            driver \<leftarrow> get_driver c d;
            if cp_driver cp \<noteq> None then Some (- EEXIST, c)
            else if drv_op_handlers driver = None \<and> 0 < drv_op_handlers_count driver
              then Some (- EINVAL, c)
            else if 0 \<le> bundle_id \<and> int (manifest_get_max_bundle_id (core_manifest c)) < bundle_id
              then Some (- EINVAL, c)
            else do {
              (r, c1) \<leftarrow> register_bundle E bundle_id num_cports c;
              (case r of
                 Inl e \<Rightarrow> Some (e, c1)
               | Inr bundle \<Rightarrow> register_init E cport d bundle c1) } })"

section \<open>Connections and events\<close>

definition gb_listen :: "'w env \<Rightarrow> nat \<Rightarrow> 'w core \<Rightarrow> (int \<times> 'w core) option" where
  "gb_listen E cport c =
     (if cport_count c \<le> cport then Some (- EINVAL, c)
      else do {
        cp \<leftarrow> get_cp c cport;
        if cp_driver cp = None then Some (- EINVAL, c)
        else (let (r, w) = env_listen E (world c) cport in Some (r, c\<lparr>world := w\<rparr>)) })"

definition gb_stop_listening :: "'w env \<Rightarrow> nat \<Rightarrow> 'w core \<Rightarrow> (int \<times> 'w core) option" where
  "gb_stop_listening E cport c =
     (if cport_count c \<le> cport then Some (- EINVAL, c)
      else do {
        cp \<leftarrow> get_cp c cport;
        if cp_driver cp = None then Some (- EINVAL, c)
        else do {
          stop \<leftarrow> env_stop_listening E;
          let (r, w) = stop (world c) cport;
          Some (r, c\<lparr>world := w\<rparr>) } })"

datatype gb_event = GB_EVT_CONNECTED | GB_EVT_DISCONNECTED | GB_EVT_OTHER

definition gb_notify :: "'w env \<Rightarrow> nat \<Rightarrow> gb_event \<Rightarrow> 'w core \<Rightarrow> (int \<times> 'w core) option" where
  "gb_notify E cport event c =
     (if cport_count c \<le> cport then Some (- EINVAL, c)
      else do {
        cp \<leftarrow> get_cp c cport;
        (case cp_driver cp of
           None \<Rightarrow> Some (- ENOTCONN, c)
         | Some d \<Rightarrow> do {
             driver \<leftarrow> get_driver c d;
             (case event of
                GB_EVT_CONNECTED \<Rightarrow>
                  (case drv_connected driver of
                     None \<Rightarrow> Some (0, c)
                   | Some f \<Rightarrow> do { c1 \<leftarrow> env_driver_event E f c cport; Some (0, c1) })
              | GB_EVT_DISCONNECTED \<Rightarrow>
                  (case drv_disconnected driver of
                     None \<Rightarrow> Some (0, c)
                   | Some f \<Rightarrow> do { c1 \<leftarrow> env_driver_event E f c cport; Some (0, c1) })
              | GB_EVT_OTHER \<Rightarrow> Some (- EINVAL, c)) }) })"

definition gb_bundle_get_by_id :: "nat \<Rightarrow> 'w core \<Rightarrow> gb_bundle option option" where
  "gb_bundle_get_by_id bundle_id c =
     (if manifest_get_max_bundle_id (core_manifest c) < bundle_id then Some None
      else get_bundle c (int bundle_id))"

section \<open>Initialisation\<close>

definition new_cport :: gb_cport_driver where
  "new_cport = \<lparr>cp_driver = None, cp_tx_fifo = [], cp_rx_fifo = [], cp_rx_fifo_lock = 0,
     cp_thread = False, cp_exit_worker = False\<rparr>"

text \<open>\<open>unipro_cports\<close> is the value of \<^verbatim>\<open>unipro_cport_count()\<close>, \<open>transport\<close> whether the argument is
  non-null.\<close>

definition gb_init :: "'w env \<Rightarrow> nat \<Rightarrow> bool \<Rightarrow> 'w core \<Rightarrow> int \<times> 'w core" where
  "gb_init E unipro_cports transport c =
     (let num_bundles = manifest_get_max_bundle_id (core_manifest c) + 1 in
      if \<not> transport then (- EINVAL, c)
      else
        let (ok, w) = env_malloc E (world c) (4 * num_bundles); c1 = c\<lparr>world := w\<rparr> in
        if \<not> ok then (- ENOMEM, c1)
        else
          let c2 = c1\<lparr>g_bundle := replicate num_bundles None, cport_count := unipro_cports\<rparr>;
              (ok2, w2) = env_malloc E (world c2) (200 * unipro_cports);
              c3 = c2\<lparr>world := w2\<rparr> in
          if \<not> ok2 then (- ENOMEM, c3\<lparr>g_bundle := []\<rparr>)
          else (0, c3\<lparr>g_cport := replicate unipro_cports new_cport, request_id := 0,
                     transport_backend := True,
                     world := env_transport_init E (world c3)\<rparr>))"

text \<open>The Boolean is \<open>False\<close> when the join of a worker does not return.\<close>

fun deinit_loop :: "'w env \<Rightarrow> nat list \<Rightarrow> 'w core \<Rightarrow> (bool \<times> 'w core) option" where
  "deinit_loop E [] c = Some (True, c)"
| "deinit_loop E (i # is) c = do {
     (r, c1) \<leftarrow> gb_unregister_driver E i c;
     if r = None then Some (False, c1) else deinit_loop E is c1 }"

definition gb_deinit :: "'w env \<Rightarrow> 'w core \<Rightarrow> (bool \<times> 'w core) option" where
  "gb_deinit E c =
     (if \<not> transport_backend c then Some (True, c)
      else do {
        (ended, c1) \<leftarrow> deinit_loop E [0 ..< cport_count c] c;
        if \<not> ended then Some (False, c1)
        else
          let w = (case env_transport_exit E of None \<Rightarrow> world c1 | Some f \<Rightarrow> f (world c1)) in
          Some (True, c1\<lparr>g_cport := [], transport_backend := False, world := w\<rparr>) })"

end
