(* ===== verification/Gb_Core_Inv.thy ===== *)
theory Gb_Core_Inv
  imports Gb_Core
begin

text \<open>
  The invariant of the core and its preservation by every operation. \<open>h a\<close> is the number of
  references that code outside the fifos holds on operation \<open>a\<close> (a caller between create and
  destroy, the worker between dequeue and destroy). The invariant says that every count in the
  heap is the number of fifo entries, response pointers and outside references, that buffers hold
  what their headers claim, and that each semaphore counts the entries of its fifo and the wake-up
  of an unregistration.
\<close>

section \<open>The invariant\<close>

definition cp_refs :: "gb_cport_driver \<Rightarrow> nat \<Rightarrow> int" where
  "cp_refs cp a = int (count_list (cp_tx_fifo cp) a + count_list (cp_rx_fifo cp) (Rx_op a))"

definition fifo_refs :: "'w core \<Rightarrow> nat \<Rightarrow> int" where
  "fifo_refs c a = (\<Sum>cp \<leftarrow> g_cport c. cp_refs cp a)"

definition buffer_ok :: "bytes \<Rightarrow> bool" where
  "buffer_ok b \<longleftrightarrow> HDR_SIZE \<le> length b \<and> (\<exists>sz. hdr_size b = Some sz \<and> unat sz \<le> length b)"

definition op_ok :: "nat \<Rightarrow> gb_operation \<Rightarrow> bool" where
  "op_ok n op \<longleftrightarrow> op_cport op < n
     \<and> (\<exists>b. op_request_buffer op = Some b \<and> buffer_ok b)
     \<and> (\<forall>b. op_response_buffer op = Some b \<longrightarrow> buffer_ok b)"

definition cp_local :: "gb_cport_driver \<Rightarrow> bool" where
  "cp_local cp \<longleftrightarrow>
     cp_rx_fifo_lock cp = length (cp_rx_fifo cp) + (if cp_thread cp \<and> cp_exit_worker cp then 1 else 0)
     \<and> (cp_thread cp \<longrightarrow> cp_driver cp \<noteq> None)
     \<and> Rx_timedout \<notin> set (cp_rx_fifo cp) \<and> distinct (cp_tx_fifo cp)"

definition cp_driver_ok :: "gb_driver list \<Rightarrow> gb_cport_driver \<Rightarrow> bool" where
  "cp_driver_ok ds cp \<longleftrightarrow>
     (\<forall>d. cp_driver cp = Some d \<longrightarrow> d < length ds \<and> driver_ok (ds ! d))"

definition cp_links :: "'w core \<Rightarrow> nat \<Rightarrow> gb_cport_driver \<Rightarrow> bool" where
  "cp_links c p cp \<longleftrightarrow>
     (\<forall>a op. get_op c a = Some op \<longrightarrow>
        (a \<in> set (cp_tx_fifo cp) \<longrightarrow> op_cport op = p \<and> op_response op = None)
        \<and> (Rx_op a \<in> set (cp_rx_fifo cp) \<longrightarrow> op_cport op = p))"

definition cp_ok :: "'w core \<Rightarrow> nat \<Rightarrow> gb_cport_driver \<Rightarrow> bool" where
  "cp_ok c p cp \<longleftrightarrow> cp_local cp \<and> cp_driver_ok (core_drivers c) cp \<and> cp_links c p cp"

definition core_inv :: "(nat \<Rightarrow> int) \<Rightarrow> 'w core \<Rightarrow> bool" where
  "core_inv h c \<longleftrightarrow>
     heap_inv (\<lambda>a. fifo_refs c a + h a) (core_heap c)
     \<and> (\<forall>a. 0 \<le> h a)
     \<and> (\<forall>a op. get_op c a = Some op \<longrightarrow> op_ok (length (g_cport c)) op)
     \<and> (\<forall>p cp. get_cp c p = Some cp \<longrightarrow> cp_ok c p cp)
     \<and> cport_count c = length (g_cport c)"

section \<open>Accessors\<close>

named_theorems core_simps "rewriting of the core's accessors"

lemma get_put_op [core_simps]:
  "get_op (put_op a op c) b = (if a = b \<and> a < length (core_heap c) then Some op else get_op c b)"
  by (auto simp: get_op_def put_op_def hget_def hput_def)

lemma get_op_put_cp [core_simps, simp]: "get_op (put_cp p cp c) a = get_op c a"
  by (simp add: get_op_def put_cp_def)

lemma get_cp_put_op [core_simps, simp]: "get_cp (put_op a op c) p = get_cp c p"
  by (simp add: get_cp_def put_op_def)

lemma get_cp_put_cp [core_simps]:
  "get_cp (put_cp p cp c) q = (if p = q \<and> p < length (g_cport c) then Some cp else get_cp c q)"
  by (auto simp: get_cp_def put_cp_def)

lemma get_driver_put [core_simps, simp]:
  "get_driver (put_op a op c) d = get_driver c d" "get_driver (put_cp p cp c) d = get_driver c d"
  by (simp_all add: get_driver_def put_op_def put_cp_def)

lemma put_fields [core_simps, simp]:
  "g_cport (put_op a op c) = g_cport c" "cport_count (put_op a op c) = cport_count c"
  "world (put_op a op c) = world c" "length (core_heap (put_op a op c)) = length (core_heap c)"
  "core_heap (put_cp p cp c) = core_heap c" "cport_count (put_cp p cp c) = cport_count c"
  "world (put_cp p cp c) = world c" "length (g_cport (put_cp p cp c)) = length (g_cport c)"
  "core_drivers (put_op a op c) = core_drivers c" "core_drivers (put_cp p cp c) = core_drivers c"
  "core_heap (put_op a op c) = hput (core_heap c) a op" "tx_log (put_op a op c) = tx_log c"
  "tx_log (put_cp p cp c) = tx_log c" "request_id (put_op a op c) = request_id c"
  "request_id (put_cp p cp c) = request_id c"
  "transport_backend (put_op a op c) = transport_backend c"
  "transport_backend (put_cp p cp c) = transport_backend c"
  by (simp_all add: put_op_def put_cp_def)

lemma get_op_SomeD: "get_op c a = Some op \<Longrightarrow> a < length (core_heap c)"
  by (auto simp: get_op_def dest: hget_SomeD)

lemma get_cp_SomeD: "get_cp c p = Some cp \<Longrightarrow> p < length (g_cport c) \<and> g_cport c ! p = cp"
  by (auto simp: get_cp_def split: if_splits)

lemma get_world [core_simps, simp]:
  "get_op (c\<lparr>world := w\<rparr>) a = get_op c a" "get_cp (c\<lparr>world := w\<rparr>) p = get_cp c p"
  "get_driver (c\<lparr>world := w\<rparr>) d = get_driver c d"
  "get_op (c\<lparr>tx_log := l\<rparr>) a = get_op c a" "get_cp (c\<lparr>tx_log := l\<rparr>) p = get_cp c p"
  "get_driver (c\<lparr>tx_log := l\<rparr>) d = get_driver c d"
  "get_op (c\<lparr>request_id := i\<rparr>) a = get_op c a" "get_cp (c\<lparr>request_id := i\<rparr>) p = get_cp c p"
  "get_driver (c\<lparr>request_id := i\<rparr>) d = get_driver c d"
  "get_op (c\<lparr>tape := t\<rparr>) a = get_op c a" "get_cp (c\<lparr>tape := t\<rparr>) p = get_cp c p"
  "get_driver (c\<lparr>tape := t\<rparr>) d = get_driver c d"
  by (simp_all add: get_op_def get_cp_def get_driver_def)

lemma core_inv_world [simp]:
  "core_inv h (c\<lparr>world := w\<rparr>) = core_inv h c"
  "core_inv h (c\<lparr>tx_log := l\<rparr>) = core_inv h c"
  "core_inv h (c\<lparr>request_id := i\<rparr>) = core_inv h c"
  "core_inv h (c\<lparr>tape := t\<rparr>) = core_inv h c"
  by (simp_all add: core_inv_def fifo_refs_def cp_ok_def cp_links_def)

section \<open>References of the fifos\<close>

lemma sum_list_map_update:
  "i < length xs \<Longrightarrow>
     (\<Sum>x \<leftarrow> xs[i := y]. f x) = (\<Sum>x \<leftarrow> xs. f x) - f (xs ! i) + (f y :: int)"
proof (induction xs arbitrary: i)
  case Nil
  then show ?case by simp
next
  case (Cons x xs)
  then show ?case by (cases i) auto
qed

lemma fifo_refs_put_op [simp]: "fifo_refs (put_op a op c) b = fifo_refs c b"
  by (simp add: fifo_refs_def)

lemma fifo_refs_put_cp:
  "get_cp c p = Some cp \<Longrightarrow> fifo_refs (put_cp p cp' c) a = fifo_refs c a - cp_refs cp a + cp_refs cp' a"
  by (auto simp: fifo_refs_def put_cp_def dest!: get_cp_SomeD intro: sum_list_map_update)

lemma cp_refs_nonneg: "0 \<le> cp_refs cp a"
  by (simp add: cp_refs_def)

lemma fifo_refs_nonneg: "0 \<le> fifo_refs c a"
  unfolding fifo_refs_def by (rule sum_list_nonneg) (auto simp: cp_refs_nonneg)

lemma fifo_refs_ge: "get_cp c p = Some cp \<Longrightarrow> cp_refs cp a \<le> fifo_refs c a"
proof -
  assume "get_cp c p = Some cp"
  then have "cp \<in> set (g_cport c)" by (auto dest!: get_cp_SomeD)
  then show ?thesis
    unfolding fifo_refs_def
    by (intro member_le_sum_list) (auto simp: cp_refs_nonneg)
qed

section \<open>Elementary steps\<close>

lemma core_invD:
  assumes "core_inv h c"
  shows "heap_inv (\<lambda>a. fifo_refs c a + h a) (core_heap c)" and "0 \<le> h a"
    and "get_op c a = Some op \<Longrightarrow> op_ok (length (g_cport c)) op"
    and "get_cp c p = Some cp \<Longrightarrow> cp_ok c p cp" and "cport_count c = length (g_cport c)"
  using assms by (auto simp: core_inv_def)

text \<open>Whoever holds a reference finds a live operation with its buffers in order.\<close>

lemma core_inv_live:
  assumes inv: "core_inv h c" and "1 \<le> h a"
  obtains op cp b sz where "get_op c a = Some op" and "get_cp c (op_cport op) = Some cp"
    and "op_request_buffer op = Some b" and "HDR_SIZE \<le> length b" and "hdr_size b = Some sz"
    and "unat sz \<le> length b" and "op_ok (length (g_cport c)) op"
proof -
  have "1 \<le> fifo_refs c a + h a" using fifo_refs_nonneg[of c a] assms(2) by simp
  with heap_inv_live[OF core_invD(1)[OF inv, unfolded heap_inv_def]]
  obtain op where op: "get_op c a = Some op" by (metis get_op_def)
  from core_invD(3)[OF inv op] have "op_ok (length (g_cport c)) op" .
  with op that show ?thesis by (auto simp: op_ok_def buffer_ok_def get_cp_def)
qed

lemma core_inv_fifo_live:
  assumes inv: "core_inv h c" and "get_cp c p = Some cp" and "a \<in> set (cp_tx_fifo cp)"
  obtains op b where "get_op c a = Some op" and "op_request_buffer op = Some b" and "HDR_SIZE \<le> length b"
proof -
  have "1 \<le> cp_refs cp a"
    using assms(3) by (simp add: cp_refs_def) (metis One_nat_def Suc_leI count_list_0_iff gr0I nat_int_comparison(3) of_nat_1 of_nat_add trans_le_add1)
  with fifo_refs_ge[OF assms(2), of a] core_invD(2)[OF inv, of a]
  have "1 \<le> fifo_refs c a + h a" by simp
  with heap_inv_live[OF core_invD(1)[OF inv, unfolded heap_inv_def]]
  obtain op where op: "get_op c a = Some op" by (metis get_op_def)
  from core_invD(3)[OF inv op] op that show ?thesis by (auto simp: op_ok_def buffer_ok_def)
qed


lemma op_ok_cong:
  assumes "op_ok n op" and "op_cport op' = op_cport op"
    and "op_request_buffer op' = op_request_buffer op" and "op_response_buffer op' = op_response_buffer op"
  shows "op_ok n op'"
  using assms by (simp add: op_ok_def)

lemma cp_okI_same:
  assumes "cp_ok c p cp" and "core_drivers c' = core_drivers c"
    and "\<And>a op'. get_op c' a = Some op' \<Longrightarrow>
           (\<exists>op. get_op c a = Some op \<and> op_cport op' = op_cport op
                 \<and> (a \<in> set (cp_tx_fifo cp) \<longrightarrow> op_response op' = op_response op))"
  shows "cp_ok c' p cp"
proof -
  have "cp_links c' p cp"
    unfolding cp_links_def
  proof (intro allI impI)
    fix a op'
    assume "get_op c' a = Some op'"
    from assms(3)[OF this] obtain op where "get_op c a = Some op" "op_cport op' = op_cport op"
      "a \<in> set (cp_tx_fifo cp) \<longrightarrow> op_response op' = op_response op" by blast
    then show "(a \<in> set (cp_tx_fifo cp) \<longrightarrow> op_cport op' = p \<and> op_response op' = None)
        \<and> (Rx_op a \<in> set (cp_rx_fifo cp) \<longrightarrow> op_cport op' = p)"
      using assms(1) by (auto simp: cp_ok_def cp_links_def)
  qed
  then show ?thesis using assms(1,2) by (simp add: cp_ok_def)
qed

lemma same_but_countD:
  assumes "same_but_count op op'"
  shows "op_cport op' = op_cport op" "op_response op' = op_response op"
    "op_request_buffer op' = op_request_buffer op" "op_response_buffer op' = op_response_buffer op"
  using assms by (cases op; cases op'; simp add: same_but_count_def)+

lemma heap_inv_hput_same:
  assumes inv: "heap_inv ext H" and H: "hget H a = Some op"
    and same: "op_response op' = op_response op" "op_ref_count op' = op_ref_count op"
  shows "heap_inv ext (hput H a op')"
  unfolding heap_inv_def
proof (rule heap_inv_exceptI)
  fix b
  show "cell_ok (b \<in> {}) (ext b) (hget (hput H a op') b) (resp_refs {} (hput H a op') b)"
    using heap_inv_exceptD[OF inv[unfolded heap_inv_def], of b] H hget_SomeD[OF H] same
    by (cases "b = a") (simp_all add: resp_refs_hput_same[OF H same(1)])
qed

lemma get_op_heap [simp]: "get_op (c\<lparr>core_heap := H\<rparr>) b = hget H b"
  by (simp add: get_op_def)

lemma get_cp_heap [simp]: "get_cp (c\<lparr>core_heap := H\<rparr>) p = get_cp c p"
  by (simp add: get_cp_def)

text \<open>Writing an operation back with its links and count untouched.\<close>

lemma core_inv_put_op:
  assumes inv: "core_inv h c" and op: "get_op c a = Some op"
    and same: "op_response op' = op_response op" "op_ref_count op' = op_ref_count op"
      "op_cport op' = op_cport op"
    and ok: "op_ok (length (g_cport c)) op'"
  shows "core_inv h (put_op a op' c)"
proof -
  have "heap_inv (\<lambda>b. fifo_refs c b + h b) (hput (core_heap c) a op')"
    using core_invD(1)[OF inv] op same(1,2) unfolding get_op_def by (rule heap_inv_hput_same)
  moreover have "cp_ok (put_op a op' c) p cp" if "get_cp c p = Some cp" for p cp
    by (rule cp_okI_same[OF core_invD(4)[OF inv that]])
       (use op same in \<open>auto simp: core_simps split: if_splits\<close>)
  ultimately show ?thesis
    using inv ok by (auto simp: core_inv_def core_simps)
qed

lemma held_upd:
  "(\<lambda>b. f b + (h(a := h a + x)) b) = (\<lambda>b. f b + h b)(a := f a + h a + (x :: int))"
  "(\<lambda>b. f b + (h(a := h a - x)) b) = (\<lambda>b. f b + h b)(a := f a + h a - (x :: int))"
  by auto

text \<open>Dropping a held reference neither faults nor touches anything but counts.\<close>

lemma gb_operation_unref_ok:
  assumes inv: "core_inv h c" and "1 \<le> h a"
  obtains c' H w where "gb_operation_unref E a c = Some c'" and "core_inv (h(a := h a - 1)) c'"
    and "c' = c\<lparr>core_heap := H, world := w\<rparr>" and "heap_frame (core_heap c) H"
proof -
  have "1 \<le> fifo_refs c a + h a" using fifo_refs_nonneg[of c a] assms(2) by simp
  from heap_unref_inv[OF core_invD(1)[OF inv, unfolded heap_inv_def] this, of "env_free_buf E" "world c"]
  obtain H w where H: "heap_unref (env_free_buf E) a (core_heap c) (world c) = Some (H, w)"
    "heap_inv ((\<lambda>b. fifo_refs c b + h b)(a := fifo_refs c a + h a - 1)) H"
    "heap_frame (core_heap c) H"
    unfolding heap_inv_def by blast
  let ?c = "c\<lparr>core_heap := H, world := w\<rparr>"
  have fr: "\<exists>op. get_op c b = Some op \<and> same_but_count op op'" if "hget H b = Some op'" for b op'
    using that H(3) by (simp add: get_op_def heap_frame_def)
  have "fifo_refs ?c = fifo_refs c" by (simp add: fifo_refs_def fun_eq_iff)
  moreover have "cp_ok ?c p cp" if "get_cp c p = Some cp" for p cp
    by (rule cp_okI_same[OF core_invD(4)[OF inv that]]) (auto dest!: fr dest: same_but_countD)
  moreover have "op_ok (length (g_cport c)) op'" if "hget H b = Some op'" for b op'
  proof -
    from fr[OF that] obtain op where "get_op c b = Some op" "same_but_count op op'" by blast
    then show ?thesis using op_ok_cong[OF core_invD(3)[OF inv]] same_but_countD(1,3,4) by blast
  qed
  moreover have "\<forall>b. 0 \<le> (h(a := h a - 1)) b" using core_invD(2)[OF inv] assms(2) by simp
  ultimately have "core_inv (h(a := h a - 1)) ?c"
    using H(2) core_invD(5)[OF inv] unfolding core_inv_def held_upd by simp
  with H that show ?thesis by (simp add: gb_operation_unref_def)
qed

lemma gb_operation_ref_ok:
  assumes inv: "core_inv h c" and op: "get_op c a = Some op"
  shows "gb_operation_ref a c = Some (put_op a (op\<lparr>op_ref_count := op_ref_count op + 1\<rparr>) c)"
    and "core_inv (h(a := h a + 1)) (put_op a (op\<lparr>op_ref_count := op_ref_count op + 1\<rparr>) c)"
proof -
  have H: "hget (core_heap c) a = Some op" using op by (simp add: get_op_def)
  note r = heap_ref_inv[OF core_invD(1)[OF inv, unfolded heap_inv_def] H]
  show "gb_operation_ref a c = Some (put_op a (op\<lparr>op_ref_count := op_ref_count op + 1\<rparr>) c)"
    using r(1) by (simp add: gb_operation_ref_def put_op_def)
  let ?c = "put_op a (op\<lparr>op_ref_count := op_ref_count op + 1\<rparr>) c"
  have "cp_ok ?c p cp" if "get_cp c p = Some cp" for p cp
    by (rule cp_okI_same[OF core_invD(4)[OF inv that]])
       (use op in \<open>auto simp: core_simps split: if_splits\<close>)
  moreover have "op_ok (length (g_cport c)) op'" if "get_op ?c b = Some op'" for b op'
    using that core_invD(3)[OF inv] op op_ok_cong[OF core_invD(3)[OF inv op]]
    by (auto simp: core_simps split: if_splits)
  moreover have "\<forall>b. 0 \<le> (h(a := h a + 1)) b"
    using core_invD(2)[OF inv] by (simp add: add_nonneg_nonneg)
  ultimately show "core_inv (h(a := h a + 1)) ?c"
    using r(2) core_invD(5)[OF inv] unfolding core_inv_def held_upd heap_inv_def by simp
qed


section \<open>Moving references between a fifo and its user\<close>

text \<open>A cport is written back: what its fifos gain is what is held less, and conversely.\<close>

lemma core_inv_put_cp:
  assumes inv: "core_inv h c" and cp: "get_cp c p = Some cp" and ok: "cp_ok c p cp'"
    and refs: "\<And>b. cp_refs cp' b + h' b = cp_refs cp b + h b" and nonneg: "\<And>b. 0 \<le> h' b"
  shows "core_inv h' (put_cp p cp' c)"
proof -
  have "fifo_refs (put_cp p cp' c) b + h' b = fifo_refs c b + h b" for b
    using refs[of b] fifo_refs_put_cp[OF cp, of cp' b] by simp
  moreover have "cp_ok (put_cp p cp' c) q cq" if "get_cp (put_cp p cp' c) q = Some cq" for q cq
  proof -
    have "cp_ok c q cq"
      using that ok core_invD(4)[OF inv, of q cq] by (auto simp: core_simps split: if_splits)
    then show ?thesis by (rule cp_okI_same) auto
  qed
  ultimately show ?thesis
    using inv nonneg unfolding core_inv_def by (auto simp: core_simps)
qed

lemma count_list_pos: "a \<in> set xs \<Longrightarrow> 1 \<le> count_list xs a"
  using count_list_0_iff[of xs a] by (cases "count_list xs a") auto

lemma cp_refs_tx_remove:
  assumes "a \<in> set (cp_tx_fifo cp)"
  shows "cp_refs (cp\<lparr>cp_tx_fifo := remove1 a (cp_tx_fifo cp)\<rparr>) b = cp_refs cp b - (if a = b then 1 else 0)"
  using count_list_pos[OF assms] by (auto simp: cp_refs_def count_list_remove_once)

lemma core_inv_tx_remove:
  assumes inv: "core_inv h c" and cp: "get_cp c p = Some cp" and a: "a \<in> set (cp_tx_fifo cp)"
  shows "core_inv (h(a := h a + 1)) (put_cp p (cp\<lparr>cp_tx_fifo := remove1 a (cp_tx_fifo cp)\<rparr>) c)"
proof (rule core_inv_put_cp[OF inv cp])
  show "cp_ok c p (cp\<lparr>cp_tx_fifo := remove1 a (cp_tx_fifo cp)\<rparr>)"
    using core_invD(4)[OF inv cp]
    by (auto simp: cp_ok_def cp_local_def cp_driver_ok_def cp_links_def dest: notin_set_remove1)
  show "0 \<le> (h(a := h a + 1)) b" for b
    using core_invD(2)[OF inv, of b] core_invD(2)[OF inv, of a] by simp
qed (simp add: cp_refs_tx_remove[OF a])

lemma core_inv_tx_append:
  assumes inv: "core_inv h c" and cp: "get_cp c p = Some cp" and a: "a \<notin> set (cp_tx_fifo cp)"
    and h: "1 \<le> h a" and op: "get_op c a = Some op" "op_cport op = p" "op_response op = None"
  shows "core_inv (h(a := h a - 1)) (put_cp p (cp\<lparr>cp_tx_fifo := cp_tx_fifo cp @ [a]\<rparr>) c)"
proof (rule core_inv_put_cp[OF inv cp])
  show "cp_ok c p (cp\<lparr>cp_tx_fifo := cp_tx_fifo cp @ [a]\<rparr>)"
    using core_invD(4)[OF inv cp] a op
    by (auto simp: cp_ok_def cp_local_def cp_driver_ok_def cp_links_def)
  show "0 \<le> (h(a := h a - 1)) b" for b using core_invD(2)[OF inv, of b] h by simp
qed (simp add: cp_refs_def)

lemma core_inv_rx_append:
  assumes inv: "core_inv h c" and cp: "get_cp c p = Some cp"
    and h: "1 \<le> h a" and op: "get_op c a = Some op" "op_cport op = p"
  shows "core_inv (h(a := h a - 1))
     (put_cp p (cp\<lparr>cp_rx_fifo := cp_rx_fifo cp @ [Rx_op a],
                 cp_rx_fifo_lock := cp_rx_fifo_lock cp + 1\<rparr>) c)"
proof (rule core_inv_put_cp[OF inv cp])
  show "cp_ok c p (cp\<lparr>cp_rx_fifo := cp_rx_fifo cp @ [Rx_op a],
                 cp_rx_fifo_lock := cp_rx_fifo_lock cp + 1\<rparr>)"
    using core_invD(4)[OF inv cp] op
    by (auto simp: cp_ok_def cp_local_def cp_driver_ok_def cp_links_def)
  show "0 \<le> (h(a := h a - 1)) b" for b using core_invD(2)[OF inv, of b] h by simp
qed (simp add: cp_refs_def)

lemma core_inv_rx_get:
  assumes inv: "core_inv h c" and cp: "get_cp c p = Some cp" and rx: "cp_rx_fifo cp = Rx_op a # rest"
  shows "core_inv (h(a := h a + 1))
     (put_cp p (cp\<lparr>cp_rx_fifo_lock := cp_rx_fifo_lock cp - 1, cp_rx_fifo := rest\<rparr>) c)"
proof (rule core_inv_put_cp[OF inv cp])
  show "cp_ok c p (cp\<lparr>cp_rx_fifo_lock := cp_rx_fifo_lock cp - 1, cp_rx_fifo := rest\<rparr>)"
    using core_invD(4)[OF inv cp] rx
    by (auto simp: cp_ok_def cp_local_def cp_driver_ok_def cp_links_def)
  show "0 \<le> (h(a := h a + 1)) b" for b
    using core_invD(2)[OF inv, of b] core_invD(2)[OF inv, of a] by simp
qed (simp add: cp_refs_def rx)

text \<open>Attaching a response: the holder's reference on it becomes the pointer's.\<close>

lemma card_insert_if_new:
  "S' = (if P then insert a S else S) \<Longrightarrow> finite S \<Longrightarrow> a \<notin> S \<Longrightarrow> card S' = card S + (if P then 1 else 0)"
  by simp

lemma resp_refs_attach:
  assumes "hget H a = Some op" and "op_response op = None" and "op_response op' = Some r"
  shows "resp_refs {} (hput H a op') b = resp_refs {} H b + (if b = r then 1 else 0)"
proof -
  let ?S = "\<lambda>H. {i. i \<notin> {} \<and> (\<exists>op. hget H i = Some op \<and> op_response op = Some b)}"
  have "?S (hput H a op') = (if b = r then insert a (?S H) else ?S H)"
    using assms hget_SomeD[OF assms(1)] by auto
  moreover have "finite (?S H)" by (rule finite_resp)
  moreover have "a \<notin> ?S H" using assms by auto
  ultimately show ?thesis unfolding resp_refs_alt by (rule card_insert_if_new)
qed

lemma heap_inv_attach:
  assumes inv: "heap_inv ext H" and H: "hget H a = Some op" "op_response op = None"
    and op': "op_response op' = Some r" "op_ref_count op' = op_ref_count op" and e: "1 \<le> ext r"
  shows "heap_inv (ext(r := ext r - 1)) (hput H a op')"
  unfolding heap_inv_def
proof (rule heap_inv_exceptI)
  fix b
  show "cell_ok (b \<in> {}) ((ext(r := ext r - 1)) b) (hget (hput H a op') b) (resp_refs {} (hput H a op') b)"
    using heap_inv_exceptD[OF inv[unfolded heap_inv_def], of b] H hget_SomeD[OF H(1)] op' e
    by (cases "hget H b"; cases "b = a"; cases "b = r") (simp_all add: resp_refs_attach[OF H op'(1)])
qed

lemma core_inv_attach:
  assumes inv: "core_inv h c" and op: "get_op c a = Some op" "op_response op = None" and h: "1 \<le> h r"
    and free: "\<And>p cp. get_cp c p = Some cp \<Longrightarrow> a \<notin> set (cp_tx_fifo cp)"
  shows "core_inv (h(r := h r - 1)) (put_op a (op\<lparr>op_response := Some r\<rparr>) c)"
proof -
  let ?c = "put_op a (op\<lparr>op_response := Some r\<rparr>) c"
  have "1 \<le> fifo_refs c r + h r" using fifo_refs_nonneg[of c r] h by simp
  note heap = heap_inv_attach[OF core_invD(1)[OF inv] op[unfolded get_op_def], of "op\<lparr>op_response := Some r\<rparr>" r]
  have "cp_ok ?c p cp" if "get_cp c p = Some cp" for p cp
    by (rule cp_okI_same[OF core_invD(4)[OF inv that]])
       (use op free[OF that] in \<open>auto simp: core_simps split: if_splits\<close>)
  moreover have "op_ok (length (g_cport c)) op'" if "get_op ?c b = Some op'" for b op'
    using that core_invD(3)[OF inv] op_ok_cong[OF core_invD(3)[OF inv op(1)]]
    by (auto simp: core_simps split: if_splits)
  moreover have "\<forall>b. 0 \<le> (h(r := h r - 1)) b" using core_invD(2)[OF inv] h by simp
  ultimately show ?thesis
    using heap core_invD(5)[OF inv] \<open>1 \<le> fifo_refs c r + h r\<close> unfolding core_inv_def held_upd by simp
qed

end
