(* ===== verification/Gb_Core_Steps.thy ===== *)
theory Gb_Core_Steps
  imports Gb_Core_Inv
begin

text \<open>
  Every operation of the core keeps the invariant and does not fault under it: creation, sending
  and receiving, responses, the worker, registration. What the core calls through pointers is
  the interface \<open>core_env\<close>: a handler works on an operation that the worker holds and may write
  its response; a callback and the hooks of a driver keep the invariant.
\<close>

section \<open>Creating operations\<close>

lemma resp_refs_append:
  assumes "\<And>op. x = Some op \<Longrightarrow> op_response op = None"
  shows "resp_refs {} (H @ [x]) b = resp_refs {} H b"
  unfolding resp_refs_alt using assms
  by (intro arg_cong[where f = card] Collect_cong) (auto simp: hget_def nth_append less_Suc_eq)

lemma heap_inv_append:
  assumes inv: "heap_inv ext H" and x: "\<And>op. x = Some op \<Longrightarrow> op_response op = None \<and> op_ref_count op = 1"
  shows "heap_inv (ext(length H := (case x of None \<Rightarrow> 0 | Some _ \<Rightarrow> 1))) (H @ [x])"
  unfolding heap_inv_def
proof (rule heap_inv_exceptI)
  fix b
  have "resp_refs {} H (length H) = 0"
    using heap_inv_exceptD[OF inv[unfolded heap_inv_def], of "length H"] by (simp add: hget_def)
  then show "cell_ok (b \<in> {}) ((ext(length H := (case x of None \<Rightarrow> 0 | Some _ \<Rightarrow> 1))) b)
      (hget (H @ [x]) b) (resp_refs {} (H @ [x]) b)"
    using heap_inv_exceptD[OF inv[unfolded heap_inv_def], of b] x resp_refs_append[of x H b]
    by (cases "b = length H"; cases x) (auto simp: hget_def nth_append split: if_splits)
qed

lemma core_inv_fresh:
  assumes "core_inv h c"
  shows "h (length (core_heap c)) = 0" and "fifo_refs c (length (core_heap c)) = 0"
proof -
  let ?a = "length (core_heap c)"
  have "fifo_refs c ?a + h ?a = 0"
    using heap_inv_exceptD[OF core_invD(1)[OF assms, unfolded heap_inv_def], of ?a]
    by (simp add: hget_def)
  then show "h ?a = 0" "fifo_refs c ?a = 0"
    using core_invD(2)[OF assms, of ?a] fifo_refs_nonneg[of c ?a] by auto
qed

lemma hget_append_cell [simp]: "hget (H @ [x]) b = (if b = length H then x else hget H b)"
  by (auto simp: hget_def nth_append)

lemma core_inv_append:
  assumes inv: "core_inv h c"
    and x: "\<And>op. x = Some op \<Longrightarrow> op_response op = None \<and> op_ref_count op = 1 \<and> op_ok (length (g_cport c)) op"
  shows "core_inv (h(length (core_heap c) := (case x of None \<Rightarrow> 0 | Some _ \<Rightarrow> 1)))
     (c\<lparr>core_heap := core_heap c @ [x]\<rparr>)"
proof -
  let ?a = "length (core_heap c)" and ?c = "c\<lparr>core_heap := core_heap c @ [x]\<rparr>"
  let ?v = "(case x of None \<Rightarrow> 0 | Some _ \<Rightarrow> 1) :: int"
  have ext: "(\<lambda>b. fifo_refs c b + (h(?a := ?v)) b) = (\<lambda>b. fifo_refs c b + h b)(?a := ?v)"
    using core_inv_fresh[OF inv] by auto
  have none: "a \<noteq> ?a" if "get_cp c p = Some cp" and "a \<in> set (cp_tx_fifo cp) \<or> Rx_op a \<in> set (cp_rx_fifo cp)"
    for p cp a
    using fifo_refs_ge[OF that(1), of a] core_inv_fresh(2)[OF inv] that(2)
      count_list_pos[of a "cp_tx_fifo cp"] count_list_pos[of "Rx_op a" "cp_rx_fifo cp"]
    by (auto simp: cp_refs_def)
  have "cp_ok ?c p cp" if cp: "get_cp c p = Some cp" for p cp
    using core_invD(4)[OF inv cp] none[OF cp]
    by (auto simp: cp_ok_def cp_links_def get_op_def)
  moreover have "op_ok (length (g_cport c)) op" if "get_op ?c b = Some op" for b op
    using that x core_invD(3)[OF inv] by (auto simp: get_op_def split: if_splits)
  moreover have "heap_inv (\<lambda>b. fifo_refs c b + (h(?a := ?v)) b) (core_heap c @ [x])"
    unfolding ext by (rule heap_inv_append[OF core_invD(1)[OF inv]]) (use x in auto)
  moreover have "\<forall>b. 0 \<le> (h(?a := ?v)) b"
    using core_invD(2)[OF inv] by (auto split: option.splits)
  ultimately show ?thesis
    using core_invD(5)[OF inv] by (simp add: core_inv_def fifo_refs_def)
qed

lemma put_op_append [simp]:
  "put_op (length (core_heap c)) op' (c\<lparr>core_heap := core_heap c @ [x]\<rparr>) =
     c\<lparr>core_heap := core_heap c @ [Some op']\<rparr>"
  by (simp add: put_op_def hput_def)

text \<open>The request that a successful creation leaves behind.\<close>

definition created :: "nat \<Rightarrow> u8 \<Rightarrow> nat \<Rightarrow> gb_operation" where
  "created cport ty n = (new_operation cport)\<lparr>op_request_buffer :=
     Some (hdr_bytes (word_of_nat (n + HDR_SIZE)) 0 ty 0 @ replicate n 0)\<rparr>"

lemma created_header:
  "wr16 (replicate (n + 8) 0) 0 v \<bind> (\<lambda>b. wr8 b 4 ty) = Some (hdr_bytes v 0 ty 0 @ replicate n 0)"
proof -
  have rep: "replicate (n + 8) (0 :: u8) = [0, 0, 0, 0, 0, 0, 0, 0] @ replicate n 0"
    by (simp add: numeral_eq_Suc)
  show ?thesis
    unfolding rep wr_hdr_fields bind.bind_lunit
    by (simp add: wr8_def hdr_bytes_def bytes16_def)
qed

lemma gb_operation_create_cases:
  assumes "n + HDR_SIZE < 2 ^ 32"
  obtains (invalid) "cport_count c \<le> cport" and "gb_operation_create E cport ty n c = Some (None, c)"
  | (no_memory) w where "gb_operation_create E cport ty n c = Some (None, c\<lparr>world := w\<rparr>)"
  | (no_buffer) w where "gb_operation_create E cport ty n c =
      Some (None, c\<lparr>world := w, core_heap := core_heap c @ [None]\<rparr>)"
  | (created) w where "cport < cport_count c" and "gb_operation_create E cport ty n c =
      Some (Some (length (core_heap c)), c\<lparr>world := w, core_heap := core_heap c @ [Some (created cport ty n)]\<rparr>)"
proof (cases "cport_count c \<le> cport")
  case True
  then show ?thesis using invalid by (simp add: gb_operation_create_def)
next
  case False
  obtain ok w where m: "env_malloc E (world c) 100 = (ok, w)" by fastforce
  show ?thesis
  proof (cases ok)
    case f: False
    then show ?thesis
      using no_memory False m by (simp add: gb_operation_create_def gb_operation_create_raw_def)
  next
    case t: True
    have n: "size_add n 8 = n + 8" using assms by simp
    obtain ok2 w2 where a: "env_alloc_buf E w (n + 8) = (ok2, w2)" by fastforce
    let ?c = "c\<lparr>world := w2\<rparr>"
    have raw: "gb_operation_create_raw E cport c =
        (Some (length (core_heap c)), c\<lparr>world := w, core_heap := core_heap c @ [Some (new_operation cport)]\<rparr>)"
      using False m t by (simp add: gb_operation_create_raw_def)
    have eq: "gb_operation_create E cport ty n c =
        (if \<not> ok2 then Some (None, c\<lparr>world := w2, core_heap := core_heap c @ [None]\<rparr>)
         else wr16 (replicate (n + 8) 0) 0 (word_of_nat (n + 8)) \<bind> (\<lambda>b. wr8 b 4 ty) \<bind>
           (\<lambda>b. Some (Some (length (core_heap c)), c\<lparr>world := w2, core_heap := core_heap c @
                 [Some ((new_operation cport)\<lparr>op_request_buffer := Some b\<rparr>)]\<rparr>)))"
      using False a by (simp add: gb_operation_create_def raw n Let_def hfree_def get_op_def hget_def put_op_def hput_def)
    show ?thesis
      using no_buffer[of w2] created[of w2] False unfolding eq created_header
      by (cases ok2) (simp_all add: created_def)
  qed
qed

lemma buffer_ok_hdr:
  assumes "unat sz \<le> 8 + length p"
  shows "buffer_ok (hdr_bytes sz i t r @ p)"
  using assms by (simp add: buffer_ok_def)

lemma op_ok_created: "cport < k \<Longrightarrow> op_ok k (created cport ty n)"
proof -
  have "unat (word_of_nat (n + 8) :: u16) \<le> n + 8"
    by (simp add: unat_of_nat del: of_nat_add)
  then show "cport < k \<Longrightarrow> ?thesis"
    by (auto simp: op_ok_def created_def new_operation_def simp del: of_nat_add intro!: buffer_ok_hdr)
qed

text \<open>The operation that a received message becomes.\<close>

definition received :: "nat \<Rightarrow> bytes \<Rightarrow> gb_operation" where
  "received cport msg = (new_operation cport)\<lparr>op_request_buffer := Some msg\<rparr>"

lemma gb_rx_create_operation_cases:
  assumes "HDR_SIZE \<le> sz" and "sz \<le> length data" and "sz < 2 ^ 32"
  obtains (invalid) "cport_count c \<le> cport" and "gb_rx_create_operation E cport data sz c = Some (None, c)"
  | (no_memory) w where "gb_rx_create_operation E cport data sz c = Some (None, c\<lparr>world := w\<rparr>)"
  | (no_buffer) w where "gb_rx_create_operation E cport data sz c =
      Some (None, c\<lparr>world := w, core_heap := core_heap c @ [None]\<rparr>)"
  | (created) w where "cport < cport_count c" and "gb_rx_create_operation E cport data sz c =
      Some (Some (length (core_heap c)),
            c\<lparr>world := w, core_heap := core_heap c @ [Some (received cport (take sz data))]\<rparr>)"
proof -
  have "sz - 8 + 8 < 2 ^ 32" using assms(1,3) by simp
  then show ?thesis
  proof (cases rule: gb_operation_create_cases[of "sz - 8" c cport E 0])
    case created: (created w)
    have "wr_slice (hdr_bytes v 0 0 0 @ replicate (sz - 8) 0) 0 (take sz data) = Some (take sz data)" for v
      using assms by (simp add: wr_slice_def)
    with created that(4)[of w] assms show ?thesis
      by (simp add: gb_rx_create_operation_def get_op_def put_op_def hput_def created_def rd_slice_def
          received_def)
  qed (use assms that(1-3) in \<open>simp_all add: gb_rx_create_operation_def\<close>)
qed

section \<open>What a step leaves alone\<close>

definition cp_rx :: "gb_cport_driver \<Rightarrow> gb_cport_driver" where
  "cp_rx cp = cp\<lparr>cp_tx_fifo := []\<rparr>"

definition rx_frame :: "'w core \<Rightarrow> 'w core \<Rightarrow> bool" where
  "rx_frame c c' \<longleftrightarrow> map cp_rx (g_cport c') = map cp_rx (g_cport c)
     \<and> core_drivers c' = core_drivers c \<and> transport_backend c' = transport_backend c"

lemma rx_frame_refl [simp]: "rx_frame c c"
  by (simp add: rx_frame_def)

lemma rx_frame_trans [trans]: "rx_frame a b \<Longrightarrow> rx_frame b c \<Longrightarrow> rx_frame a c"
  by (simp add: rx_frame_def)

lemma rx_frame_same [intro]:
  "g_cport c' = g_cport c \<Longrightarrow> core_drivers c' = core_drivers c \<Longrightarrow>
     transport_backend c' = transport_backend c \<Longrightarrow> rx_frame c c'"
  by (simp add: rx_frame_def)

lemma rx_frame_length: "rx_frame c c' \<Longrightarrow> length (g_cport c') = length (g_cport c)"
  unfolding rx_frame_def by (metis length_map)

lemma rx_frame_get_cp:
  assumes "rx_frame c c'" and "get_cp c p = Some cp"
  obtains cp' where "get_cp c' p = Some cp'" and "cp_rx cp' = cp_rx cp"
proof -
  have p: "p < length (g_cport c)" "g_cport c ! p = cp" using get_cp_SomeD[OF assms(2)] by auto
  have "map cp_rx (g_cport c') ! p = map cp_rx (g_cport c) ! p"
    using assms(1) by (simp add: rx_frame_def)
  then have "cp_rx (g_cport c' ! p) = cp_rx cp"
    using p rx_frame_length[OF assms(1)] by simp
  with p rx_frame_length[OF assms(1)] that show ?thesis by (simp add: get_cp_def)
qed

lemma cp_rxD:
  assumes "cp_rx cp' = cp_rx cp"
  shows "cp_driver cp' = cp_driver cp" "cp_rx_fifo cp' = cp_rx_fifo cp"
    "cp_rx_fifo_lock cp' = cp_rx_fifo_lock cp" "cp_thread cp' = cp_thread cp"
    "cp_exit_worker cp' = cp_exit_worker cp"
  using assms by (cases cp; cases cp'; simp add: cp_rx_def)+

lemma rx_frame_put_cp:
  assumes "get_cp c p = Some cp" and "cp_rx cp' = cp_rx cp"
  shows "rx_frame c (put_cp p cp' c)"
proof -
  have "map cp_rx ((g_cport c)[p := cp']) = map cp_rx (g_cport c)"
    using get_cp_SomeD[OF assms(1)] assms(2) by (metis list_update_id map_update)
  then show ?thesis by (simp add: rx_frame_def put_cp_def)
qed


section \<open>Responses\<close>

text \<open>
  \<open>is_response op result msg\<close>: the message answers the request of \<open>op\<close>. \<open>resp_echo op\<close>: so would
  the response buffer, if the operation has one.
\<close>

definition is_response :: "gb_operation \<Rightarrow> u8 \<Rightarrow> bytes \<Rightarrow> bool" where
  "is_response op result msg \<longleftrightarrow>
     (\<exists>req ident ty. op_request_buffer op = Some req \<and> hdr_id req = Some ident \<and> hdr_type req = Some ty
        \<and> hdr_id msg = Some ident \<and> hdr_type msg = Some (GB_TYPE_RESPONSE_FLAG OR ty)
        \<and> hdr_result msg = Some result)
     \<and> HDR_SIZE \<le> length msg \<and> map_option unat (hdr_size msg) = Some (length msg)"

definition resp_echo :: "gb_operation \<Rightarrow> bool" where
  "resp_echo op \<longleftrightarrow>
     (\<forall>b. op_response_buffer op = Some b \<longrightarrow>
       (\<exists>req ident ty sz. op_request_buffer op = Some req \<and> hdr_id req = Some ident
          \<and> hdr_type req = Some ty \<and> hdr_id b = Some ident
          \<and> hdr_type b = Some (GB_TYPE_RESPONSE_FLAG OR ty)
          \<and> hdr_size b = Some sz \<and> HDR_SIZE \<le> unat sz \<and> unat sz \<le> length b))"

lemma rd16_update_other: "i \<noteq> j \<Longrightarrow> i + 1 \<noteq> j \<Longrightarrow> rd16 (b[j := v]) i = rd16 b i"
  by (simp add: rd16_def rd8_def)

lemma rd8_update_other: "i \<noteq> j \<Longrightarrow> rd8 (b[j := v]) i = rd8 b i"
  by (simp add: rd8_def)

lemma rd16_take: "i + 2 \<le> n \<Longrightarrow> rd16 (take n b) i = rd16 b i"
  by (simp add: rd16_def rd8_def)

lemma rd8_take: "i < n \<Longrightarrow> rd8 (take n b) i = rd8 b i"
  by (simp add: rd8_def)

lemma buffer_ok_update: "buffer_ok b \<Longrightarrow> 2 \<le> j \<Longrightarrow> buffer_ok (b[j := v])"
  by (simp add: buffer_ok_def rd16_update_other)

text \<open>How the core looks after an operation's own fields were written and something was sent.\<close>

lemma core_inv_sent:
  assumes inv: "core_inv h c" and op: "get_op c a = Some op"
    and rb: "\<And>b. rb = Some b \<Longrightarrow> buffer_ok b"
  shows "core_inv h (put_op a (op\<lparr>op_response_buffer := rb, op_has_responded := d\<rparr>) c)"
proof (rule core_inv_put_op[OF inv op])
  show "op_ok (length (g_cport c)) (op\<lparr>op_response_buffer := rb, op_has_responded := d\<rparr>)"
    using core_invD(3)[OF inv op] rb by (auto simp: op_ok_def)
qed simp_all

lemma put_op_world: "put_op a op (c\<lparr>world := w\<rparr>) = (put_op a op c)\<lparr>world := w\<rparr>"
  "put_op a op (c\<lparr>tx_log := l\<rparr>) = (put_op a op c)\<lparr>tx_log := l\<rparr>"
  by (simp_all add: put_op_def)

lemma world_log: "c\<lparr>tx_log := l, world := w\<rparr> = c\<lparr>world := w, tx_log := l\<rparr>"
  by simp

lemma put_put_op: "put_op a op' (put_op a op c) = put_op a op' c"
  by (simp add: put_op_def hput_def)

text \<open>The state after a send: the operation's response fields, the world and the log.\<close>

definition after_send :: "nat \<Rightarrow> gb_operation \<Rightarrow> bytes \<Rightarrow> int \<Rightarrow> 'w core \<Rightarrow> 'w core \<Rightarrow> bool" where
  "after_send a op msg r c c' \<longleftrightarrow>
     (\<exists>rb d w. c' = (put_op a (op\<lparr>op_response_buffer := rb, op_has_responded := d\<rparr>) c)
                     \<lparr>world := w, tx_log := tx_log c @ [(op_cport op, msg, r)]\<rparr>
        \<and> (\<forall>b. rb = Some b \<longrightarrow> buffer_ok b) \<and> (d \<longrightarrow> r = 0))"

lemma after_send_inv:
  assumes "core_inv h c" and "get_op c a = Some op" and "after_send a op msg r c c'"
  shows "core_inv h c'" and "g_cport c' = g_cport c" and "core_drivers c' = core_drivers c"
    and "tx_log c' = tx_log c @ [(op_cport op, msg, r)]" and "transport_backend c' = transport_backend c"
  using assms core_inv_sent[OF assms(1,2)] by (auto simp: after_send_def)

lemma not_responded_upd:
  "\<not> op_has_responded op \<Longrightarrow>
     op\<lparr>op_response_buffer := rb, op_has_responded := False\<rparr> = op\<lparr>op_response_buffer := rb\<rparr>"
  by (cases op) simp

lemma after_sendI:
  assumes "c' = (put_op a (op\<lparr>op_response_buffer := rb, op_has_responded := d\<rparr>) c)
             \<lparr>world := w, tx_log := tx_log c @ [(op_cport op, msg, r)]\<rparr>"
    and "\<And>b. rb = Some b \<Longrightarrow> buffer_ok b" and "d \<Longrightarrow> r = 0"
  shows "after_send a op msg r c c'"
  using assms unfolding after_send_def by blast

text \<open>The octets that go out for a response buffer.\<close>

definition response_octets :: "u8 \<Rightarrow> bytes \<Rightarrow> bytes" where
  "response_octets result b = take (unat (the (hdr_size b))) (b[5 := result])"

lemma response_octets_echo:
  assumes "resp_echo op" and "op_response_buffer op = Some b"
  shows "is_response op result (response_octets result b)"
proof -
  from assms obtain req ident ty sz where e: "op_request_buffer op = Some req" "hdr_id req = Some ident"
      "hdr_type req = Some ty" "hdr_id b = Some ident" "hdr_type b = Some (GB_TYPE_RESPONSE_FLAG OR ty)"
      "hdr_size b = Some sz" "8 \<le> unat sz" "unat sz \<le> length b"
    unfolding resp_echo_def by blast
  then show ?thesis
    by (auto simp: response_octets_def is_response_def rd16_take rd8_take rd16_update_other
        rd8_update_other rd8_def)
qed

lemma send_response_buffer_ok:
  assumes nr: "\<not> op_has_responded op" and op: "get_op c a = Some op"
    and b: "op_response_buffer op = Some b" and buf: "buffer_ok b"
  obtains r c' where "send_response_buffer E a result fresh c = Some (r, c')"
    and "after_send a op (response_octets result b) r c c'"
proof -
  from buf obtain sz where e: "8 \<le> length b" "hdr_size b = Some sz" "unat sz \<le> length b"
    by (auto simp: buffer_ok_def)
  let ?b = "b[5 := result]" and ?msg = "take (unat sz) (b[5 := result])"
  have w: "wr8 b 5 result = Some ?b" using e by (simp add: wr8_def)
  have sz: "hdr_size ?b = Some sz" using e by (simp add: rd16_update_other)
  have msg: "rd_slice ?b 0 (unat sz) = Some ?msg" using e by (simp add: rd_slice_def)
  have bok: "buffer_ok ?b" using buf by (rule buffer_ok_update) simp
  have a: "a < length (core_heap c)" using get_op_SomeD[OF op] .
  have oct: "response_octets result b = ?msg" using e by (simp add: response_octets_def)
  obtain r w' where s: "env_send E (world c) (op_cport op) ?msg = (r, w')" by fastforce
  have "\<exists>c'. send_response_buffer E a result fresh c = Some (r, c') \<and> after_send a op ?msg r c c'"
  proof (cases "r = 0")
    case True
    then show ?thesis
      using op b w sz msg s a bok
      by (auto simp: send_response_buffer_def Let_def transport_send_def core_simps put_op_world
          put_put_op intro!: after_sendI[where rb = "Some ?b" and d = True and w = w'])
  next
    case False
    show ?thesis
    proof (cases fresh)
      case True
      then show ?thesis
        using False op b w sz msg s a not_responded_upd[OF nr]
        by (auto simp: send_response_buffer_def Let_def transport_send_def core_simps put_op_world
            put_put_op world_log
            intro!: after_sendI[where rb = None and d = False and w = "env_free_buf E w' (Some ?b)"])
    next
      case nf: False
      then show ?thesis
        using False op b w sz msg s a bok not_responded_upd[OF nr]
        by (auto simp: send_response_buffer_def Let_def transport_send_def core_simps put_op_world
            put_put_op intro!: after_sendI[where rb = "Some ?b" and d = False and w = w'])
    qed
  qed
  with oct that show ?thesis by auto
qed

lemma after_send_cong:
  assumes "after_send a (op\<lparr>op_response_buffer := rb\<rparr>) msg r (put_op a (op\<lparr>op_response_buffer := rb\<rparr>) (c\<lparr>world := w\<rparr>)) c'"
  shows "after_send a op msg r c c'"
  using assms by (auto simp: after_send_def put_op_world put_put_op)

lemma is_response_cong: "is_response (op\<lparr>op_response_buffer := rb\<rparr>) res msg = is_response op res msg"
  by (simp add: is_response_def)

lemma is_response_hdr:
  assumes "op_request_buffer op = Some req" and "hdr_id req = Some ident" and "hdr_type req = Some ty"
  shows "is_response op res (hdr_bytes 8 ident (GB_TYPE_RESPONSE_FLAG OR ty) res)"
  using assms by (simp add: is_response_def)

lemma put_op_same: "get_op c a = Some op \<Longrightarrow> put_op a op c = c"
  by (cases c) (auto simp: put_op_def hput_def get_op_def list_update_same_conv dest!: hget_SomeD)

lemma gb_operation_send_oom_response_ok:
  assumes op: "get_op c a = Some op" and cp: "get_cp c (op_cport op) = Some cp" "\<not> cp_exit_worker cp"
    and req: "op_request_buffer op = Some req" "hdr_id req = Some ident" "hdr_type req = Some ty"
    and nr: "\<not> op_has_responded op" "op_response_buffer op = None"
  obtains r c' where "gb_operation_send_oom_response E a c = Some (r, c')"
    and "after_send a op (hdr_bytes 8 ident (GB_TYPE_RESPONSE_FLAG OR ty) GB_OP_NO_MEMORY) r c c'"
proof -
  let ?msg = "hdr_bytes 8 ident (GB_TYPE_RESPONSE_FLAG OR ty) GB_OP_NO_MEMORY"
  obtain r w where s: "env_send E (world c) (op_cport op) ?msg = (r, w)" by fastforce
  have same: "put_op a (op\<lparr>op_response_buffer := None, op_has_responded := False\<rparr>) c = c"
    using put_op_same[OF op] nr by (cases op) simp
  show ?thesis
  proof (rule that)
    show "gb_operation_send_oom_response E a c =
        Some (r, c\<lparr>world := w, tx_log := tx_log c @ [(op_cport op, ?msg, r)]\<rparr>)"
      using op cp req s by (simp add: gb_operation_send_oom_response_def transport_send_def)
    show "after_send a op ?msg r c (c\<lparr>world := w, tx_log := tx_log c @ [(op_cport op, ?msg, r)]\<rparr>)"
      by (rule after_sendI[where rb = None and d = False and w = w]) (simp_all add: same)
  qed
qed

lemma op_ok_request:
  assumes "op_ok n op"
  obtains req ident ty sz where "op_request_buffer op = Some req" and "hdr_id req = Some ident"
    and "hdr_type req = Some ty" and "HDR_SIZE \<le> length req" and "hdr_size req = Some sz"
    and "unat sz \<le> length req"
proof -
  from assms obtain req where "op_request_buffer op = Some req" "buffer_ok req" by (auto simp: op_ok_def)
  with that show ?thesis by (auto simp: buffer_ok_def rd16_Some rd8_Some)
qed

text \<open>Without a response buffer: one is made, or the response says that there is no memory.\<close>

lemma send_response_allocated:
  assumes op: "get_op c a = Some op" and cp: "get_cp c (op_cport op) = Some cp" "\<not> cp_exit_worker cp"
    and nr: "\<not> op_has_responded op" and none: "op_response_buffer op = None"
    and req: "op_request_buffer op = Some req" and id: "hdr_id req = Some ident" "hdr_type req = Some ty"
  obtains r c' msg res where "gb_operation_send_response E a result c = Some (r, c')"
    and "after_send a op msg r c c'" and "is_response op res msg" and "res = result \<or> res = GB_OP_NO_MEMORY"
proof -
  obtain okb w where al: "env_alloc_buf E (world c) 8 = (okb, w)" by fastforce
  have eq: "gb_operation_send_response E a result c = (do {
          (ok, c1) \<leftarrow> core_alloc_response E a 0 c;
          if \<not> ok then gb_operation_send_oom_response E a c1
          else send_response_buffer E a result True c1 })"
    using op cp nr none by (simp add: gb_operation_send_response_def)
  have a: "a < length (core_heap c)" using get_op_SomeD[OF op] .
  show ?thesis
  proof (cases okb)
    case False
    let ?op = "op\<lparr>op_response_buffer := None\<rparr>" and ?c = "put_op a (op\<lparr>op_response_buffer := None\<rparr>) (c\<lparr>world := w\<rparr>)"
    have al2: "core_alloc_response E a 0 c = Some (False, ?c)"
      using op al False by (simp add: core_alloc_response_def gb_operation_alloc_response_def)
    have "get_op ?c a = Some ?op" "get_cp ?c (op_cport ?op) = Some cp"
      using a cp by (simp_all add: core_simps)
    from gb_operation_send_oom_response_ok[OF this cp(2), of req ident ty E] req id nr none obtain r c'
      where "gb_operation_send_oom_response E a ?c = Some (r, c')"
        "after_send a ?op (hdr_bytes 8 ident (GB_TYPE_RESPONSE_FLAG OR ty) GB_OP_NO_MEMORY) r ?c c'"
      by auto
    with that[OF _ after_send_cong is_response_hdr[OF req id]] eq al2 show ?thesis by simp
  next
    case True
    let ?b = "hdr_bytes 8 ident (GB_TYPE_RESPONSE_FLAG OR ty) 0"
    let ?op = "op\<lparr>op_response_buffer := Some ?b\<rparr>" and ?c = "put_op a (op\<lparr>op_response_buffer := Some ?b\<rparr>) (c\<lparr>world := w\<rparr>)"
    have al0: "env_alloc_buf E (world c) (0 + 8) = (True, w)" using al True by simp
    have "gb_operation_alloc_response (env_alloc_buf E) (world c) op 0 = Some (True, ?op, w)"
      using alloc_response_ok[where sz = 0 and alloc_buf = "env_alloc_buf E" and w = "world c" and w' = w, OF al0 req id] by simp
    then have al2: "core_alloc_response E a 0 c = Some (True, ?c)"
      using op by (simp add: core_alloc_response_def)
    have g: "get_op ?c a = Some ?op" using a by (simp add: core_simps)
    have echo: "resp_echo ?op" using req id by (simp add: resp_echo_def)
    have "buffer_ok ?b" using buffer_ok_hdr[of 8 "[]"] by simp
    with send_response_buffer_ok[OF _ g, of ?b E result True] nr obtain r c'
      where "send_response_buffer E a result True ?c = Some (r, c')"
        "after_send a ?op (response_octets result ?b) r ?c c'" by auto
    with that[OF _ after_send_cong] eq al2 response_octets_echo[OF echo, of ?b result]
    show ?thesis by (simp add: is_response_cong)
  qed
qed

lemma gb_operation_send_response_ok:
  assumes inv: "core_inv h c" and op: "get_op c a = Some op"
    and cp: "get_cp c (op_cport op) = Some cp" "\<not> cp_exit_worker cp" and nr: "\<not> op_has_responded op"
  obtains r c' msg res where "gb_operation_send_response E a result c = Some (r, c')"
    and "after_send a op msg r c c'" and "resp_echo op \<Longrightarrow> is_response op res msg"
    and "res = result \<or> res = GB_OP_NO_MEMORY \<and> op_response_buffer op = None"
proof (cases "op_response_buffer op")
  case (Some b)
  then have "buffer_ok b" using core_invD(3)[OF inv op] by (simp add: op_ok_def)
  from send_response_buffer_ok[OF nr op Some this, of E result False] obtain r c'
    where "send_response_buffer E a result False c = Some (r, c')"
      "after_send a op (response_octets result b) r c c'" by metis
  with that response_octets_echo[of op b result] op cp nr Some
  show ?thesis by (simp add: gb_operation_send_response_def)
next
  case None
  from core_invD(3)[OF inv op] obtain req ident ty where req: "op_request_buffer op = Some req"
    "hdr_id req = Some ident" "hdr_type req = Some ty" by (rule op_ok_request)
  from send_response_allocated[OF op cp nr None this, of E result] that None show ?thesis by metis
qed

text \<open>In every case the response leaves the invariant and the cports as they are.\<close>

lemma gb_operation_send_response_inv:
  assumes inv: "core_inv h c" and op: "get_op c a = Some op"
  shows "wp False (gb_operation_send_response E a result c)
     (\<lambda>(r, c'). core_inv h c' \<and> g_cport c' = g_cport c \<and> core_drivers c' = core_drivers c
        \<and> transport_backend c' = transport_backend c)"
proof -
  have "op_cport op < length (g_cport c)" using core_invD(3)[OF inv op] by (simp add: op_ok_def)
  then obtain cp where cp: "get_cp c (op_cport op) = Some cp" by (simp add: get_cp_def)
  show ?thesis
  proof (cases "cp_exit_worker cp \<or> op_has_responded op")
    case True
    then show ?thesis using inv op cp by (auto simp: gb_operation_send_response_def)
  next
    case False
    then have "\<not> cp_exit_worker cp" "\<not> op_has_responded op" by auto
    from gb_operation_send_response_ok[OF inv op cp this, of E result] obtain r c' msg
      where "gb_operation_send_response E a result c = Some (r, c')" "after_send a op msg r c c'" by metis
    then show ?thesis using after_send_inv[OF inv op] by simp
  qed
qed

section \<open>Requests\<close>

lemma wr_id_fields:
  assumes "8 \<le> length b"
  obtains b' where "wr16 b 2 v = Some b'" and "length b' = length b" and "hdr_size b' = hdr_size b"
    and "hdr_id b' = Some v" and "hdr_type b' = hdr_type b" and "drop 4 b' = drop 4 b"
proof (rule that)
  let ?b = "take 2 b @ bytes16 v @ drop 4 b"
  show "wr16 b 2 v = Some ?b" using assms by (simp add: wr16_Some)
  show "length ?b = length b" "drop 4 ?b = drop 4 b" using assms by auto
  show "hdr_size ?b = hdr_size b" using assms by (cases b) (auto simp: rd16_def rd8_def nth_append)
  show "hdr_id ?b = Some v" using assms by (simp add: rd16_append_right rd16_bytes16)
  show "hdr_type ?b = hdr_type b" using assms by (simp add: rd8_append_right) (simp add: rd8_def)
qed

lemma set_request_id_ok:
  assumes "op_ok n op"
  obtains op' b b' where "set_request_id v op = Some op'" and "op_ok n op'"
    and "op_request_buffer op = Some b" and "op_request_buffer op' = Some b'"
    and "op' = op\<lparr>op_request_buffer := Some b'\<rparr>" and "hdr_id b' = Some v"
    and "length b' = length b" and "hdr_size b' = hdr_size b" and "hdr_type b' = hdr_type b" and "drop 4 b' = drop 4 b"
proof -
  from assms obtain b where b: "op_request_buffer op = Some b" "buffer_ok b" by (auto simp: op_ok_def)
  then have "8 \<le> length b" by (simp add: buffer_ok_def)
  then obtain b' where b': "wr16 b 2 v = Some b'" "length b' = length b" "hdr_size b' = hdr_size b"
    "hdr_id b' = Some v" "hdr_type b' = hdr_type b" "drop 4 b' = drop 4 b" by (rule wr_id_fields)
  show ?thesis
  proof (rule that[of "op\<lparr>op_request_buffer := Some b'\<rparr>" b b'])
    show "set_request_id v op = Some (op\<lparr>op_request_buffer := Some b'\<rparr>)"
      using b b' by (simp add: set_request_id_def)
    show "op_ok n (op\<lparr>op_request_buffer := Some b'\<rparr>)"
      using assms b b' by (auto simp: op_ok_def buffer_ok_def)
  qed (use b b' in simp_all)
qed

text \<open>The transmission: the fifo as it is, or with the request at its end while the send runs.\<close>

definition request_message :: "gb_operation \<Rightarrow> u16 \<Rightarrow> bytes \<Rightarrow> bool" where
  "request_message op ident msg \<longleftrightarrow>
     (\<exists>b sz b'. op_request_buffer op = Some b \<and> hdr_size b = Some sz \<and> hdr_id b' = Some ident
        \<and> length b' = length b \<and> hdr_size b' = hdr_size b \<and> drop 4 b' = drop 4 b \<and> msg = take (unat sz) b')"

lemma core_inv_send: "core_inv h (snd (transport_send E p msg c)) = core_inv h c"
  by (simp add: transport_send_def split: prod.splits)

lemma send_request_unidirectional:
  assumes inv: "core_inv h c" and op: "get_op c a = Some op"
    and cp: "get_cp c (op_cport op) = Some cp" "\<not> cp_exit_worker cp"
  obtains r c' msg where "gb_operation_send_request E a cb False c = Some (r, c')" and "core_inv h c'"
    and "g_cport c' = g_cport c" and "core_drivers c' = core_drivers c" and "transport_backend c' = transport_backend c"
    and "tx_log c' = tx_log c @ [(op_cport op, msg, r)]"
    and "request_message op 0 msg" and "request_id c' = request_id c"
proof -
  note ok = core_invD(3)[OF inv op]
  from set_request_id_ok[OF ok, of 0] obtain op' b b' where op': "set_request_id 0 op = Some op'"
    "op_ok (length (g_cport c)) op'" "op_request_buffer op = Some b" "op_request_buffer op' = Some b'"
    "op' = op\<lparr>op_request_buffer := Some b'\<rparr>" "hdr_id b' = Some 0" "length b' = length b"
    "hdr_size b' = hdr_size b" "drop 4 b' = drop 4 b" by metis
  from op'(2,4) obtain sz where sz: "hdr_size b' = Some sz" "unat sz \<le> length b'"
    by (auto simp: op_ok_def buffer_ok_def)
  let ?c = "put_op a op' c" and ?msg = "take (unat sz) b'"
  have a: "a < length (core_heap c)" using get_op_SomeD[OF op] .
  have inv': "core_inv h ?c" by (rule core_inv_put_op[OF inv op]) (use op' in simp_all)
  obtain r w where s: "env_send E (world c) (op_cport op) ?msg = (r, w)" by fastforce
  have "gb_operation_send_request E a cb False c =
      Some (r, ?c\<lparr>world := w, tx_log := tx_log c @ [(op_cport op, ?msg, r)]\<rparr>)"
    using op cp op'(1,4) sz s a
    by (simp add: gb_operation_send_request_def core_simps rd_slice_def transport_send_def)
  moreover have "request_message op 0 ?msg"
    using op' sz unfolding request_message_def by (intro exI[of _ b] exI[of _ sz] exI[of _ b']) simp
  ultimately show ?thesis using inv' that by simp
qed


lemma remove1_last: "a \<notin> set xs \<Longrightarrow> remove1 a (xs @ [a]) = xs"
  by (induction xs) auto

lemma put_put_cp: "put_cp p cp' (put_cp p cp c) = put_cp p cp' c"
  by (simp add: put_cp_def)

lemma put_cp_same: "get_cp c p = Some cp \<Longrightarrow> g_cport (put_cp p cp c) = g_cport c"
  by (auto simp: put_cp_def dest!: get_cp_SomeD)

lemma fun_upd_cancel [simp]: "(h(a := h a + 1))(a := h a) = h" "(h(a := h a - 1))(a := h a) = (h :: nat \<Rightarrow> int)"
  by auto

text \<open>The request is queued: the holder keeps its reference, the fifo has one of its own.\<close>

lemma queue_request_ok:
  assumes inv: "core_inv h c" and op: "get_op c a = Some op" "op_response op = None"
    and h: "0 \<le> h a" and cp: "get_cp c (op_cport op) = Some cp" and free: "a \<notin> set (cp_tx_fifo cp)"
    and id: "next_request_id (request_id c) = (ident, rid)"
  obtains c' op' b b' where "queue_request E a cb c = Some c'" and "core_inv h c'"
    and "g_cport c' = (g_cport c)[op_cport op := cp\<lparr>cp_tx_fifo := cp_tx_fifo cp @ [a]\<rparr>]"
    and "core_drivers c' = core_drivers c" and "transport_backend c' = transport_backend c"
    and "tx_log c' = tx_log c" and "request_id c' = rid" and "get_op c' a = Some op'"
    and "op_request_buffer op = Some b" and "op_request_buffer op' = Some b'" and "hdr_id b' = Some ident"
    and "length b' = length b" and "hdr_size b' = hdr_size b" and "drop 4 b' = drop 4 b"
proof -
  let ?p = "op_cport op"
  from set_request_id_ok[OF core_invD(3)[OF inv op(1)], of ident] obtain op1 b b' where op1:
    "set_request_id ident op = Some op1" "op_ok (length (g_cport c)) op1" "op_request_buffer op = Some b"
    "op_request_buffer op1 = Some b'" "op1 = op\<lparr>op_request_buffer := Some b'\<rparr>" "hdr_id b' = Some ident"
    "length b' = length b" "hdr_size b' = hdr_size b" "drop 4 b' = drop 4 b" by metis
  obtain now w where clock: "env_clock E (world c) = (now, w)" by fastforce
  define op2 where "op2 = op1\<lparr>op_time := now, op_callback := cb\<rparr>"
  have op2: "op_ok (length (g_cport c)) op2" "op_response op2 = None" "op_ref_count op2 = op_ref_count op"
    "op_cport op2 = ?p" "op_request_buffer op2 = Some b'"
    using op1 op by (auto simp: op2_def op_ok_def)
  define c1 where "c1 = put_op a op2 (c\<lparr>request_id := rid, world := w\<rparr>)"
  have inv1: "core_inv h c1"
    unfolding c1_def by (rule core_inv_put_op[where op = op]) (use inv op op2 in simp_all)
  have g1: "get_op c1 a = Some op2" using get_op_SomeD[OF op(1)] by (simp add: c1_def core_simps)
  define op3 where "op3 = op2\<lparr>op_ref_count := op_ref_count op2 + 1\<rparr>"
  define c2 where "c2 = put_op a op3 c1"
  note ref = gb_operation_ref_ok[OF inv1 g1, folded op3_def, folded c2_def]
  have g2: "get_op c2 a = Some op3" "get_cp c2 ?p = Some cp" "op_cport op3 = ?p" "op_response op3 = None"
    "op_request_buffer op3 = Some b'"
    using get_op_SomeD[OF g1] cp op2 by (simp_all add: c2_def c1_def core_simps op3_def)
  let ?c3 = "put_cp ?p (cp\<lparr>cp_tx_fifo := cp_tx_fifo cp @ [a]\<rparr>) c2"
  have inv3: "core_inv h ?c3"
    using core_inv_tx_append[OF ref(2) g2(2) free _ g2(1,3,4)] h by simp
  have "queue_request E a cb c = Some ?c3"
    using op op1(1) id clock ref(1) g2(2) free
    by (simp add: queue_request_def sys_dlist_append_def flip: op2_def c1_def)
  moreover have "g_cport ?c3 = (g_cport c)[?p := cp\<lparr>cp_tx_fifo := cp_tx_fifo cp @ [a]\<rparr>]"
    by (simp add: put_cp_def c2_def c1_def)
  ultimately show ?thesis
    using inv3 g2 op1 by (intro that[of ?c3 op3 b b']) (simp_all add: c2_def c1_def)
qed

text \<open>
  A request that wants a response. After a successful send it is at the end of its cport's
  transmit fifo; after a failed one the cports are as they were. The references held are the same
  in either case.
\<close>

lemma send_request_response:
  assumes inv: "core_inv h c" and h: "0 \<le> h a" and op: "get_op c a = Some op" "op_response op = None"
    and cp: "get_cp c (op_cport op) = Some cp" "\<not> cp_exit_worker cp" and free: "a \<notin> set (cp_tx_fifo cp)"
  obtains r c' msg where "gb_operation_send_request E a cb True c = Some (r, c')" and "core_inv h c'"
    and "g_cport c' = (if r = 0 then (g_cport c)[op_cport op := cp\<lparr>cp_tx_fifo := cp_tx_fifo cp @ [a]\<rparr>]
                       else g_cport c)"
    and "core_drivers c' = core_drivers c" and "transport_backend c' = transport_backend c"
    and "tx_log c' = tx_log c @ [(op_cport op, msg, r)]"
    and "request_message op (fst (next_request_id (request_id c))) msg"
    and "request_id c' = snd (next_request_id (request_id c))"
proof -
  let ?p = "op_cport op" and ?cp = "cp\<lparr>cp_tx_fifo := cp_tx_fifo cp @ [a]\<rparr>"
  obtain ident rid where id: "next_request_id (request_id c) = (ident, rid)" by fastforce
  from set_request_id_ok[OF core_invD(3)[OF inv op(1)], of 0] obtain op0 b0 b where op0:
    "set_request_id 0 op = Some op0" "op_ok (length (g_cport c)) op0" "op_request_buffer op = Some b0"
    "op_request_buffer op0 = Some b" "op0 = op\<lparr>op_request_buffer := Some b\<rparr>"
    "length b = length b0" "hdr_size b = hdr_size b0" "drop 4 b = drop 4 b0" by metis
  let ?c0 = "put_op a op0 c"
  have inv0: "core_inv h ?c0" by (rule core_inv_put_op[OF inv op(1)]) (use op0 in simp_all)
  have g0: "get_op ?c0 a = Some op0" "op_response op0 = None" "op_cport op0 = ?p" "get_cp ?c0 ?p = Some cp"
    using get_op_SomeD[OF op(1)] op0(5) op cp by (simp_all add: core_simps)
  have id0: "next_request_id (request_id ?c0) = (ident, rid)" using id by simp
  from queue_request_ok[OF inv0 g0(1,2) h g0(4)[folded g0(3)] free id0, of E cb, unfolded g0(3)]
  obtain c3 op3 bx b1 where q: "queue_request E a cb ?c0 = Some c3" "core_inv h c3"
    "g_cport c3 = (g_cport c)[?p := ?cp]" "core_drivers c3 = core_drivers c"
    "transport_backend c3 = transport_backend c" "tx_log c3 = tx_log c" "request_id c3 = rid"
    "get_op c3 a = Some op3" "op_request_buffer op0 = Some bx" "op_request_buffer op3 = Some b1"
    "hdr_id b1 = Some ident" "length b1 = length bx" "hdr_size b1 = hdr_size bx" "drop 4 b1 = drop 4 bx"
    by (simp add: put_op_def) blast
  have bx: "bx = b" using op0(4) q(9) by simp
  from core_invD(3)[OF q(2,8)] q(10) obtain sz where sz: "hdr_size b1 = Some sz" "unat sz \<le> length b1"
    by (auto simp: op_ok_def buffer_ok_def)
  have p: "?p < length (g_cport c)" "g_cport c ! ?p = cp" using get_cp_SomeD[OF cp(1)] by auto
  have cp3: "get_cp c3 ?p = Some ?cp" using p q(3) by (simp add: get_cp_def)
  let ?msg = "take (unat sz) b1"
  obtain r w' where s: "env_send E (world c3) ?p ?msg = (r, w')" by fastforce
  let ?c4 = "c3\<lparr>world := w', tx_log := tx_log c @ [(?p, ?msg, r)]\<rparr>"
  have undo: "cp\<lparr>cp_tx_fifo := remove1 a (cp_tx_fifo cp @ [a])\<rparr> = cp" using remove1_last[OF free] by simp
  have unf: "gb_operation_send_request E a cb True c =
      (if r \<noteq> 0 then gb_operation_unref E a (put_cp ?p cp ?c4) \<bind> (\<lambda>c'. Some (r, c')) else Some (r, ?c4))"
    using op cp op0(1) q(1,6,8,10) sz s cp3 undo
    by (simp add: gb_operation_send_request_def transport_send_def rd_slice_def)
  have msg: "request_message op (fst (next_request_id (request_id c))) ?msg"
    using op0 q bx sz id unfolding request_message_def
    by (intro exI[of _ b0] exI[of _ sz] exI[of _ b1]) simp
  show ?thesis
  proof (cases "r = 0")
    case True
    then show ?thesis using unf q msg id by (intro that[of r ?c4 ?msg]) simp_all
  next
    case False
    have "core_inv (h(a := h a + 1)) (put_cp ?p cp ?c4)"
      using core_inv_tx_remove[of h ?c4 ?p ?cp a] q(2) cp3 undo by simp
    moreover have "1 \<le> (h(a := h a + 1)) a" using h by simp
    ultimately obtain c' H w2 where
      u: "gb_operation_unref E a (put_cp ?p cp ?c4) = Some c'"
        "core_inv ((h(a := h a + 1))(a := (h(a := h a + 1)) a - 1)) c'"
        "c' = (put_cp ?p cp ?c4)\<lparr>core_heap := H, world := w2\<rparr>"
      by (rule gb_operation_unref_ok) blast
    have inv': "core_inv h c'" using u(2) by simp
    have "g_cport c' = g_cport c" using u(3) q(3) p by (simp add: put_cp_def list_update_same_conv)
    then show ?thesis
      using False unf u(1,3) inv' q msg id by (intro that[of r c' ?msg]) (simp_all add: put_cp_def)
  qed
qed

end
