(* ===== verification/Gb_Core_Worker.thy ===== *)
theory Gb_Core_Worker
  imports Gb_Core_Steps
begin

text \<open>
  The receive path and the worker: what arrives is appended to the receive fifo, the worker takes
  it out, handles it as a request or as a response and drops it. The interface \<open>core_env\<close> states
  what the core relies on in the functions it calls through pointers; under it every step of the
  worker keeps the invariant, and, when the interface promises that these functions do not fault
  (\<open>mf = False\<close>), does not fault.
\<close>

section \<open>The interface to drivers\<close>

text \<open>What a handler may do: write the response of its operation and act on the world.\<close>

definition handler_frame :: "nat \<Rightarrow> 'w core \<Rightarrow> 'w core \<Rightarrow> bool" where
  "handler_frame a c c' \<longleftrightarrow> rx_frame c c' \<and> tx_log c' = tx_log c \<and>
     (\<forall>op. get_op c a = Some op \<longrightarrow>
        (\<exists>op'. get_op c' a = Some op' \<and> op_request_buffer op' = op_request_buffer op
           \<and> op_cport op' = op_cport op \<and> op_has_responded op' = op_has_responded op))"

text \<open>What a driver may do when its cport is connected or disconnected: leave the operations alone.\<close>

definition event_frame :: "'w core \<Rightarrow> 'w core \<Rightarrow> bool" where
  "event_frame c c' \<longleftrightarrow> rx_frame c c' \<and> tx_log c' = tx_log c
     \<and> (\<forall>a op. get_op c a = Some op \<longrightarrow> get_op c' a = Some op)"

lemma handler_frame_refl [simp]: "handler_frame a c c"
  by (auto simp: handler_frame_def)

lemma event_frame_refl [simp]: "event_frame c c"
  by (simp add: event_frame_def)

locale core_env =
  fixes E :: "'w env" and mf :: bool
  assumes handler: "core_inv h c \<Longrightarrow> 1 \<le> h a \<Longrightarrow>
      wp mf (env_handler E f c a) (\<lambda>(r, c'). core_inv h c' \<and> handler_frame a c c')"
    and fast_handler: "core_inv h c \<Longrightarrow>
      wp mf (env_fast_handler E f c p buf) (\<lambda>c'. core_inv h c' \<and> rx_frame c c')"
    and callback: "core_inv h c \<Longrightarrow> 1 \<le> h a \<Longrightarrow>
      wp mf (env_callback E f c a) (\<lambda>c'. core_inv h c' \<and> rx_frame c c')"
    and driver_init: "core_inv h c \<Longrightarrow>
      wp mf (env_driver_init E f c p b) (\<lambda>(r, c'). core_inv h c' \<and> rx_frame c c')"
    and driver_exit: "core_inv h c \<Longrightarrow>
      wp mf (env_driver_exit E f c p b) (\<lambda>c'. core_inv h c' \<and> rx_frame c c')"
    and driver_event: "core_inv h c \<Longrightarrow>
      wp mf (env_driver_event E f c p) (\<lambda>c'. core_inv h c' \<and> event_frame c c')"

text \<open>
  Handlers whose response buffer, if they make one, still answers the request, provided the request
  has the size of a message (a received one has).
\<close>

definition short_request :: "gb_operation \<Rightarrow> bool" where
  "short_request op \<longleftrightarrow> (\<forall>b. op_request_buffer op = Some b \<longrightarrow> length b < 65536)"

locale core_env_echo = core_env +
  assumes handler_echo: "core_inv h c \<Longrightarrow> 1 \<le> h a \<Longrightarrow> get_op c a = Some op \<Longrightarrow> resp_echo op \<Longrightarrow>
      short_request op \<Longrightarrow>
      env_handler E f c a = Some (r, c') \<Longrightarrow> get_op c' a = Some op' \<Longrightarrow> resp_echo op'"

section \<open>Elementary facts for the steps\<close>

lemma hold_drop: "(f(a := f a + 1))(a := (f(a := f a + 1)) a - 1) = (f :: nat \<Rightarrow> int)"
  by auto

lemma held_cport:
  assumes "core_inv h c" and "get_op c a = Some op"
  obtains cp where "get_cp c (op_cport op) = Some cp"
  using core_invD(3)[OF assms] that by (simp add: op_ok_def get_cp_def)

lemma held_op:
  assumes "core_inv h c" and "1 \<le> h a"
  obtains op req ident ty where "get_op c a = Some op" and "op_request_buffer op = Some req"
    and "hdr_id req = Some ident" and "hdr_type req = Some ty" and "HDR_SIZE \<le> length req"
proof -
  from core_inv_live[of h c a] assms obtain op where op: "get_op c a = Some op"
    "op_ok (length (g_cport c)) op" by metis
  from op_ok_request[OF op(2)] op(1) that show ?thesis by metis
qed

lemma unref_wp:
  assumes "core_inv h c" and "1 \<le> h a"
  shows "wp mf (gb_operation_unref E a c) (\<lambda>c'. core_inv (h(a := h a - 1)) c' \<and> rx_frame c c'
     \<and> g_cport c' = g_cport c \<and> tx_log c' = tx_log c)"
proof (rule wp_weaken)
  from gb_operation_unref_ok[OF assms, of E] obtain c' H w where "gb_operation_unref E a c = Some c'"
    "core_inv (h(a := h a - 1)) c'" "c' = c\<lparr>core_heap := H, world := w\<rparr>" by metis
  then show "wp False (gb_operation_unref E a c) (\<lambda>c'. core_inv (h(a := h a - 1)) c' \<and> rx_frame c c'
     \<and> g_cport c' = g_cport c \<and> tx_log c' = tx_log c)"
    by (auto intro!: rx_frame_same)
qed

text \<open>The matching request of a response: the first one in the fifo with its id.\<close>

definition request_of :: "'w core \<Rightarrow> u16 \<Rightarrow> nat \<Rightarrow> bool" where
  "request_of c ident a \<longleftrightarrow>
     (\<exists>op b. get_op c a = Some op \<and> op_request_buffer op = Some b \<and> hdr_id b = Some ident)"

lemma find_request_spec:
  assumes "\<And>a. a \<in> set as \<Longrightarrow> \<exists>op b. get_op c a = Some op \<and> op_request_buffer op = Some b \<and> HDR_SIZE \<le> length b"
  shows "find_request c ident as = Some (find (request_of c ident) as)"
  using assms
proof (induction as)
  case Nil
  then show ?case by simp
next
  case (Cons a as)
  from Cons.prems[of a] obtain op b where op: "get_op c a = Some op" "op_request_buffer op = Some b"
    "8 \<le> length b" by auto
  then obtain i where "hdr_id b = Some i" by (simp add: rd16_Some)
  with op Cons.IH Cons.prems show ?case by (auto simp: request_of_def)
qed

lemma find_request_ok:
  assumes "core_inv h c" and "get_cp c p = Some cp"
  shows "find_request c ident (cp_tx_fifo cp) = Some (find (request_of c ident) (cp_tx_fifo cp))"
  by (rule find_request_spec) (metis core_inv_fifo_live[OF assms])

lemma find_SomeD: "find P xs = Some x \<Longrightarrow> x \<in> set xs \<and> P x"
  by (induction xs) (auto split: if_splits)

text \<open>Taking the matching request out of the fifo and attaching the response to it.\<close>

lemma attach_response:
  assumes inv: "core_inv h c" and r: "get_op c r = Some operation" and cp: "get_cp c p = Some cp"
    and a: "a \<in> set (cp_tx_fifo cp)"
  obtains c1 op where
    "gb_operation_ref r (put_cp p (cp\<lparr>cp_tx_fifo := remove1 a (cp_tx_fifo cp)\<rparr>) c) = Some c1"
    and "get_op c1 a = Some op" and "core_inv (h(a := h a + 1)) (put_op a (op\<lparr>op_response := Some r\<rparr>) c1)"
    and "rx_frame c (put_op a (op\<lparr>op_response := Some r\<rparr>) c1)"
    and "tx_log c1 = tx_log c"
    and "g_cport c1 = (g_cport c)[p := cp\<lparr>cp_tx_fifo := remove1 a (cp_tx_fifo cp)\<rparr>]"
proof -
  let ?cp = "cp\<lparr>cp_tx_fifo := remove1 a (cp_tx_fifo cp)\<rparr>" and ?h1 = "h(a := h a + 1)"
  let ?c0 = "put_cp p ?cp c"
  let ?c1 = "put_op r (operation\<lparr>op_ref_count := op_ref_count operation + 1\<rparr>) ?c0"
  have inv0: "core_inv ?h1 ?c0" by (rule core_inv_tx_remove[OF inv cp a])
  note ref = gb_operation_ref_ok[OF inv0, of r operation] r
  from core_inv_fifo_live[OF inv cp a] obtain op0 where op0: "get_op c a = Some op0" by metis
  then have link: "op_cport op0 = p" "op_response op0 = None"
    using core_invD(4)[OF inv cp] a by (auto simp: cp_ok_def cp_links_def)
  have lt: "r < length (core_heap c)" using get_op_SomeD[OF r] .
  define op where "op = (if a = r then operation\<lparr>op_ref_count := op_ref_count operation + 1\<rparr> else op0)"
  have op: "get_op ?c1 a = Some op" "op_response op = None" "op_cport op = p"
    using op0 r link lt by (auto simp: op_def core_simps)
  have free: "a \<notin> set (cp_tx_fifo cq)" if "get_cp ?c1 q = Some cq" for q cq
  proof (cases "q = p")
    case True
    then have "cq = ?cp" using that get_cp_SomeD[OF cp] by (auto simp: core_simps)
    moreover have "distinct (cp_tx_fifo cp)"
      using core_invD(4)[OF inv cp] by (simp add: cp_ok_def cp_local_def)
    ultimately show ?thesis by simp
  next
    case False
    then have "get_cp c q = Some cq" using that by (simp add: core_simps)
    then show ?thesis using core_invD(4)[OF inv] op0 link False by (auto simp: cp_ok_def cp_links_def)
  qed
  have "core_inv ((?h1(r := ?h1 r + 1))(r := (?h1(r := ?h1 r + 1)) r - 1)) (put_op a (op\<lparr>op_response := Some r\<rparr>) ?c1)"
    by (rule core_inv_attach[OF ref(2) op(1,2)]) (use r free core_invD(2)[OF inv0, of r] in auto)
  then have inv2: "core_inv ?h1 (put_op a (op\<lparr>op_response := Some r\<rparr>) ?c1)" unfolding hold_drop .
  have "rx_frame c (put_cp p ?cp c)" by (rule rx_frame_put_cp[OF cp]) (simp add: cp_rx_def)
  then have "rx_frame c (put_op a (op\<lparr>op_response := Some r\<rparr>) ?c1)"
    by (rule rx_frame_trans) (auto intro!: rx_frame_same)
  moreover have "gb_operation_ref r ?c0 = Some ?c1" using ref(1) r by simp
  moreover have "g_cport ?c1 = (g_cport c)[p := ?cp]" by (simp add: put_cp_def)
  ultimately show ?thesis using that[OF _ op(1) inv2] by simp
qed

context core_env
begin

lemma call_callback_ok:
  assumes inv: "core_inv h c" and h: "1 \<le> h a"
  shows "wp mf (call_callback E a c) (\<lambda>c'. core_inv h c' \<and> rx_frame c c')"
proof -
  from held_op[of h c a] inv h obtain op where op: "get_op c a = Some op" by metis
  have "core_inv h (put_op a (op\<lparr>op_sync_sem := op_sync_sem op + 1\<rparr>) c)"
    by (rule core_inv_put_op[OF inv op]) (use core_invD(3)[OF inv op] in \<open>simp_all add: op_ok_def\<close>)
  moreover have "wp mf (env_callback E f c a) (\<lambda>c'. core_inv h c' \<and> rx_frame c c')" for f
    using inv h by (rule callback)
  ultimately show ?thesis
    using inv by (auto simp: call_callback_def op split: option.splits callback.splits intro!: rx_frame_same)
qed

lemma gb_process_response_ok:
  assumes inv: "core_inv h c" and h: "1 \<le> h r"
  shows "wp mf (gb_process_response E r c) (\<lambda>c'. core_inv h c' \<and> rx_frame c c')"
proof -
  from held_op[of h c r] inv h obtain operation b ident ty where op: "get_op c r = Some operation"
    "op_request_buffer operation = Some b" "hdr_id b = Some ident" "hdr_type b = Some ty" by metis
  from held_cport[OF inv op(1)] obtain cp where cp: "get_cp c (op_cport operation) = Some cp" by metis
  note fr = find_request_ok[OF inv cp, of ident]
  show ?thesis
  proof (cases "find (request_of c ident) (cp_tx_fifo cp)")
    case None
    then show ?thesis using op cp fr inv by (simp add: gb_process_response_def)
  next
    case (Some a)
    then have "a \<in> set (cp_tx_fifo cp)" by (auto dest: find_SomeD)
    from attach_response[OF inv op(1) cp this] obtain c1 aop where at:
      "gb_operation_ref r (put_cp (op_cport operation)
         (cp\<lparr>cp_tx_fifo := remove1 a (cp_tx_fifo cp)\<rparr>) c) = Some c1"
      "get_op c1 a = Some aop" "core_inv (h(a := h a + 1)) (put_op a (aop\<lparr>op_response := Some r\<rparr>) c1)"
      "rx_frame c (put_op a (aop\<lparr>op_response := Some r\<rparr>) c1)" by metis
    let ?c2 = "put_op a (aop\<lparr>op_response := Some r\<rparr>) c1"
    have h1: "1 \<le> (h(a := h a + 1)) a" using core_invD(2)[OF inv, of a] by simp
    have "wp mf (call_callback E a ?c2 \<bind> gb_operation_unref E a) (\<lambda>c'. core_inv h c' \<and> rx_frame c c')"
      unfolding wp_simps
    proof (rule wp_mono[OF call_callback_ok[OF at(3) h1]], elim conjE)
      fix c3
      assume c3: "core_inv (h(a := h a + 1)) c3" "rx_frame ?c2 c3"
      show "wp mf (gb_operation_unref E a c3) (\<lambda>c'. core_inv h c' \<and> rx_frame c c')"
        using unref_wp[OF c3(1) h1, of mf E, unfolded hold_drop]
        by (rule wp_mono) (use rx_frame_trans[OF at(4) c3(2)] rx_frame_trans in blast)
    qed
    then show ?thesis using op cp fr Some at(1,2) by (simp add: gb_process_response_def)
  qed
qed

end

section \<open>Handling requests\<close>

lemma held_driver:
  assumes "core_inv h c" and "get_cp c p = Some cp" and "cp_driver cp = Some d"
  obtains driver where "get_driver c d = Some driver" and "driver_ok driver"
  using core_invD(4)[OF assms(1,2)] assms(3) that
  by (auto simp: cp_ok_def cp_driver_ok_def get_driver_def)

lemma send_response_wp:
  assumes "core_inv h c" and "get_op c a = Some op"
  shows "wp mf (gb_operation_send_response E a result c) (\<lambda>(r, c'). core_inv h c' \<and> rx_frame c c')"
  using gb_operation_send_response_inv[OF assms]
  by (rule wp_mono[OF wp_weaken]) (auto intro!: rx_frame_same)

lemma core_inv_set_bundle:
  assumes "core_inv h c" and "get_op c a = Some op"
  shows "core_inv h (put_op a (op\<lparr>op_bundle := b\<rparr>) c)"
  by (rule core_inv_put_op[OF assms]) (use core_invD(3)[OF assms] in \<open>simp_all add: op_ok_def\<close>)

text \<open>What becomes of a request: the type decides who answers.\<close>

datatype request_kind = Kind_ping | Kind_unknown | Kind_handled fptr

definition request_kind :: "u8 \<Rightarrow> gb_driver \<Rightarrow> request_kind option" where
  "request_kind ty driver =
     (if ty = GB_PING_TYPE then Some Kind_ping
      else do {
        found \<leftarrow> find_operation_handler ty driver;
        (case found of
           None \<Rightarrow> Some Kind_unknown
         | Some h \<Rightarrow> do { f \<leftarrow> oh_handler h; Some (Kind_handled f) }) })"

lemma request_kind_total: "driver_ok driver \<Longrightarrow> \<exists>k. request_kind ty driver = Some k"
proof -
  assume ok: "driver_ok driver"
  from find_operation_handler_no_fault[OF ok, of ty] obtain found
    where f: "find_operation_handler ty driver = Some found" by auto
  show ?thesis
  proof (cases found)
    case None
    then show ?thesis using f by (auto simp: request_kind_def)
  next
    case (Some hd)
    with f have "drv_op_handlers driver \<noteq> None"
      by (auto simp: find_operation_handler_def split: option.splits)
    then obtain hs where hs: "drv_op_handlers driver = Some hs" by auto
    from find_operation_handler_sound[OF _ hs, of ty hd] f Some ok hs
    have "oh_handler hd \<noteq> None" by (auto simp: driver_ok_def)
    then show ?thesis using f Some by (auto simp: request_kind_def)
  qed
qed

lemma gb_process_request_kind:
  assumes op: "get_op c a = Some op" "op_request_buffer op = Some b" "hdr_type b = Some ty"
    and cp: "get_cp c (op_cport op) = Some cp" "cp_driver cp = Some d" "get_driver c d = Some driver"
    and k: "request_kind ty driver = Some k"
  shows "gb_process_request E a c =
    (case k of
       Kind_ping \<Rightarrow> map_option snd (gb_operation_send_response E a GB_OP_SUCCESS c)
     | Kind_unknown \<Rightarrow> map_option snd (gb_operation_send_response E a GB_OP_INVALID c)
     | Kind_handled f \<Rightarrow> do {
         (result, c2) \<leftarrow> env_handler E f (put_op a (op\<lparr>op_bundle := drv_bundle driver\<rparr>) c) a;
         op2 \<leftarrow> get_op c2 a;
         b2 \<leftarrow> op_request_buffer op2;
         ident \<leftarrow> hdr_id b2;
         if ident \<noteq> 0 then map_option snd (gb_operation_send_response E a result c2) else Some c2 })"
proof -
  have snd: "map_option snd x = (x \<bind> (\<lambda>(_, c1). Some c1))" for x :: "(int \<times> 'a core) option"
    by (cases x) auto
  show ?thesis
    using op cp k unfolding gb_process_request_def request_kind_def snd
    by (auto simp: bind_eq_Some_conv split: option.splits if_splits)
qed

context core_env
begin

lemma gb_process_request_ok:
  assumes inv: "core_inv h c" and h: "1 \<le> h a" and op: "get_op c a = Some op"
    and cp: "get_cp c (op_cport op) = Some cp" "cp_driver cp = Some d"
  shows "wp mf (gb_process_request E a c) (\<lambda>c'. core_inv h c' \<and> rx_frame c c')"
proof -
  from held_driver[OF inv cp] obtain driver where d: "get_driver c d = Some driver" "driver_ok driver" .
  from op_ok_request[OF core_invD(3)[OF inv op]] obtain b ident ty where b: "op_request_buffer op = Some b"
    "hdr_id b = Some ident" "hdr_type b = Some ty" by metis
  from request_kind_total[OF d(2)] obtain k where k: "request_kind ty driver = Some k" by blast
  note eq = gb_process_request_kind[OF op b(1,3) cp d(1) k, of E]
  have send: "wp mf (map_option snd (gb_operation_send_response E a res c2))
      (\<lambda>c'. core_inv h c' \<and> rx_frame c c')" if "core_inv h c2" "rx_frame c c2" for c2 res
  proof -
    from held_op[of h c2 a] that(1) h obtain op2 where "get_op c2 a = Some op2" by metis
    from send_response_wp[OF that(1) this, of mf E res] show ?thesis
      using rx_frame_trans[OF that(2)] by (auto simp: wp_def split: option.splits)
  qed
  show ?thesis
  proof (cases k)
    case (Kind_handled f)
    let ?c1 = "put_op a (op\<lparr>op_bundle := drv_bundle driver\<rparr>) c"
    have inv1: "core_inv h ?c1" using inv op by (rule core_inv_set_bundle)
    have fr1: "rx_frame c ?c1" by (auto intro!: rx_frame_same)
    show ?thesis
      unfolding eq Kind_handled request_kind.case wp_simps
    proof (rule wp_mono_pair[OF handler[OF inv1 h]], unfold prod.case wp_simps, elim conjE)
      fix result c2
      assume c2: "core_inv h c2" "handler_frame a ?c1 c2"
      then have fr: "rx_frame c c2" using rx_frame_trans[OF fr1] by (simp add: handler_frame_def)
      from held_op[of h c2 a] c2(1) h obtain op2 b2 ident2 where
        "get_op c2 a = Some op2" "op_request_buffer op2 = Some b2" "hdr_id b2 = Some ident2" by metis
      then show "wp mf (get_op c2 a) (\<lambda>op2. wp mf (op_request_buffer op2) (\<lambda>b2. wp mf (hdr_id b2)
          (\<lambda>ident. wp mf (if ident \<noteq> 0 then map_option snd (gb_operation_send_response E a result c2) else Some c2)
             (\<lambda>c'. core_inv h c' \<and> rx_frame c c'))))"
        using send[OF c2(1) fr] c2(1) fr by simp
    qed
  qed (use send[OF inv rx_frame_refl] eq in simp_all)
qed

end

section \<open>One answer per request\<close>

text \<open>\<open>answered p op ok c c'\<close>: exactly one message went out, on cport \<open>p\<close>; it answers \<open>op\<close> with a result
  that satisfies \<open>ok\<close> or says that there is no memory.\<close>

definition answered :: "nat \<Rightarrow> gb_operation \<Rightarrow> (u8 \<Rightarrow> bool) \<Rightarrow> 'w core \<Rightarrow> 'w core \<Rightarrow> bool" where
  "answered p op ok c c' \<longleftrightarrow> (\<exists>msg r res. tx_log c' = tx_log c @ [(p, msg, r)]
     \<and> is_response op res msg \<and> (ok res \<or> res = GB_OP_NO_MEMORY))"

lemma send_response_answers:
  assumes inv: "core_inv h c" and op: "get_op c a = Some op"
    and cp: "get_cp c (op_cport op) = Some cp" "\<not> cp_exit_worker cp"
    and fresh: "\<not> op_has_responded op" "resp_echo op"
  shows "wp mf (map_option snd (gb_operation_send_response E a result c)) (answered (op_cport op) op ((=) result) c)"
proof -
  from gb_operation_send_response_ok[OF inv op cp fresh(1), of E result] obtain r c' msg res where
    s: "gb_operation_send_response E a result c = Some (r, c')" "after_send a op msg r c c'"
      "resp_echo op \<Longrightarrow> is_response op res msg"
      "res = result \<or> res = GB_OP_NO_MEMORY \<and> op_response_buffer op = None" by blast
  then show ?thesis
    using fresh(2) after_send_inv(4)[OF inv op s(2)] by (auto simp: answered_def)
qed

context core_env_echo
begin

lemma gb_process_request_answers:
  assumes inv: "core_inv h c" and h: "1 \<le> h a" and op: "get_op c a = Some op"
    and b: "op_request_buffer op = Some b" "hdr_id b = Some ident" "hdr_type b = Some ty"
    and cp: "get_cp c (op_cport op) = Some cp" "cp_driver cp = Some d" "\<not> cp_exit_worker cp"
    and d: "get_driver c d = Some driver" and k: "request_kind ty driver = Some k"
    and fresh: "\<not> op_has_responded op" "op_response_buffer op = None" and short: "length b < 65536"
  shows "wp mf (gb_process_request E a c) (\<lambda>c'.
    case k of
      Kind_ping \<Rightarrow> answered (op_cport op) op (\<lambda>res. res = GB_OP_SUCCESS) c c'
    | Kind_unknown \<Rightarrow> answered (op_cport op) op (\<lambda>res. res = GB_OP_INVALID) c c'
    | Kind_handled f \<Rightarrow> if ident = 0 then tx_log c' = tx_log c
        else answered (op_cport op) op (\<lambda>res. \<exists>c2. env_handler E f (put_op a (op\<lparr>op_bundle := drv_bundle driver\<rparr>) c) a
                = Some (res, c2)) c c')"
proof -
  note eq = gb_process_request_kind[OF op b(1,3) cp(1,2) d k, of E]
  have echo: "resp_echo op" using fresh by (simp add: resp_echo_def)
  note send = send_response_answers[OF inv op cp(1,3) fresh(1) echo, of mf E]
  show ?thesis
  proof (cases k)
    case Kind_ping
    then show ?thesis using send[of GB_OP_SUCCESS] by (simp add: eq) (auto elim!: wp_mono simp: answered_def)
  next
    case Kind_unknown
    then show ?thesis using send[of GB_OP_INVALID] by (simp add: eq) (auto elim!: wp_mono simp: answered_def)
  next
    case (Kind_handled f)
    let ?op1 = "op\<lparr>op_bundle := drv_bundle driver\<rparr>"
    let ?c1 = "put_op a ?op1 c"
    have inv1: "core_inv h ?c1" using inv op by (rule core_inv_set_bundle)
    have g1: "get_op ?c1 a = Some ?op1" using get_op_SomeD[OF op] by (simp add: core_simps)
    let ?R = "\<lambda>c'. if ident = 0 then tx_log c' = tx_log c
        else answered (op_cport op) op (\<lambda>res. \<exists>c2. env_handler E f ?c1 a = Some (res, c2)) c c'"
    let ?K = "\<lambda>(result, c2). get_op c2 a \<bind> (\<lambda>op2. op_request_buffer op2 \<bind> (\<lambda>b2. hdr_id b2 \<bind> (\<lambda>ident.
        if ident \<noteq> 0 then map_option snd (gb_operation_send_response E a result c2) else Some c2)))"
    have run: "wp mf (?K (result, c2)) ?R"
      if c2: "core_inv h c2" "handler_frame a ?c1 c2" and hd: "env_handler E f ?c1 a = Some (result, c2)" for result c2
    proof -
      from c2(2) g1 obtain op2 where op2: "get_op c2 a = Some op2" "op_request_buffer op2 = Some b"
        "op_cport op2 = op_cport op" "\<not> op_has_responded op2"
        using b(1) fresh by (auto simp: handler_frame_def)
      have "resp_echo ?op1" "short_request ?op1"
        using fresh short b(1) by (simp_all add: resp_echo_def short_request_def)
      from handler_echo[OF inv1 h g1 this hd op2(1)] have echo2: "resp_echo op2" .
      have log: "tx_log c2 = tx_log c" and fr: "rx_frame ?c1 c2" using c2(2) by (simp_all add: handler_frame_def)
      have "get_cp ?c1 (op_cport op) = Some cp" using cp(1) by simp
      from rx_frame_get_cp[OF fr this] obtain cp2 where cp2: "get_cp c2 (op_cport op2) = Some cp2" "\<not> cp_exit_worker cp2"
        using cp(3) cp_rxD(5) op2(3) by metis
      have "is_response op2 = is_response op" using op2(2) b(1) by (simp add: is_response_def fun_eq_iff)
      with send_response_answers[OF c2(1) op2(1) cp2 op2(4) echo2, of mf E result] log hd op2(3)
      have "ident \<noteq> 0 \<Longrightarrow> wp mf (map_option snd (gb_operation_send_response E a result c2)) ?R"
        by (auto elim!: wp_mono simp: answered_def)
      then show ?thesis using op2(1,2) b(2) log by auto
    qed
    have "wp mf (env_handler E f ?c1 a) (\<lambda>x. wp mf (?K x) ?R)"
    proof (cases "env_handler E f ?c1 a")
      case None
      then show ?thesis using handler[OF inv1 h, of f] by simp
    next
      case (Some x)
      then show ?thesis using handler[OF inv1 h, of f] run by (cases x) (simp del: wp_simps(3))
    qed
    then show ?thesis unfolding eq Kind_handled request_kind.case wp_simps(3) .
  qed
qed

end

section \<open>The worker\<close>

lemma core_inv_thread_ends:
  assumes inv: "core_inv h c" and cp: "get_cp c p = Some cp"
    and ex: "cp_thread cp" "cp_exit_worker cp" "cp_rx_fifo cp = []"
  shows "core_inv h (put_cp p (cp\<lparr>cp_rx_fifo_lock := cp_rx_fifo_lock cp - 1, cp_thread := False\<rparr>) c)"
proof (rule core_inv_put_cp[OF inv cp])
  show "cp_ok c p (cp\<lparr>cp_rx_fifo_lock := cp_rx_fifo_lock cp - 1, cp_thread := False\<rparr>)"
    using core_invD(4)[OF inv cp] ex
    by (auto simp: cp_ok_def cp_local_def cp_driver_ok_def cp_links_def)
qed (use core_invD(2)[OF inv] in \<open>simp_all add: cp_refs_def\<close>)

lemma cp_local_lock:
  "cp_local cp \<Longrightarrow> cp_rx_fifo_lock cp = length (cp_rx_fifo cp) + (if cp_thread cp \<and> cp_exit_worker cp then 1 else 0)"
  by (simp add: cp_local_def)

context core_env
begin

lemma worker_entry_ok:
  assumes inv: "core_inv h c" and h: "1 \<le> h a" and op: "get_op c a = Some op"
    and cp: "get_cp c (op_cport op) = Some cp" "cp_driver cp = Some d"
  shows "wp mf (worker_entry E p (Rx_op a) c) (\<lambda>c'. core_inv (h(a := h a - 1)) c' \<and> rx_frame c c')"
proof -
  from op_ok_request[OF core_invD(3)[OF inv op]] obtain b ident ty where b: "op_request_buffer op = Some b"
    "hdr_id b = Some ident" "hdr_type b = Some ty" by metis
  have mid: "wp mf (if ty AND GB_TYPE_RESPONSE_FLAG \<noteq> 0 then gb_process_response E a c
      else gb_process_request E a c) (\<lambda>c'. core_inv h c' \<and> rx_frame c c')"
    using gb_process_response_ok[OF inv h] gb_process_request_ok[OF inv h op cp] by simp
  show ?thesis
    unfolding worker_entry_def rx_entry.case op b wp_simps bind.bind_lunit gb_operation_destroy_def
  proof (rule wp_mono[OF mid], elim conjE)
    fix c1
    assume c1: "core_inv h c1" "rx_frame c c1"
    show "wp mf (gb_operation_unref E a c1) (\<lambda>c'. core_inv (h(a := h a - 1)) c' \<and> rx_frame c c')"
      by (rule wp_mono[OF unref_wp[OF c1(1) h]]) (use c1(2) rx_frame_trans in blast)
  qed
qed

text \<open>One iteration: blocked on an empty fifo, ended, or the head of the fifo handled.\<close>

lemma gb_pending_message_worker_ok:
  assumes inv: "core_inv h c" and cp: "get_cp c p = Some cp" and th: "cp_thread cp"
  shows "wp mf (gb_pending_message_worker E p c)
     (\<lambda>r. case r of
        Work_blocked \<Rightarrow> cp_rx_fifo_lock cp = 0 \<and> cp_rx_fifo cp = [] \<and> \<not> cp_exit_worker cp
      | Work_exited c' \<Rightarrow> core_inv h c' \<and> cp_rx_fifo cp = [] \<and> cp_exit_worker cp
          \<and> c' = put_cp p (cp\<lparr>cp_rx_fifo_lock := 0, cp_thread := False\<rparr>) c
      | Work_done c' \<Rightarrow> core_inv h c' \<and> (\<exists>a rest. cp_rx_fifo cp = Rx_op a # rest
          \<and> rx_frame (put_cp p (cp\<lparr>cp_rx_fifo_lock := cp_rx_fifo_lock cp - 1, cp_rx_fifo := rest\<rparr>) c) c'))"
    (is "wp mf ?m ?P")
proof -
  from core_invD(4)[OF inv cp] have ok: "cp_local cp" "cp_links c p cp" by (simp_all add: cp_ok_def)
  note lock = cp_local_lock[OF ok(1)]
  show ?thesis
  proof (cases "cp_rx_fifo cp")
    case Nil
    show ?thesis
    proof (cases "cp_exit_worker cp")
      case True
      then have "?m = Some (Work_exited (put_cp p (cp\<lparr>cp_rx_fifo_lock := 0, cp_thread := False\<rparr>) c))"
        using Nil lock th cp by (simp add: gb_pending_message_worker_def)
      then show ?thesis
        using core_inv_thread_ends[OF inv cp th True Nil] lock Nil th True by simp
    next
      case False
      then have "?m = Some Work_blocked" using Nil lock cp by (simp add: gb_pending_message_worker_def)
      then show ?thesis using False Nil lock by simp
    qed
  next
    case (Cons e rest)
    have "e \<noteq> Rx_timedout" using ok(1) Cons by (auto simp: cp_local_def)
    then obtain a where e: "e = Rx_op a" by (cases e) auto
    let ?cp = "cp\<lparr>cp_rx_fifo_lock := cp_rx_fifo_lock cp - 1, cp_rx_fifo := rest\<rparr>"
    let ?c = "put_cp p ?cp c"
    have inv1: "core_inv (h(a := h a + 1)) ?c" using core_inv_rx_get[OF inv cp Cons[unfolded e]] .
    have h1: "1 \<le> (h(a := h a + 1)) a" using core_invD(2)[OF inv, of a] by simp
    from held_op[of _ ?c a] inv1 h1 obtain op where op: "get_op ?c a = Some op" by metis
    then have p: "op_cport op = p" using ok(2) Cons e by (auto simp: cp_links_def core_simps)
    from ok(1) th obtain d where d: "cp_driver ?cp = Some d" by (auto simp: cp_local_def)
    have cp1: "get_cp ?c (op_cport op) = Some ?cp"
      using get_cp_SomeD[OF cp] p by (simp add: core_simps)
    have m: "?m = map_option Work_done (worker_entry E p (Rx_op a) ?c)"
      using Cons e lock cp by (simp add: gb_pending_message_worker_def)
    have "wp mf (worker_entry E p (Rx_op a) ?c) (\<lambda>c'. core_inv h c' \<and> rx_frame ?c c')"
      using worker_entry_ok[OF inv1 h1 op cp1 d, of p] unfolding hold_drop .
    then show ?thesis using Cons e unfolding m by (auto simp: wp_def split: option.splits)
  qed
qed

end

section \<open>Joining the worker and unregistering\<close>

lemma rx_frame_put_put:
  assumes "rx_frame (put_cp p X c) c'" and "rx_frame (put_cp p Y c') c''" and "cp_rx Y = cp_rx Y'"
  shows "rx_frame (put_cp p Y' c) c''"
  using assms by (simp add: rx_frame_def put_cp_def map_update)

lemma get_cp_cong: "g_cport c = g_cport c' \<Longrightarrow> get_cp c p = get_cp c' p"
  by (simp add: get_cp_def)

lemma get_put_cp_same: "get_cp c p = Some cp \<Longrightarrow> get_cp (put_cp p cp' c) p = Some cp'"
  by (auto simp: core_simps dest: get_cp_SomeD)

lemma core_inv_exit_signal:
  assumes inv: "core_inv h c" and cp: "get_cp c p = Some cp" and th: "cp_thread cp" "\<not> cp_exit_worker cp"
  shows "core_inv h (put_cp p (cp\<lparr>cp_exit_worker := True, cp_rx_fifo_lock := cp_rx_fifo_lock cp + 1\<rparr>) c)"
proof (rule core_inv_put_cp[OF inv cp])
  show "cp_ok c p (cp\<lparr>cp_exit_worker := True, cp_rx_fifo_lock := cp_rx_fifo_lock cp + 1\<rparr>)"
    using core_invD(4)[OF inv cp] th
    by (auto simp: cp_ok_def cp_local_def cp_driver_ok_def cp_links_def)
qed (use core_invD(2)[OF inv] in \<open>simp_all add: cp_refs_def\<close>)

lemma core_inv_no_driver:
  assumes inv: "core_inv h c" and cp: "get_cp c p = Some cp" and th: "\<not> cp_thread cp"
  shows "core_inv h (put_cp p (cp\<lparr>cp_driver := None\<rparr>) c)"
proof (rule core_inv_put_cp[OF inv cp])
  show "cp_ok c p (cp\<lparr>cp_driver := None\<rparr>)"
    using core_invD(4)[OF inv cp] th
    by (auto simp: cp_ok_def cp_local_def cp_driver_ok_def cp_links_def)
qed (use core_invD(2)[OF inv] in \<open>simp_all add: cp_refs_def\<close>)

text \<open>Flushing drops exactly the references of the transmit fifo and cannot fault.\<close>

lemma flush_loop_ok:
  assumes "core_inv h c" and "get_cp c p = Some cp" and "cp_tx_fifo cp = as"
  shows "wp mf (flush_loop E p as c) (\<lambda>c'. core_inv h c' \<and> rx_frame c c'
     \<and> get_cp c' p = Some (cp\<lparr>cp_tx_fifo := []\<rparr>))"
  using assms
proof (induction as arbitrary: c cp)
  case Nil
  have "cp\<lparr>cp_tx_fifo := []\<rparr> = cp" using Nil.prems(3) by (cases cp) simp
  then show ?case using Nil by simp
next
  case (Cons a as)
  let ?cp = "cp\<lparr>cp_tx_fifo := as\<rparr>" and ?c = "put_cp p (cp\<lparr>cp_tx_fifo := as\<rparr>) c"
  have inv1: "core_inv (h(a := h a + 1)) ?c"
    using core_inv_tx_remove[OF Cons.prems(1,2), of a] Cons.prems(3) by simp
  have h1: "1 \<le> (h(a := h a + 1)) a" using core_invD(2)[OF Cons.prems(1), of a] by simp
  have fr: "rx_frame c ?c" by (rule rx_frame_put_cp[OF Cons.prems(2)]) (simp add: cp_rx_def)
  have eq: "flush_loop E p (a # as) c = gb_operation_unref E a ?c \<bind> flush_loop E p as"
    using Cons.prems by simp
  show ?case
    unfolding eq wp_simps
    using unref_wp[OF inv1 h1, of mf E, unfolded hold_drop]
  proof (rule wp_mono, elim conjE)
    fix c1
    assume c1: "core_inv h c1" "rx_frame ?c c1" "g_cport c1 = g_cport ?c"
    then have "get_cp c1 p = Some ?cp"
      using get_put_cp_same[OF Cons.prems(2)] get_cp_cong by metis
    from Cons.IH[OF c1(1) this] show "wp mf (flush_loop E p as c1) (\<lambda>c'. core_inv h c' \<and> rx_frame c c'
        \<and> get_cp c' p = Some (cp\<lparr>cp_tx_fifo := []\<rparr>))"
      using rx_frame_trans[OF fr rx_frame_trans[OF c1(2)]] by (simp add: wp_def split: option.splits)
  qed
qed

context core_env
begin

text \<open>The semaphore's count is fuel enough for the worker to drain its fifo and end.\<close>

lemma worker_join_ends:
  assumes "core_inv h c" and "get_cp c p = Some cp" and "cp_thread cp" and "cp_exit_worker cp"
    and "cp_rx_fifo_lock cp \<le> n"
  shows "wp mf (worker_join E n p c) (\<lambda>(ended, c'). ended \<and> core_inv h c'
     \<and> rx_frame (put_cp p (cp\<lparr>cp_rx_fifo := [], cp_rx_fifo_lock := 0, cp_thread := False\<rparr>) c) c')"
  using assms
proof (induction n arbitrary: c cp)
  case 0
  then show ?case using core_invD(4)[OF "0.prems"(1,2)] by (simp add: cp_ok_def cp_local_def)
next
  case (Suc n)
  let ?ended = "\<lambda>cp. cp\<lparr>cp_rx_fifo := [], cp_rx_fifo_lock := 0, cp_thread := False\<rparr>"
  let ?Q = "\<lambda>(ended, c'). ended \<and> core_inv h c' \<and> rx_frame (put_cp p (?ended cp) c) c'"
  have eq: "wp mf (worker_join E (Suc n) p c) ?Q = wp mf (gb_pending_message_worker E p c)
      (\<lambda>r. case r of Work_blocked \<Rightarrow> ?Q (False, c) | Work_exited c' \<Rightarrow> ?Q (True, c')
         | Work_done c' \<Rightarrow> wp mf (worker_join E n p c') ?Q)"
    by (auto simp: wp_def split: option.splits work.splits)
  show ?case
    unfolding eq
  proof (rule wp_mono[OF gb_pending_message_worker_ok[OF Suc.prems(1-3)]])
    fix r
    assume r: "case r of
        Work_blocked \<Rightarrow> cp_rx_fifo_lock cp = 0 \<and> cp_rx_fifo cp = [] \<and> \<not> cp_exit_worker cp
      | Work_exited c' \<Rightarrow> core_inv h c' \<and> cp_rx_fifo cp = [] \<and> cp_exit_worker cp
          \<and> c' = put_cp p (cp\<lparr>cp_rx_fifo_lock := 0, cp_thread := False\<rparr>) c
      | Work_done c' \<Rightarrow> core_inv h c' \<and> (\<exists>a rest. cp_rx_fifo cp = Rx_op a # rest
          \<and> rx_frame (put_cp p (cp\<lparr>cp_rx_fifo_lock := cp_rx_fifo_lock cp - 1, cp_rx_fifo := rest\<rparr>) c) c')"
    show "case r of Work_blocked \<Rightarrow> ?Q (False, c) | Work_exited c' \<Rightarrow> ?Q (True, c')
         | Work_done c' \<Rightarrow> wp mf (worker_join E n p c') ?Q"
    proof (cases r)
      case (Work_exited c')
      then have x: "core_inv h c'" "cp_rx_fifo cp = []"
        "c' = put_cp p (cp\<lparr>cp_rx_fifo_lock := 0, cp_thread := False\<rparr>) c" using r by auto
      then have "?ended cp = cp\<lparr>cp_rx_fifo_lock := 0, cp_thread := False\<rparr>" by (cases cp) simp
      then have "c' = put_cp p (?ended cp) c" using x(3) by (simp only:)
      then show ?thesis using x(1) Work_exited by (simp only: work.case prod.case) simp
    next
      case (Work_done c')
      with r obtain a rest where d: "core_inv h c'" "cp_rx_fifo cp = Rx_op a # rest"
        "rx_frame (put_cp p (cp\<lparr>cp_rx_fifo_lock := cp_rx_fifo_lock cp - 1, cp_rx_fifo := rest\<rparr>) c) c'" by auto
      from rx_frame_get_cp[OF d(3) get_put_cp_same[OF Suc.prems(2)]] obtain cp' where
        cp': "get_cp c' p = Some cp'"
          "cp_rx cp' = cp_rx (cp\<lparr>cp_rx_fifo_lock := cp_rx_fifo_lock cp - 1, cp_rx_fifo := rest\<rparr>)" by metis
      note f = cp_rxD[OF cp'(2), simplified]
      have e: "cp_rx (?ended cp') = cp_rx (?ended cp)"
        using cp'(2) by (cases cp; cases cp') (simp add: cp_rx_def)
      have lock: "cp_rx_fifo_lock cp' \<le> n" using f Suc.prems(5) by simp
      have "wp mf (worker_join E n p c') (\<lambda>(ended, c''). ended \<and> core_inv h c''
          \<and> rx_frame (put_cp p (?ended cp') c') c'')"
        by (rule Suc.IH[OF d(1) cp'(1) _ _ lock]) (use f Suc.prems in simp_all)
      then have "wp mf (worker_join E n p c') ?Q"
        by (rule wp_mono_pair) (use rx_frame_put_put[OF d(3) _ e] in blast)
      then show ?thesis using Work_done by simp
    qed (use r Suc.prems(4) in simp)
  qed
qed

end

lemma rx_frame_through:
  assumes "rx_frame (put_cp p X c1) c2" and "g_cport c1 = g_cport c" and "core_drivers c1 = core_drivers c"
    and "transport_backend c1 = transport_backend c"
  shows "rx_frame (put_cp p X c) c2"
  using assms by (simp add: rx_frame_def put_cp_def)

context core_env
begin

lemma driver_exit_ok:
  assumes "core_inv h c"
  shows "wp mf (case drv_exit driver of None \<Rightarrow> Some c | Some f \<Rightarrow> env_driver_exit E f c p b)
    (\<lambda>c'. core_inv h c' \<and> rx_frame c c')"
  using assms driver_exit[OF assms] by (simp split: option.splits)

lemma unregister_finish_ok:
  assumes inv: "core_inv h c" and cp: "get_cp c p = Some cp" "cp_driver cp = Some d" "\<not> cp_thread cp"
  shows "wp mf (unregister_finish E p d c)
    (\<lambda>c'. core_inv h c' \<and> rx_frame (put_cp p (cp\<lparr>cp_driver := None\<rparr>) c) c')" (is "wp mf _ ?Q")
proof -
  have fin: "wp mf (get_cp c2 p \<bind> (\<lambda>cq. Some (put_cp p (cq\<lparr>cp_driver := None\<rparr>) c2))) ?Q"
    if inv2: "core_inv h c2" and fr: "rx_frame c c2" for c2
  proof -
    from rx_frame_get_cp[OF fr cp(1)] obtain cq where cq: "get_cp c2 p = Some cq" "cp_rx cq = cp_rx cp" .
    have e: "cp_rx (cq\<lparr>cp_driver := None\<rparr>) = cp_rx (cp\<lparr>cp_driver := None\<rparr>)"
      using cq(2) by (cases cp; cases cq) (simp add: cp_rx_def)
    have "rx_frame (put_cp p cp c) c2"
      using fr put_cp_same[OF cp(1)] by (simp add: rx_frame_def)
    then have "rx_frame (put_cp p (cp\<lparr>cp_driver := None\<rparr>) c) (put_cp p (cq\<lparr>cp_driver := None\<rparr>) c2)"
      using rx_frame_put_put[OF _ rx_frame_refl e] by blast
    then show ?thesis using core_inv_no_driver[OF inv2 cq(1)] cp_rxD(4)[OF cq(2)] cp(3) cq(1) by simp
  qed
  have fl: "wp mf (gb_flush_tx_fifo E p c) (\<lambda>c1. core_inv h c1 \<and> rx_frame c c1
      \<and> get_cp c1 p = Some (cp\<lparr>cp_tx_fifo := []\<rparr>))"
    using flush_loop_ok[OF inv cp(1) refl] cp(1) by (simp add: gb_flush_tx_fifo_def)
  show ?thesis
    unfolding unregister_finish_def wp_simps(3)[of mf "gb_flush_tx_fifo E p c"]
  proof (rule wp_mono[OF fl], elim conjE)
    fix c1
    assume c1: "core_inv h c1" "rx_frame c c1" "get_cp c1 p = Some (cp\<lparr>cp_tx_fifo := []\<rparr>)"
    from held_driver[OF c1(1,3)] cp(2) obtain driver where dr: "get_driver c1 d = Some driver" by auto
    have "wp mf ((case drv_exit driver of None \<Rightarrow> Some c1 | Some f \<Rightarrow> env_driver_exit E f c1 p (drv_bundle driver))
        \<bind> (\<lambda>c2. get_cp c2 p \<bind> (\<lambda>cq. Some (put_cp p (cq\<lparr>cp_driver := None\<rparr>) c2)))) ?Q"
      unfolding wp_simps(3)[of mf "case drv_exit driver of None \<Rightarrow> Some c1 | Some f \<Rightarrow> env_driver_exit E f c1 p (drv_bundle driver)"]
      by (rule wp_mono[OF driver_exit_ok[OF c1(1)]]) (use fin rx_frame_trans[OF c1(2)] in blast)
    then show "wp mf (get_driver c1 d \<bind> (\<lambda>driver.
        (case drv_exit driver of None \<Rightarrow> Some c1 | Some f \<Rightarrow> env_driver_exit E f c1 p (drv_bundle driver))
        \<bind> (\<lambda>c2. get_cp c2 p \<bind> (\<lambda>cq. Some (put_cp p (cq\<lparr>cp_driver := None\<rparr>) c2))))) ?Q"
      using dr by simp
  qed
qed

lemma gb_unregister_driver_ok:
  assumes inv: "core_inv h c" and cp: "get_cp c p = Some cp" "cp_driver cp = Some d"
    and run: "cp_thread cp" "\<not> cp_exit_worker cp" and be: "transport_backend c"
  shows "wp mf (gb_unregister_driver E p c) (\<lambda>(r, c'). r = Some 0 \<and> core_inv h c'
     \<and> rx_frame (put_cp p (cp\<lparr>cp_driver := None, cp_rx_fifo := [], cp_rx_fifo_lock := 0,
                             cp_thread := False, cp_exit_worker := True\<rparr>) c) c')"
    (is "wp mf _ (\<lambda>(r, c'). r = Some 0 \<and> core_inv h c' \<and> rx_frame (put_cp p ?final c) c')")
proof -
  have p: "\<not> cport_count c \<le> p" using get_cp_SomeD[OF cp(1)] core_invD(5)[OF inv] by simp
  define c1 where "c1 = (case env_stop_listening E of None \<Rightarrow> c
      | Some stop \<Rightarrow> c\<lparr>world := snd (stop (world c) p)\<rparr>)"
  have c1: "core_inv h c1" "get_cp c1 p = Some cp" "g_cport c1 = g_cport c"
    "core_drivers c1 = core_drivers c" "transport_backend c1 = transport_backend c"
    using inv cp(1) by (simp_all add: c1_def split: option.splits)
  define cp2 where "cp2 = cp\<lparr>cp_exit_worker := True, cp_rx_fifo_lock := cp_rx_fifo_lock cp + 1\<rparr>"
  define cp3 where "cp3 = cp2\<lparr>cp_rx_fifo := [], cp_rx_fifo_lock := 0, cp_thread := False\<rparr>"
  have inv2: "core_inv h (put_cp p cp2 c1)" unfolding cp2_def by (rule core_inv_exit_signal[OF c1(1,2) run])
  have "wp mf (worker_join E (cp_rx_fifo_lock cp + 1) p (put_cp p cp2 c1)) (\<lambda>(ended, c3). ended \<and> core_inv h c3
      \<and> rx_frame (put_cp p cp3 (put_cp p cp2 c1)) c3)"
    unfolding cp3_def by (rule worker_join_ends[OF inv2 get_put_cp_same[OF c1(2)]]) (use run in \<open>simp_all add: cp2_def\<close>)
  then have join: "wp mf (worker_join E (cp_rx_fifo_lock cp + 1) p (put_cp p cp2 c1))
      (\<lambda>(ended, c3). ended \<and> core_inv h c3 \<and> rx_frame (put_cp p cp3 c) c3)"
    by (rule wp_mono_pair) (use c1 in \<open>auto simp: put_put_cp intro: rx_frame_through\<close>)
  have eq: "gb_unregister_driver E p c = worker_join E (cp_rx_fifo_lock cp + 1) p (put_cp p cp2 c1) \<bind>
      (\<lambda>(ended, c3). if \<not> ended then Some (None, c3)
         else unregister_finish E p d c3 \<bind> (\<lambda>c4. Some (Some 0, c4)))"
    using p cp be by (simp add: gb_unregister_driver_def c1_def cp2_def Let_def del: worker_join.simps)
  show ?thesis
    unfolding eq wp_simps(3)[of mf "worker_join E (cp_rx_fifo_lock cp + 1) p (put_cp p cp2 c1)"]
  proof (rule wp_mono_pair[OF join], elim conjE)
    fix ended c3
    assume c3: "ended" "core_inv h c3" "rx_frame (put_cp p cp3 c) c3"
    from rx_frame_get_cp[OF c3(3) get_put_cp_same[OF cp(1)]] obtain cp4 where
      cp4: "get_cp c3 p = Some cp4" "cp_rx cp4 = cp_rx cp3" .
    note f = cp_rxD[OF cp4(2)]
    have e: "cp_rx (cp4\<lparr>cp_driver := None\<rparr>) = cp_rx ?final"
      using cp4(2) by (cases cp; cases cp4) (simp add: cp_rx_def cp3_def cp2_def)
    have "wp mf (unregister_finish E p d c3) (\<lambda>c'. core_inv h c'
        \<and> rx_frame (put_cp p (cp4\<lparr>cp_driver := None\<rparr>) c3) c')"
      by (rule unregister_finish_ok[OF c3(2) cp4(1)]) (use f cp in \<open>simp_all add: cp3_def cp2_def\<close>)
    then have "wp mf (unregister_finish E p d c3) (\<lambda>c'. core_inv h c' \<and> rx_frame (put_cp p ?final c) c')"
      by (rule wp_mono) (use rx_frame_put_put[OF c3(3) _ e] in blast)
    then show "wp mf (case (ended, c3) of (ended, c3) \<Rightarrow> if \<not> ended then Some (None, c3)
         else unregister_finish E p d c3 \<bind> (\<lambda>c4. Some (Some 0, c4)))
       (\<lambda>(r, c'). r = Some 0 \<and> core_inv h c' \<and> rx_frame (put_cp p ?final c) c')"
      using c3(1) by simp
  qed
qed

end

section \<open>Registering\<close>

lemma get_op_put_driver [simp]: "get_op (put_driver d drv c) a = get_op c a"
  by (simp add: get_op_def put_driver_def)

lemma get_cp_put_driver [simp]: "get_cp (put_driver d drv c) p = get_cp c p"
  by (simp add: get_cp_def put_driver_def)

lemma get_driver_put_driver:
  "get_driver (put_driver d drv c) e = (if d = e \<and> d < length (core_drivers c) then Some drv else get_driver c e)"
  by (auto simp: get_driver_def put_driver_def)

lemma put_driver_fields [simp]:
  "g_cport (put_driver d drv c) = g_cport c" "world (put_driver d drv c) = world c"
  "core_heap (put_driver d drv c) = core_heap c" "cport_count (put_driver d drv c) = cport_count c"
  "core_drivers (put_driver d drv c) = (core_drivers c)[d := drv]"
  by (simp_all add: put_driver_def)

lemma core_inv_put_driver:
  assumes "core_inv h c" and "driver_ok drv"
  shows "core_inv h (put_driver d drv c)"
proof -
  have "cp_driver_ok ((core_drivers c)[d := drv]) cp" if "cp_driver_ok (core_drivers c) cp" for cp
    using that assms(2) unfolding cp_driver_ok_def
    by (metis length_list_update nth_list_update_eq nth_list_update_neq)
  then show ?thesis
    using assms(1) by (auto simp: core_inv_def fifo_refs_def cp_ok_def cp_links_def)
qed

lemma core_inv_start:
  assumes inv: "core_inv h c" and cp: "get_cp c p = Some cp" "cp_driver cp = None"
    and d: "get_driver c d = Some drv" "driver_ok drv"
  shows "core_inv h (put_cp p (cp\<lparr>cp_exit_worker := False\<rparr>) c)"
    and "core_inv h (put_cp p (cp\<lparr>cp_exit_worker := False, cp_thread := True, cp_driver := Some d\<rparr>) c)"
proof -
  have ok: "cp_ok c p cp" using core_invD(4)[OF inv cp(1)] .
  with cp(2) have th: "\<not> cp_thread cp" by (auto simp: cp_ok_def cp_local_def)
  have d': "d < length (core_drivers c)" "driver_ok (core_drivers c ! d)"
    using d by (auto simp: get_driver_def split: if_splits)
  show "core_inv h (put_cp p (cp\<lparr>cp_exit_worker := False\<rparr>) c)"
    by (rule core_inv_put_cp[OF inv cp(1)])
       (use ok th core_invD(2)[OF inv] in
         \<open>auto simp: cp_refs_def cp_ok_def cp_local_def cp_driver_ok_def cp_links_def\<close>)
  show "core_inv h (put_cp p (cp\<lparr>cp_exit_worker := False, cp_thread := True, cp_driver := Some d\<rparr>) c)"
    by (rule core_inv_put_cp[OF inv cp(1)])
       (use ok th d' core_invD(2)[OF inv] in
         \<open>auto simp: cp_refs_def cp_ok_def cp_local_def cp_driver_ok_def cp_links_def\<close>)
qed

lemma core_inv_bundles: "core_inv h (c\<lparr>g_bundle := b\<rparr>) = core_inv h c"
proof -
  have "get_op (c\<lparr>g_bundle := b\<rparr>) = get_op c" "get_cp (c\<lparr>g_bundle := b\<rparr>) = get_cp c"
    by (simp_all add: get_op_def get_cp_def fun_eq_iff)
  then show ?thesis by (simp add: core_inv_def fifo_refs_def cp_ok_def cp_links_def)
qed

text \<open>A cport that runs its driver: the thread exists and is not told to end.\<close>

definition running :: "nat \<Rightarrow> nat \<Rightarrow> 'w core \<Rightarrow> bool" where
  "running p d c \<longleftrightarrow> (\<exists>cp. get_cp c p = Some cp \<and> cp_driver cp = Some d \<and> cp_thread cp \<and> \<not> cp_exit_worker cp)"

context core_env
begin

lemma register_start_ok:
  assumes inv: "core_inv h c" and cp: "get_cp c p = Some cp" "cp_driver cp = None"
    and d: "get_driver c d = Some drv" "driver_ok drv"
  shows "wp mf (register_start E p d b c) (\<lambda>(r, c'). core_inv h c' \<and> (r = 0 \<longrightarrow> running p d c'))"
proof -
  from sort_op_handlers_ok[OF d(2)] obtain sd where sd: "sort_op_handlers drv = Some sd" "driver_ok sd" .
  let ?c1 = "put_driver d sd c"
  obtain rc w where pt: "env_pthread_create E (world c) p = (rc, w)" by fastforce
  let ?c1w = "?c1\<lparr>world := w\<rparr>"
  let ?c2 = "put_cp p (cp\<lparr>cp_exit_worker := False\<rparr>) ?c1w"
  have "get_driver ?c1w d = Some sd" using d(1) by (auto simp: get_driver_put_driver get_driver_def split: if_splits)
  note st = core_inv_start[of h ?c1w p cp d sd, OF _ _ cp(2) this sd(2)]
  have inv1: "core_inv h ?c1w" using core_inv_put_driver[OF inv sd(2)] by simp
  let ?run = "put_cp p (cp\<lparr>cp_exit_worker := False, cp_thread := True, cp_driver := Some d\<rparr>) ?c2"
  have "?run = put_cp p (cp\<lparr>cp_exit_worker := False, cp_thread := True, cp_driver := Some d\<rparr>) ?c1w"
    by (simp add: put_put_cp)
  then have inv3: "core_inv h ?run" using st(2)[OF inv1] cp(1) by simp
  have run: "running p d ?run"
    unfolding running_def using get_put_cp_same[OF get_put_cp_same, of ?c1w p cp] cp(1) by force
  have inv2: "core_inv h ?c2" using st(1)[OF inv1] cp(1) by simp
  show ?thesis
    using d(1) sd(1) cp(1) pt inv3 run driver_exit_ok[OF inv2, of p b drv]
    by (auto simp: register_start_def Let_def elim: wp_mono)
qed

lemma register_init_ok:
  assumes inv: "core_inv h c" and cp: "get_cp c p = Some cp" "cp_driver cp = None"
    and d: "get_driver c d = Some drv" "driver_ok drv"
  shows "wp mf (register_init E p d b c) (\<lambda>(r, c'). core_inv h c' \<and> (r = 0 \<longrightarrow> running p d c'))" (is "wp mf _ ?Q")
proof -
  let ?c1 = "put_driver d (drv\<lparr>drv_bundle := b\<rparr>) c"
  have dok: "driver_ok (drv\<lparr>drv_bundle := b\<rparr>)" using d(2) by (simp add: driver_ok_def)
  have inv1: "core_inv h ?c1" by (rule core_inv_put_driver[OF inv dok])
  have init: "wp mf (case drv_init drv of None \<Rightarrow> Some (0, ?c1) | Some f \<Rightarrow> env_driver_init E f ?c1 p b)
      (\<lambda>(r, c2). core_inv h c2 \<and> rx_frame ?c1 c2)"
    using inv1 driver_init[OF inv1] by (simp split: option.splits)
  have start: "wp mf (register_start E p d b c2) ?Q" if c2: "core_inv h c2" "rx_frame ?c1 c2" for c2
  proof -
    have "get_cp ?c1 p = Some cp" using cp by simp
    from rx_frame_get_cp[OF c2(2) this] obtain cq where cq: "get_cp c2 p = Some cq" "cp_rx cq = cp_rx cp" .
    have "get_driver c2 d = Some (drv\<lparr>drv_bundle := b\<rparr>)"
      using c2(2) d(1) by (auto simp: rx_frame_def get_driver_def split: if_splits)
    from register_start_ok[OF c2(1) cq(1) _ this dok, of b] cp_rxD(1)[OF cq(2)] cp(2)
    show ?thesis by simp
  qed
  have eq: "register_init E p d b c =
      (case drv_init drv of None \<Rightarrow> Some (0, ?c1) | Some f \<Rightarrow> env_driver_init E f ?c1 p b) \<bind>
      (\<lambda>(retval, c2). if retval \<noteq> 0 then Some (retval, c2) else register_start E p d b c2)"
    using d(1) by (simp add: register_init_def Let_def)
  show ?thesis
    unfolding eq wp_simps(3) by (rule wp_mono_pair[OF init]) (use start in auto)
qed

lemma gb_register_driver_ok:
  assumes inv: "core_inv h c" and bid: "mf \<or> 0 \<le> bundle_id \<and>
      length (g_bundle c) = Suc (manifest_get_max_bundle_id (core_manifest c))"
    and drv: "\<And>d. drv = Some d \<Longrightarrow> \<exists>driver. get_driver c d = Some driver \<and> driver_ok driver"
  shows "wp mf (gb_register_driver E p bundle_id drv c)
    (\<lambda>(r, c'). core_inv h c' \<and> (r = 0 \<longrightarrow> (\<exists>d. drv = Some d \<and> running p d c')))" (is "wp mf _ ?Q")
proof (cases "cport_count c \<le> p \<or> drv = None")
  case True
  then show ?thesis using inv by (auto simp: gb_register_driver_def Let_def)
next
  case False
  then obtain d driver where d: "drv = Some d" "get_driver c d = Some driver" "driver_ok driver" using drv by auto
  have p: "p < length (g_cport c)" using False core_invD(5)[OF inv] by simp
  then obtain cp where cp: "get_cp c p = Some cp" by (simp add: get_cp_def)
  show ?thesis
  proof (cases "cp_driver cp \<noteq> None \<or> drv_op_handlers driver = None \<and> 0 < drv_op_handlers_count driver
      \<or> 0 \<le> bundle_id \<and> int (manifest_get_max_bundle_id (core_manifest c)) < bundle_id")
    case True
    then show ?thesis using False d cp inv by (auto simp: gb_register_driver_def Let_def)
  next
    case g: False
    let ?n = "manifest_get_num_cports_bundle (core_manifest c) bundle_id"
    have eq: "gb_register_driver E p bundle_id drv c = register_bundle E bundle_id ?n c \<bind> (\<lambda>(r, c1).
        case r of Inl e \<Rightarrow> Some (e, c1) | Inr bundle \<Rightarrow> register_init E p d bundle c1)"
      using False g d cp by (auto simp: gb_register_driver_def Let_def)
    have "core_inv h (c\<lparr>world := w, g_bundle := b\<rparr>)" for w b
      using inv by (simp add: core_inv_bundles)
    then have rb: "wp mf (register_bundle E bundle_id ?n c) (\<lambda>(r, c1). core_inv h c1 \<and> get_cp c1 = get_cp c
        \<and> core_drivers c1 = core_drivers c \<and> (case r of Inl e \<Rightarrow> e \<noteq> 0 | Inr _ \<Rightarrow> True))"
      using bid g inv by (auto simp: register_bundle_def get_bundle_def Let_def get_cp_def fun_eq_iff split: prod.splits option.splits)
    show ?thesis
      unfolding eq wp_simps(3)
    proof (rule wp_mono_pair[OF rb], elim conjE)
      fix r :: "int + nat option" and c1 :: "'w core"
      assume c1: "core_inv h c1" "get_cp c1 = get_cp c" "core_drivers c1 = core_drivers c"
        "case r of Inl e \<Rightarrow> e \<noteq> 0 | Inr _ \<Rightarrow> True"
      have "get_driver c1 d = Some driver" using d(2) c1(3) by (simp add: get_driver_def split: if_splits)
      then have "wp mf (register_init E p d b c1) ?Q" for b
        using register_init_ok[OF c1(1) _ _ _ d(3), of p cp d b] c1(2) cp g d(1)
        by (auto elim!: wp_mono)
      then show "wp mf (case (r, c1) of (r, c1) \<Rightarrow> (case r of Inl e \<Rightarrow> Some (e, c1)
          | Inr bundle \<Rightarrow> register_init E p d bundle c1)) ?Q"
        using c1(1,4) by (cases r) auto
    qed
  qed
qed

end

section \<open>Receiving\<close>

text \<open>A message that the receive handler accepts: complete, and its header in its bounds.\<close>

definition valid_message :: "bytes \<Rightarrow> nat \<Rightarrow> bool" where
  "valid_message buf sz \<longleftrightarrow> HDR_SIZE \<le> sz \<and> sz \<le> length buf
     \<and> (\<exists>hsz. hdr_size buf = Some hsz \<and> HDR_SIZE \<le> unat hsz \<and> unat hsz \<le> sz)"

definition taped :: "nat \<Rightarrow> bytes \<Rightarrow> nat \<Rightarrow> 'w core \<Rightarrow> 'w core" where
  "taped p buf sz c =
     (if gb_tape c \<and> 0 \<le> gb_tape_fd c
      then c\<lparr>tape := tape c @ gb_tape_record_header sz p @ take sz buf\<rparr> else c)"

lemma taped_same [simp]:
  "core_inv h (taped p buf sz c) = core_inv h c" "get_cp (taped p buf sz c) q = get_cp c q"
  "core_heap (taped p buf sz c) = core_heap c" "g_cport (taped p buf sz c) = g_cport c"
  "cport_count (taped p buf sz c) = cport_count c" "core_drivers (taped p buf sz c) = core_drivers c"
  by (simp_all add: taped_def)

text \<open>The part of the handler behind its checks.\<close>

definition rx_dispatch :: "'w env \<Rightarrow> nat \<Rightarrow> bytes \<Rightarrow> nat \<Rightarrow> gb_operation_handler option \<Rightarrow> 'w core \<Rightarrow>
    (int \<times> 'w core) option" where
  "rx_dispatch E p buf hsz found c =
     (case Option.bind found oh_fast_handler of
        Some f \<Rightarrow> do { c2 \<leftarrow> env_fast_handler E f c p buf; Some (0, c2) }
      | None \<Rightarrow> do {
          (r, c2) \<leftarrow> gb_rx_create_operation E p buf hsz c;
          (case r of
             None \<Rightarrow> Some (- ENOMEM, c2)
           | Some a \<Rightarrow> do {
               cp2 \<leftarrow> get_cp c2 p;
               fifo \<leftarrow> sys_dlist_append (cp_rx_fifo cp2) (Rx_op a);
               Some (0, put_cp p (cp2\<lparr>cp_rx_fifo := fifo, cp_rx_fifo_lock := cp_rx_fifo_lock cp2 + 1\<rparr>) c2) }) })"

lemma rx_handler_valid:
  assumes inv: "core_inv h c" and cp: "get_cp c p = Some cp" "cp_driver cp = Some d"
    and d: "get_driver c d = Some driver" "drv_op_handlers driver \<noteq> None"
    and v: "valid_message buf sz" "hdr_size buf = Some hsz" "hdr_type buf = Some ty"
    and found: "find_operation_handler ty driver = Some found"
  shows "greybus_rx_handler E p (Some buf) sz c = rx_dispatch E p buf (unat hsz) found (taped p buf sz c)"
proof -
  have "\<not> cport_count c \<le> p" using get_cp_SomeD[OF cp(1)] core_invD(5)[OF inv] by simp
  moreover have "\<not> sz < 8" "\<not> (sz < unat hsz \<or> unat hsz < 8)" "sz \<le> length buf"
    using v by (auto simp: valid_message_def)
  ultimately show ?thesis
    using cp d v found unfolding greybus_rx_handler_def rx_dispatch_def taped_def
    by (auto simp: tape_write_def rd_slice_def)
qed

text \<open>A message that is not valid or for a cport without driver changes nothing.\<close>

lemma rx_handler_dropped:
  assumes inv: "core_inv h c" and len: "\<And>buf. data = Some buf \<Longrightarrow> sz \<le> length buf"
    and no: "\<not> (\<exists>buf cp d driver. data = Some buf \<and> valid_message buf sz \<and> get_cp c p = Some cp
               \<and> cp_driver cp = Some d \<and> get_driver c d = Some driver \<and> drv_op_handlers driver \<noteq> None)"
  shows "\<exists>r. greybus_rx_handler E p data sz c = Some (r, c) \<and> r \<in> {0, - EINVAL}"
proof (cases data)
  case (Some buf)
  show ?thesis
  proof (cases "get_cp c p")
    case None
    then have "cport_count c \<le> p" using core_invD(5)[OF inv] by (auto simp: get_cp_def split: if_splits)
    then show ?thesis using Some by (simp add: greybus_rx_handler_def)
  next
    case cp: (Some cp)
    then have p: "\<not> cport_count c \<le> p" using get_cp_SomeD core_invD(5)[OF inv] by fastforce
    show ?thesis
    proof (cases "cp_driver cp")
      case None
      then show ?thesis using Some cp p by (simp add: greybus_rx_handler_def)
    next
      case d: (Some d)
      from held_driver[OF inv cp d] obtain driver where dr: "get_driver c d = Some driver" .
      have "drv_op_handlers driver = None \<or> \<not> valid_message buf sz" using no Some cp d dr by blast
      note bad = this
      show ?thesis
      proof (cases "drv_op_handlers driver = None \<or> sz < 8")
        case True
        then show ?thesis using Some cp p d dr by (auto simp: greybus_rx_handler_def)
      next
        case False
        then obtain hsz where h: "hdr_size buf = Some hsz" using len[OF Some] by (simp add: rd16_Some)
        with bad False len[OF Some] have "sz < unat hsz \<or> unat hsz < 8"
          by (auto simp: valid_message_def)
        then show ?thesis using Some cp p d dr False h by (auto simp: greybus_rx_handler_def)
      qed
    qed
  qed
qed (simp add: greybus_rx_handler_def)

lemma op_ok_received:
  assumes "valid_message buf sz" and "hdr_size buf = Some hsz" and "p < n"
  shows "op_ok n (received p (take (unat hsz) buf))"
proof -
  have "hdr_size (take (unat hsz) buf) = Some hsz"
    using assms by (auto simp: valid_message_def rd16_take)
  then show ?thesis
    using assms by (auto simp: op_ok_def received_def new_operation_def buffer_ok_def valid_message_def)
qed

lemma core_inv_gone: "core_inv h c \<Longrightarrow> core_inv h (c\<lparr>core_heap := core_heap c @ [None]\<rparr>)"
  using core_inv_append[of h c None] core_inv_fresh(1)[of h c] by (metis fun_upd_triv option.case(1) option.distinct(1))

lemma core_inv_gone_world:
  "core_inv h c \<Longrightarrow> core_inv h (c\<lparr>world := w, core_heap := core_heap c @ [None]\<rparr>)"
  using core_inv_gone[of h "c\<lparr>world := w\<rparr>"] by simp

text \<open>Appending: the new operation is the last of its fifo and the semaphore counts it.\<close>

lemma rx_dispatch_queued:
  assumes inv: "core_inv h c" and cp: "get_cp c p = Some cp"
    and v: "valid_message buf sz" "hdr_size buf = Some hsz"
    and slow: "Option.bind found oh_fast_handler = None"
  shows "(\<exists>c'. rx_dispatch E p buf (unat hsz) found c = Some (- ENOMEM, c') \<and> core_inv h c' \<and> g_cport c' = g_cport c)
    \<or> (\<exists>c'. rx_dispatch E p buf (unat hsz) found c = Some (0, c') \<and> core_inv h c'
        \<and> get_op c' (length (core_heap c)) = Some (received p (take (unat hsz) buf))
        \<and> g_cport c' = (g_cport c)[p := cp\<lparr>cp_rx_fifo := cp_rx_fifo cp @ [Rx_op (length (core_heap c))],
                                            cp_rx_fifo_lock := cp_rx_fifo_lock cp + 1\<rparr>])"
proof -
  have sz: "8 \<le> unat hsz" "unat hsz \<le> length buf" "unat hsz < 2 ^ 32"
    using v unat_u16_lt[of hsz] by (auto simp: valid_message_def)
  have p: "p < length (g_cport c)" "p < cport_count c" using get_cp_SomeD[OF cp] core_invD(5)[OF inv] by auto
  from sz show ?thesis
  proof (cases rule: gb_rx_create_operation_cases[of "unat hsz" buf c p E])
    case (created w)
    let ?a = "length (core_heap c)" and ?op = "received p (take (unat hsz) buf)"
    let ?c1 = "c\<lparr>core_heap := core_heap c @ [Some ?op]\<rparr>"
    let ?c2 = "?c1\<lparr>world := w\<rparr>"
    let ?cp = "cp\<lparr>cp_rx_fifo := cp_rx_fifo cp @ [Rx_op ?a], cp_rx_fifo_lock := cp_rx_fifo_lock cp + 1\<rparr>"
    have "op_response ?op = None \<and> op_ref_count ?op = 1 \<and> op_ok (length (g_cport c)) ?op"
      using op_ok_received[OF v p(1)] by (simp add: received_def new_operation_def)
    from core_inv_append[OF inv, of "Some ?op"] this have inv1: "core_inv (h(?a := 1)) ?c2" by simp
    have g: "get_op ?c2 ?a = Some ?op" "get_cp ?c2 p = Some cp" "op_cport ?op = p"
      using cp by (simp_all add: received_def new_operation_def)
    have h0: "h ?a = 0" "fifo_refs c ?a = 0" using core_inv_fresh[OF inv] by auto
    have "core_inv ((h(?a := 1))(?a := (h(?a := 1)) ?a - 1)) (put_cp p ?cp ?c2)"
      by (rule core_inv_rx_append[OF inv1 g(2) _ g(1,3)]) simp
    moreover have "(h(?a := 1))(?a := (h(?a := 1)) ?a - 1) = h" using h0 by auto
    ultimately have inv2: "core_inv h (put_cp p ?cp ?c2)" by simp
    have "count_list (cp_rx_fifo cp) (Rx_op ?a) = 0"
      using fifo_refs_ge[OF cp, of ?a] h0(2) by (simp add: cp_refs_def)
    then have "Rx_op ?a \<notin> set (cp_rx_fifo cp)" by (simp add: count_list_0_iff)
    moreover have "gb_rx_create_operation E p buf (unat hsz) c = Some (Some ?a, ?c2)"
      using created(2) by simp
    ultimately have "rx_dispatch E p buf (unat hsz) found c = Some (0, put_cp p ?cp ?c2)"
      using slow g(2) by (simp add: rx_dispatch_def sys_dlist_append_def)
    moreover have "g_cport (put_cp p ?cp ?c2) = (g_cport c)[p := ?cp]" by (simp add: put_cp_def)
    moreover have "get_op (put_cp p ?cp ?c2) ?a = Some ?op" using g(1) by simp
    ultimately show ?thesis using inv2 by blast
  qed (use slow inv core_inv_gone_world[OF inv] p in \<open>auto simp: rx_dispatch_def\<close>)
qed

context core_env
begin

lemma greybus_rx_handler_ok:
  assumes inv: "core_inv h c" and len: "\<And>buf. data = Some buf \<Longrightarrow> sz \<le> length buf"
  shows "wp mf (greybus_rx_handler E p data sz c) (\<lambda>(r, c'). core_inv h c' \<and> r \<in> {0, - EINVAL, - ENOMEM})"
proof (cases "\<exists>buf cp d driver. data = Some buf \<and> valid_message buf sz \<and> get_cp c p = Some cp
               \<and> cp_driver cp = Some d \<and> get_driver c d = Some driver \<and> drv_op_handlers driver \<noteq> None")
  case False
  from rx_handler_dropped[OF inv len this, of E] inv show ?thesis by auto
next
  case True
  then obtain buf cp d driver where b: "data = Some buf" "valid_message buf sz" "get_cp c p = Some cp"
    "cp_driver cp = Some d" "get_driver c d = Some driver" "drv_op_handlers driver \<noteq> None" by blast
  from b(2) obtain hsz ty where h: "hdr_size buf = Some hsz" "hdr_type buf = Some ty"
    by (auto simp: valid_message_def rd8_Some)
  have "driver_ok driver" using held_driver[OF inv b(3,4)] b(5) by auto
  from find_operation_handler_no_fault[OF this, of ty] obtain found
    where f: "find_operation_handler ty driver = Some found" by auto
  have inv1: "core_inv h (taped p buf sz c)" using inv by simp
  have "wp mf (rx_dispatch E p buf (unat hsz) found (taped p buf sz c))
      (\<lambda>(r, c'). core_inv h c' \<and> r \<in> {0, - EINVAL, - ENOMEM})"
  proof (cases "Option.bind found oh_fast_handler")
    case None
    have "get_cp (taped p buf sz c) p = Some cp" using b(3) by simp
    from rx_dispatch_queued[OF inv1 this b(2) h(1) None, of E] show ?thesis
      by (elim disjE exE conjE) simp_all
  next
    case (Some f)
    then show ?thesis
      using fast_handler[OF inv1, of f p buf] by (auto simp: rx_dispatch_def elim!: wp_mono)
  qed
  then show ?thesis using rx_handler_valid[OF inv b(3-6,2) h f] b(1) by simp
qed

end

section \<open>Bringing the core up and down\<close>

text \<open>Between the calls of the public operations a cport has its worker exactly while it has its
  driver.\<close>

definition settled :: "'w core \<Rightarrow> bool" where
  "settled c \<longleftrightarrow> (\<forall>p cp. get_cp c p = Some cp \<longrightarrow>
     (cp_driver cp \<noteq> None \<longrightarrow> cp_thread cp \<and> \<not> cp_exit_worker cp))"

lemma gb_init_ok:
  assumes "core_heap c = []" and "gb_init E n True c = (0, c')"
  shows "core_inv (\<lambda>_. 0) c' \<and> settled c' \<and> transport_backend c' \<and> cport_count c' = n
    \<and> length (g_bundle c') = Suc (manifest_get_max_bundle_id (core_manifest c'))"
proof -
  have c': "core_heap c' = []" "g_cport c' = replicate n new_cport" "cport_count c' = n"
    "transport_backend c'" "length (g_bundle c') = Suc (manifest_get_max_bundle_id (core_manifest c'))"
    using assms by (auto simp: gb_init_def Let_def split: prod.splits if_splits)
  have "fifo_refs c' a = 0" for a
    unfolding fifo_refs_def c'(2) by (induction n) (simp_all add: cp_refs_def new_cport_def)
  then have "heap_inv (\<lambda>a. fifo_refs c' a + 0) (core_heap c')"
    by (simp add: c' heap_inv_def heap_inv_except_def hget_def resp_refs_def)
  moreover have "cp_ok c' p cp \<and> cp_driver cp = None" if "get_cp c' p = Some cp" for p cp
  proof -
    have "cp = new_cport" using that by (auto simp: get_cp_def c' split: if_splits)
    then show ?thesis by (simp add: cp_ok_def cp_local_def cp_driver_ok_def cp_links_def new_cport_def)
  qed
  ultimately show ?thesis
    using c' by (auto simp: core_inv_def settled_def get_op_def hget_def)
qed

lemma settled_put:
  assumes "settled c" and "rx_frame (put_cp p cp' c) c'" and "p < length (g_cport c)"
    and "cp_driver cp' \<noteq> None \<longrightarrow> cp_thread cp' \<and> \<not> cp_exit_worker cp'"
  shows "settled c'"
  unfolding settled_def
proof (intro allI impI)
  fix q cq
  assume cq: "get_cp c' q = Some cq" and d: "cp_driver cq \<noteq> None"
  have "q < length (g_cport (put_cp p cp' c))"
    using get_cp_SomeD[OF cq] rx_frame_length[OF assms(2)] by simp
  then obtain cr where cr: "get_cp (put_cp p cp' c) q = Some cr" by (simp add: get_cp_def)
  with rx_frame_get_cp[OF assms(2) cr] cq have "cp_rx cq = cp_rx cr" by auto
  from cp_rxD[OF this] cr d assms(1,3,4) show "cp_thread cq \<and> \<not> cp_exit_worker cq"
    by (auto simp: core_simps settled_def split: if_splits)
qed

definition driverless :: "nat \<Rightarrow> 'w core \<Rightarrow> bool" where
  "driverless p c \<longleftrightarrow> (\<forall>cp. get_cp c p = Some cp \<longrightarrow> cp_driver cp = None)"

lemma driverless_frame:
  assumes "rx_frame (put_cp p cp' c) c'" and "cp_driver cp' = None" and "p < length (g_cport c)"
  shows "driverless p c'" and "driverless q c \<Longrightarrow> driverless q c'"
proof -
  have *: "cp_driver cq = None"
    if cq: "get_cp c' q = Some cq" and d: "q = p \<or> driverless q c" for q cq
  proof -
    have "q < length (g_cport (put_cp p cp' c))"
      using get_cp_SomeD[OF cq] rx_frame_length[OF assms(1)] by simp
    then obtain cr where cr: "get_cp (put_cp p cp' c) q = Some cr" by (simp add: get_cp_def)
    with rx_frame_get_cp[OF assms(1) cr] cq have "cp_rx cq = cp_rx cr" by auto
    from cp_rxD(1)[OF this] cr d assms(2,3) show ?thesis
      by (auto simp: core_simps driverless_def split: if_splits)
  qed
  show "driverless p c'" "driverless q c \<Longrightarrow> driverless q c'" using * by (auto simp: driverless_def)
qed

context core_env
begin

text \<open>Deinitialisation joins every worker and leaves no driver.\<close>

lemma unregister_any:
  assumes inv: "core_inv h c" and st: "settled c" and be: "transport_backend c"
  shows "wp mf (gb_unregister_driver E p c) (\<lambda>(r, c'). r \<noteq> None \<and> core_inv h c' \<and> settled c'
     \<and> transport_backend c' \<and> driverless p c' \<and> (\<forall>q. driverless q c \<longrightarrow> driverless q c'))"
proof (cases "driverless p c")
  case True
  then have "gb_unregister_driver E p c = Some (Some (- EINVAL), c)"
    using core_invD(5)[OF inv]
    by (cases "get_cp c p") (auto simp: gb_unregister_driver_def get_cp_def driverless_def split: if_splits option.splits)
  then show ?thesis using assms True by auto
next
  case False
  then obtain cp d where cp: "get_cp c p = Some cp" "cp_driver cp = Some d" by (auto simp: driverless_def)
  let ?final = "cp\<lparr>cp_driver := None, cp_rx_fifo := [], cp_rx_fifo_lock := 0,
                   cp_thread := False, cp_exit_worker := True\<rparr>"
  have run: "cp_thread cp" "\<not> cp_exit_worker cp" using st cp by (auto simp: settled_def)
  have p: "p < length (g_cport c)" using get_cp_SomeD[OF cp(1)] by simp
  have fin: "settled c1 \<and> transport_backend c1 \<and> driverless p c1 \<and> (\<forall>q. driverless q c \<longrightarrow> driverless q c1)"
    if "rx_frame (put_cp p ?final c) c1" for c1
    using settled_put[OF st that p] driverless_frame[OF that _ p] that be by (simp add: rx_frame_def)
  show ?thesis
    by (rule wp_mono_pair[OF gb_unregister_driver_ok[OF inv cp run be]]) (use fin in auto)
qed

lemma deinit_loop_ok:
  assumes "core_inv h c" and "settled c" and "transport_backend c"
  shows "wp mf (deinit_loop E ps c) (\<lambda>(ended, c'). ended \<and> core_inv h c' \<and> settled c'
     \<and> (\<forall>p \<in> set ps. driverless p c') \<and> (\<forall>q. driverless q c \<longrightarrow> driverless q c'))"
  using assms
proof (induction ps arbitrary: c)
  case Nil
  then show ?case by auto
next
  case (Cons p ps)
  show ?case
    unfolding deinit_loop.simps wp_simps(3)
  proof (rule wp_mono_pair[OF unregister_any[OF Cons.prems, of p]], elim conjE)
    fix r :: "int option" and c1 :: "'w core"
    assume c1: "r \<noteq> None" "core_inv h c1" "settled c1" "transport_backend c1" "driverless p c1"
      "\<forall>q. driverless q c \<longrightarrow> driverless q c1"
    show "wp mf (case (r, c1) of (r, c1) \<Rightarrow> if r = None then Some (False, c1) else deinit_loop E ps c1)
      (\<lambda>(ended, c'). ended \<and> core_inv h c' \<and> settled c'
        \<and> (\<forall>p \<in> set (p # ps). driverless p c') \<and> (\<forall>q. driverless q c \<longrightarrow> driverless q c'))"
      using c1(1) wp_mono_pair[OF Cons.IH[OF c1(2-4)]] c1(5,6) by auto
  qed
qed

lemma gb_deinit_ok:
  assumes inv: "core_inv h c" and st: "settled c"
  shows "wp mf (gb_deinit E c) (\<lambda>(ended, c'). ended \<and> \<not> transport_backend c')"
proof (cases "transport_backend c")
  case True
  from deinit_loop_ok[OF inv st True, of "[0 ..< cport_count c]"] True show ?thesis
    by (auto simp: gb_deinit_def elim!: wp_mono_pair)
qed (simp add: gb_deinit_def)

end

end
