(* ===== verification/Gb_Handler.thy ===== *)
theory Gb_Handler
  imports Gb_Core_Worker
begin

text \<open>
  What the protocol drivers have in common. A handler of a protocol is a function of the bundle,
  the state of the devices and the operation; \<open>lift_handler\<close> makes it what the core calls through
  \<open>env_handler\<close>. The interface \<open>gb_handler\<close> states what every handler keeps to: of its operation
  it changes the response buffer only, and a response buffer it leaves behind holds what its
  header claims. \<open>gb_handler_echo\<close> adds that the response still answers the request.
\<close>

unbundle bit_operations_syntax

type_synonym 'w handler = "gb_bundle \<Rightarrow> 'w \<Rightarrow> gb_operation \<Rightarrow> (u8 \<times> gb_operation \<times> 'w) option"

section \<open>Accessors of the drivers\<close>

text \<open>\<^verbatim>\<open>operation->cport - bundle->cport_start\<close>, unsigned arithmetic on 32 bits.\<close>

definition cport_idx :: "nat \<Rightarrow> gb_bundle \<Rightarrow> nat" where
  "cport_idx cport bundle = unat ((word_of_nat cport :: u32) - bnd_cport_start bundle)"

text \<open>\<^verbatim>\<open>bundle->dev[i]\<close>: a slot outside the allocated array is a fault.\<close>

definition bundle_dev :: "gb_bundle \<Rightarrow> nat \<Rightarrow> nat option option" where
  "bundle_dev bundle i = (if i < length (bnd_dev bundle) then Some (bnd_dev bundle ! i) else None)"

definition payload_size :: "gb_operation \<Rightarrow> nat option" where
  "payload_size op = gb_operation_get_request_payload_size (Some op)"

definition lift_handler :: "'w handler \<Rightarrow> 'w core \<Rightarrow> nat \<Rightarrow> (u8 \<times> 'w core) option" where
  "lift_handler hdl c a = do {
     op \<leftarrow> get_op c a;
     i \<leftarrow> op_bundle op;
     slot \<leftarrow> get_bundle c (int i);
     bundle \<leftarrow> slot;
     (res, op', w) \<leftarrow> hdl bundle (world c) op;
     Some (res, put_op a op' (c\<lparr>world := w\<rparr>)) }"

section \<open>What a handler may write\<close>

definition same_hdr :: "bytes \<Rightarrow> bytes \<Rightarrow> bool" where
  "same_hdr b b' \<longleftrightarrow> take HDR_SIZE b' = take HDR_SIZE b \<and> length b' = length b"

definition resp_written :: "gb_operation \<Rightarrow> gb_operation \<Rightarrow> bool" where
  "resp_written op op' \<longleftrightarrow>
     (\<exists>rb. op' = op\<lparr>op_response_buffer := rb\<rparr>
        \<and> (\<forall>b. rb = Some b \<longrightarrow> buffer_ok b \<or> (\<exists>b0. op_response_buffer op = Some b0 \<and> same_hdr b0 b)))"

definition echo_kept :: "gb_operation \<Rightarrow> gb_operation \<Rightarrow> bool" where
  "echo_kept op op' \<longleftrightarrow> (resp_echo op \<longrightarrow> resp_echo op')"

lemma same_hdr_refl [simp]: "same_hdr b b"
  by (simp add: same_hdr_def)

lemma same_hdr_trans: "same_hdr a b \<Longrightarrow> same_hdr b c \<Longrightarrow> same_hdr a c"
  by (simp add: same_hdr_def)

lemma same_hdr_fields:
  assumes "same_hdr b b'"
  shows "hdr_size b' = hdr_size b" "hdr_id b' = hdr_id b" "hdr_type b' = hdr_type b" "length b' = length b"
proof -
  have t: "take 8 b' = take 8 b" and l: "length b' = length b" using assms by (simp_all add: same_hdr_def)
  show "length b' = length b" by (rule l)
  show "hdr_size b' = hdr_size b" "hdr_id b' = hdr_id b" "hdr_type b' = hdr_type b"
    using arg_cong[OF t, of "\<lambda>x. rd16 x 0"] arg_cong[OF t, of "\<lambda>x. rd16 x 2"] arg_cong[OF t, of "\<lambda>x. rd8 x 4"]
    by (simp_all add: rd16_take rd8_take)
qed

lemma same_hdr_buffer_ok: "same_hdr b b' \<Longrightarrow> buffer_ok b \<Longrightarrow> buffer_ok b'"
  using same_hdr_fields[of b b'] by (simp add: buffer_ok_def)

lemma same_hdr_echo:
  assumes "same_hdr b b'" and "resp_echo (op\<lparr>op_response_buffer := Some b\<rparr>)"
  shows "resp_echo (op\<lparr>op_response_buffer := Some b'\<rparr>)"
  using assms(2) same_hdr_fields[OF assms(1)] by (simp add: resp_echo_def)

lemma resp_written_refl [simp]: "resp_written op op"
  unfolding resp_written_def by (rule exI[of _ "op_response_buffer op"]) auto

lemma resp_written_trans [trans]:
  assumes "resp_written a b" and "resp_written b c"
  shows "resp_written a c"
proof -
  from assms(1) obtain rb where rb: "b = a\<lparr>op_response_buffer := rb\<rparr>"
    "\<And>x. rb = Some x \<Longrightarrow> buffer_ok x \<or> (\<exists>b0. op_response_buffer a = Some b0 \<and> same_hdr b0 x)"
    by (auto simp: resp_written_def)
  from assms(2) rb(1) obtain rc where rc: "c = a\<lparr>op_response_buffer := rc\<rparr>"
    "\<And>x. rc = Some x \<Longrightarrow> buffer_ok x \<or> (\<exists>b0. rb = Some b0 \<and> same_hdr b0 x)"
    by (auto simp: resp_written_def)
  have "buffer_ok x \<or> (\<exists>b0. op_response_buffer a = Some b0 \<and> same_hdr b0 x)" if "rc = Some x" for x
    using rc(2)[OF that] rb(2) same_hdr_buffer_ok same_hdr_trans by blast
  with rc(1) show ?thesis unfolding resp_written_def by blast
qed

lemma echo_kept_refl [simp]: "echo_kept op op"
  by (simp add: echo_kept_def)

lemma echo_kept_trans [trans]: "echo_kept a b \<Longrightarrow> echo_kept b c \<Longrightarrow> echo_kept a c"
  by (simp add: echo_kept_def)

section \<open>The steps of a handler\<close>

lemma resp_update_kept:
  assumes upd: "resp_update f op = Some op'" and f: "\<And>b b'. f b = Some b' \<Longrightarrow> same_hdr b b'"
  shows "resp_written op op'" and "echo_kept op op'"
proof -
  from upd obtain b b' where b: "op_response_buffer op = Some b" "f b = Some b'"
    "op' = op\<lparr>op_response_buffer := Some b'\<rparr>" by (auto simp: resp_update_def bind_eq_Some_conv)
  note h = f[OF b(2)]
  show "resp_written op op'" using b h by (auto simp: resp_written_def)
  have "op = op\<lparr>op_response_buffer := Some b\<rparr>" using b(1) by (cases op) simp
  then show "echo_kept op op'" using same_hdr_echo[OF h, of op] b(3) by (simp add: echo_kept_def)
qed

lemma wr8_hdr: "wr8 b (8 + off) v = Some b' \<Longrightarrow> same_hdr b b'"
  by (auto simp: wr8_def same_hdr_def split: if_splits)

lemma wr_slice_hdr: "wr_slice b (8 + off) xs = Some b' \<Longrightarrow> same_hdr b b'"
  by (auto simp: wr_slice_def same_hdr_def split: if_splits)

lemma resp_writes:
  "resp8 op off v8 = Some op' \<Longrightarrow> resp_written op op' \<and> echo_kept op op'"
  "resp16 op off v16 = Some op' \<Longrightarrow> resp_written op op' \<and> echo_kept op op'"
  "resp32 op off v32 = Some op' \<Longrightarrow> resp_written op op' \<and> echo_kept op op'"
  "resp_slice op off xs = Some op' \<Longrightarrow> resp_written op op' \<and> echo_kept op op'"
  unfolding resp8_def resp16_def resp32_def resp_slice_def wr16_def wr32_def
  using resp_update_kept wr8_hdr wr_slice_hdr by blast+

text \<open>A successful allocation in closed form, whatever the size: the header field is its low half.\<close>

lemma alloc_response_cases:
  assumes "gb_operation_alloc_response al w op sz = Some (ok, op', w')" and "sz + HDR_SIZE < 2 ^ 32"
  shows "(\<not> ok \<and> op' = op\<lparr>op_response_buffer := None\<rparr>) \<or>
    (ok \<and> (\<exists>req ident ty. op_request_buffer op = Some req \<and> hdr_id req = Some ident \<and> hdr_type req = Some ty
       \<and> op' = op\<lparr>op_response_buffer := Some (hdr_bytes (word_of_nat (sz + HDR_SIZE)) ident
                    (GB_TYPE_RESPONSE_FLAG OR ty) 0 @ replicate sz 0)\<rparr>))"
proof -
  have n: "size_add sz 8 = sz + 8" using assms(2) by simp
  obtain k w1 where al: "al w (sz + 8) = (k, w1)" by fastforce
  show ?thesis
  proof (cases k)
    case False
    then show ?thesis using assms(1) al by (simp add: gb_operation_alloc_response_def n)
  next
    case True
    with assms(1) al obtain req ident ty where r: "op_request_buffer op = Some req" "hdr_id req = Some ident"
      "hdr_type req = Some ty"
      by (auto simp: gb_operation_alloc_response_def n bind_eq_Some_conv)
    have al': "al w (sz + 8) = (True, w1)" using al True by simp
    from alloc_response_ok[of al, OF al' r assms(2)] assms(1) r show ?thesis by auto
  qed
qed

lemma buffer_ok_fresh: "buffer_ok (hdr_bytes (word_of_nat (sz + 8)) i t r @ replicate sz 0)"
proof -
  have "unat (word_of_nat (sz + 8) :: u16) \<le> sz + 8" by (simp add: unat_of_nat del: of_nat_add)
  then show ?thesis by (intro buffer_ok_hdr) (simp del: of_nat_add)
qed

lemma alloc_written:
  assumes "gb_operation_alloc_response al w op sz = Some (ok, op', w')" and "sz + HDR_SIZE < 2 ^ 32"
  shows "resp_written op op'"
proof -
  from alloc_response_cases[OF assms] show ?thesis
  proof (elim disjE conjE exE)
    assume "op' = op\<lparr>op_response_buffer := None\<rparr>"
    then show ?thesis by (auto simp: resp_written_def)
  next
    fix req ident ty
    assume "op' = op\<lparr>op_response_buffer := Some (hdr_bytes (word_of_nat (sz + 8)) ident (128 OR ty) 0 @ replicate sz 0)\<rparr>"
    then show ?thesis unfolding resp_written_def using buffer_ok_fresh by blast
  qed
qed

lemma alloc_echo:
  assumes "gb_operation_alloc_response al w op sz = Some (ok, op', w')" and "sz + HDR_SIZE < 2 ^ 16"
  shows "echo_kept op op'"
proof -
  have "sz + 8 < 2 ^ 32" using assms(2) by simp
  from alloc_response_cases[OF assms(1) this] show ?thesis
  proof (elim disjE conjE exE)
    assume "op' = op\<lparr>op_response_buffer := None\<rparr>"
    then show ?thesis by (simp add: echo_kept_def resp_echo_def)
  next
    fix req ident ty
    let ?b = "hdr_bytes (word_of_nat (sz + 8)) ident (128 OR ty) 0 @ replicate sz 0"
    assume r: "op_request_buffer op = Some req" "hdr_id req = Some ident" "hdr_type req = Some ty"
      and op': "op' = op\<lparr>op_response_buffer := Some ?b\<rparr>"
    have "unat (word_of_nat (sz + 8) :: u16) = sz + 8" using assms(2) by (simp del: of_nat_add)
    then show ?thesis using r op' by (simp add: echo_kept_def resp_echo_def del: of_nat_add)
  qed
qed

text \<open>
  The response as a header and its payload: what an allocation yields on a well-formed operation
  and what the writes of a handler do to the payload.
\<close>

definition answer :: "gb_operation \<Rightarrow> bytes \<Rightarrow> bytes \<Rightarrow> gb_operation" where
  "answer op h p = op\<lparr>op_response_buffer := Some (h @ p)\<rparr>"

lemma alloc_answer_wide:
  assumes "op_ok n op" and "sz + HDR_SIZE < 2 ^ 32"
  shows "(\<exists>w'. gb_operation_alloc_response al w op sz = Some (False, op\<lparr>op_response_buffer := None\<rparr>, w')) \<or>
    (\<exists>h w'. length h = HDR_SIZE \<and> gb_operation_alloc_response al w op sz
        = Some (True, answer op h (replicate sz 0), w'))"
proof -
  from op_ok_request[OF assms(1)] obtain req ident ty where r: "op_request_buffer op = Some req"
    "hdr_id req = Some ident" "hdr_type req = Some ty" by metis
  have n: "size_add sz 8 = sz + 8" "sz + 8 < 2 ^ 32" using assms(2) by simp_all
  obtain k w1 where al: "al w (sz + 8) = (k, w1)" by fastforce
  show ?thesis
  proof (cases k)
    case True
    then have "al w (sz + 8) = (True, w1)" using al by simp
    from alloc_response_ok[of al, OF this r n(2)] show ?thesis
      by (auto simp: answer_def intro!: exI[of _ "hdr_bytes (word_of_nat (sz + 8)) ident (128 OR ty) 0"])
  qed (use al n in \<open>simp add: gb_operation_alloc_response_def\<close>)
qed

lemma alloc_answer:
  assumes "op_ok n op" and "sz < 65528"
  shows "(\<exists>w'. gb_operation_alloc_response al w op sz = Some (False, op\<lparr>op_response_buffer := None\<rparr>, w')) \<or>
    (\<exists>h w'. length h = HDR_SIZE \<and> gb_operation_alloc_response al w op sz
        = Some (True, answer op h (replicate sz 0), w'))"
  by (rule alloc_answer_wide[OF assms(1)]) (use assms(2) in simp)

lemma alloc_succeeds:
  assumes "op_ok n op" and "sz < 65528" and "\<And>w n. fst (al w n)"
  shows "\<exists>h w'. length h = HDR_SIZE \<and>
    gb_operation_alloc_response al w op sz = Some (True, answer op h (replicate sz 0), w')"
proof -
  have "size_add sz 8 = sz + 8" using assms(2) by simp
  then have "\<nexists>w'. gb_operation_alloc_response al w op sz = Some (False, op\<lparr>op_response_buffer := None\<rparr>, w')"
    using assms(3)[of w "sz + 8"]
    by (auto simp: gb_operation_alloc_response_def bind_eq_Some_conv Let_def split: prod.splits)
  then show ?thesis using alloc_answer[OF assms(1,2), of al w] by blast
qed

lemma resp8_payload:
  "length h = 8 \<Longrightarrow> off < length p \<Longrightarrow> resp8 (answer op h p) off v = Some (answer op h (p[off := v]))"
  by (simp add: resp8_def resp_update_def answer_def wr8_def list_update_append)

lemma resp_slice_payload:
  "length h = 8 \<Longrightarrow> off + length xs \<le> length p \<Longrightarrow>
     resp_slice (answer op h p) off xs = Some (answer op h (take off p @ xs @ drop (off + length xs) p))"
  by (simp add: resp_slice_def resp_update_def answer_def wr_slice_def)

lemma resp16_payload:
  "length h = 8 \<Longrightarrow> off + 2 \<le> length p \<Longrightarrow>
     resp16 (answer op h p) off v = Some (answer op h (take off p @ bytes16 v @ drop (off + 2) p))"
  by (simp add: resp16_def resp_update_def answer_def wr16_def wr_slice_def)

lemma resp32_payload:
  "length h = 8 \<Longrightarrow> off + 4 \<le> length p \<Longrightarrow>
     resp32 (answer op h p) off v = Some (answer op h (take off p @ bytes32 v @ drop (off + 4) p))"
  by (simp add: resp32_def resp_update_def answer_def wr32_def wr_slice_def add.commute)

text \<open>Both for the allocations of a fixed, small size.\<close>

lemma alloc_small:
  assumes "gb_operation_alloc_response al w op sz = Some (ok, op', w')" and "sz < 65528"
  shows "resp_written op op' \<and> echo_kept op op'"
  using alloc_written[OF assms(1)] alloc_echo[OF assms(1)] assms(2) by simp

text \<open>The two together, and the form in which a handler is shown to keep to them.\<close>

definition kept :: "gb_operation \<Rightarrow> gb_operation \<Rightarrow> bool" where
  "kept op op' \<longleftrightarrow> resp_written op op' \<and> echo_kept op op'"

lemma kept_refl [simp]: "kept op op"
  by (simp add: kept_def)

lemma kept_trans: "kept a b \<Longrightarrow> kept b c \<Longrightarrow> kept a c"
  using resp_written_trans echo_kept_trans by (auto simp: kept_def)

lemma kept_writes:
  "resp8 op off v8 = Some op' \<Longrightarrow> kept op op'"
  "resp16 op off v16 = Some op' \<Longrightarrow> kept op op'"
  "resp32 op off v32 = Some op' \<Longrightarrow> kept op op'"
  "resp_slice op off xs = Some op' \<Longrightarrow> kept op op'"
  using resp_writes by (auto simp: kept_def)

lemma kept_alloc:
  "gb_operation_alloc_response al w op sz = Some (ok, op', w') \<Longrightarrow> sz < 65528 \<Longrightarrow> kept op op'"
  unfolding kept_def by (rule alloc_small)

definition handler_kept :: "'w handler \<Rightarrow> bool" where
  "handler_kept f \<longleftrightarrow> (\<forall>bnd w op. wp True (f bnd w op) (\<lambda>(res, op', w'). kept op op'))"

lemma handler_keptD: "handler_kept f \<Longrightarrow> f bnd w op = Some (res, op', w') \<Longrightarrow> kept op op'"
  unfolding handler_kept_def using wp_TrueD by fastforce

lemma handler_keptI:
  "(\<And>bnd w op. wp True (f bnd w op) (\<lambda>(res, op', w'). kept op op')) \<Longrightarrow> handler_kept f"
  by (simp add: handler_kept_def)

text \<open>The elementary computations of handlers, as facts on their results.\<close>

lemma wp_atoms:
  "wp True (resp8 op off v8) P \<longleftrightarrow> (\<forall>x. resp8 op off v8 = Some x \<longrightarrow> P x)"
  "wp True (resp16 op off v16) P \<longleftrightarrow> (\<forall>x. resp16 op off v16 = Some x \<longrightarrow> P x)"
  "wp True (resp32 op off v32) P \<longleftrightarrow> (\<forall>x. resp32 op off v32 = Some x \<longrightarrow> P x)"
  "wp True (resp_slice op off xs) P \<longleftrightarrow> (\<forall>x. resp_slice op off xs = Some x \<longrightarrow> P x)"
  "wp True (req8 op off) Q8 \<longleftrightarrow> (\<forall>x. req8 op off = Some x \<longrightarrow> Q8 x)"
  "wp True (req16 op off) Q16 \<longleftrightarrow> (\<forall>x. req16 op off = Some x \<longrightarrow> Q16 x)"
  "wp True (req32 op off) Q32 \<longleftrightarrow> (\<forall>x. req32 op off = Some x \<longrightarrow> Q32 x)"
  "wp True (req_slice op off n) Qs \<longleftrightarrow> (\<forall>x. req_slice op off n = Some x \<longrightarrow> Qs x)"
  "wp True (bundle_dev bnd i) Qd \<longleftrightarrow> (\<forall>x. bundle_dev bnd i = Some x \<longrightarrow> Qd x)"
  "wp True (payload_size op) Qn \<longleftrightarrow> (\<forall>x. payload_size op = Some x \<longrightarrow> Qn x)"
  "wp True (gb_operation_alloc_response al w op sz) R \<longleftrightarrow>
     (\<forall>ok op' w'. gb_operation_alloc_response al w op sz = Some (ok, op', w') \<longrightarrow> R (ok, op', w'))"
  by (simp_all add: wp_True_iff)

lemma handler_kept_None [simp]: "handler_kept (\<lambda>bnd w op. None)"
  by (simp add: handler_kept_def)

text \<open>
  A handler whose driver keeps state \<open>'s\<close> of its own behind the bundle (\<^verbatim>\<open>bundle->priv\<close>) is a
  handler over pairs; \<open>focus\<close> runs it where the state is part of the world.
\<close>

definition focus ::
  "(gb_bundle \<Rightarrow> 'w \<Rightarrow> 's) \<Rightarrow> (gb_bundle \<Rightarrow> 's \<Rightarrow> 'w \<Rightarrow> 'w) \<Rightarrow> ('s \<times> 'w) handler \<Rightarrow> 'w handler" where
  "focus get put f bnd w op = do {
     (res, op', s', w') \<leftarrow> f bnd (get bnd w, w) op; Some (res, op', put bnd s' w') }"

lemma handler_kept_focus:
  assumes "handler_kept f"
  shows "handler_kept (focus get put f)"
  by (rule handler_keptI) (auto simp: focus_def wp_True_iff bind_eq_Some_conv dest: handler_keptD[OF assms])

definition pair_alloc :: "'w alloc_fn \<Rightarrow> ('s \<times> 'w) alloc_fn" where
  "pair_alloc al w n = (let (ok, w') = al (snd w) n in (ok, fst w, w'))"

section \<open>The interface\<close>

locale gb_handler =
  fixes H :: "nat \<Rightarrow> 'w handler"
  assumes written: "H n bundle w op = Some (res, op', w') \<Longrightarrow> resp_written op op'"

locale gb_handler_echo = gb_handler +
  assumes echoed: "short_request op \<Longrightarrow> H n bundle w op = Some (res, op', w') \<Longrightarrow> echo_kept op op'"

lemma resp_written_op_ok:
  assumes "resp_written op op'" and "op_ok n op"
  shows "op_ok n op'" and "op_response op' = op_response op" and "op_ref_count op' = op_ref_count op"
    and "op_cport op' = op_cport op" and "op_request_buffer op' = op_request_buffer op"
    and "op_has_responded op' = op_has_responded op"
proof -
  from assms(1) obtain rb where rb: "op' = op\<lparr>op_response_buffer := rb\<rparr>"
    "\<And>b. rb = Some b \<Longrightarrow> buffer_ok b \<or> (\<exists>b0. op_response_buffer op = Some b0 \<and> same_hdr b0 b)"
    by (auto simp: resp_written_def)
  have "buffer_ok b" if "rb = Some b" for b
    using rb(2)[OF that] assms(2) same_hdr_buffer_ok by (auto simp: op_ok_def)
  then show "op_ok n op'" using assms(2) rb(1) by (auto simp: op_ok_def)
  show "op_response op' = op_response op" "op_ref_count op' = op_ref_count op"
    "op_cport op' = op_cport op" "op_request_buffer op' = op_request_buffer op"
    "op_has_responded op' = op_has_responded op" using rb(1) by simp_all
qed

lemma lift_handlerD:
  assumes "lift_handler f c a = Some (res, c')"
  obtains op bnd op' w' where "get_op c a = Some op" and "f bnd (world c) op = Some (res, op', w')"
    and "c' = put_op a op' (c\<lparr>world := w'\<rparr>)"
  using assms by (auto simp: lift_handler_def bind_eq_Some_conv)

context gb_handler
begin

text \<open>Lifted to the core, a handler keeps the invariant and touches its own operation only.\<close>

lemma lift_ok:
  assumes inv: "core_inv h c"
  shows "wp True (lift_handler (H n) c a) (\<lambda>(r, c'). core_inv h c' \<and> handler_frame a c c')"
proof (cases "lift_handler (H n) c a")
  case (Some x)
  then obtain res c' where x: "lift_handler (H n) c a = Some (res, c')" by (cases x) auto
  from lift_handlerD[OF x] obtain op bnd op' w' where l: "get_op c a = Some op"
    "H n bnd (world c) op = Some (res, op', w')" "c' = put_op a op' (c\<lparr>world := w'\<rparr>)" .
  note k = resp_written_op_ok[OF written[OF l(2)] core_invD(3)[OF inv l(1)]]
  have "core_inv h c'"
    unfolding l(3) by (rule core_inv_put_op[where op = op]) (use inv l(1) k in simp_all)
  moreover have "handler_frame a c c'"
    using l(1,3) k get_op_SomeD[OF l(1)] by (auto simp: handler_frame_def core_simps intro!: rx_frame_same)
  ultimately show ?thesis using x by simp
qed simp

end

context gb_handler_echo
begin

lemma lift_echo:
  assumes "get_op c a = Some op" and "resp_echo op" and "short_request op"
    and "lift_handler (H n) c a = Some (r, c')" and "get_op c' a = Some op'"
  shows "resp_echo op'"
proof -
  from lift_handlerD[OF assms(4)] obtain op1 bnd op2 w' where l: "get_op c a = Some op1"
    "H n bnd (world c) op1 = Some (r, op2, w')" "c' = put_op a op2 (c\<lparr>world := w'\<rparr>)" .
  have "op' = op2" using l(1,3) assms(5) get_op_SomeD[OF l(1)] by (auto simp: core_simps)
  with echoed[OF _ l(2)] l(1) assms(1,2,3) show ?thesis by (simp add: echo_kept_def)
qed

end

section \<open>An operation for examples\<close>

definition sample_operation :: "nat \<Rightarrow> u16 \<Rightarrow> u8 \<Rightarrow> bytes \<Rightarrow> gb_operation" where
  "sample_operation cport ident ty p = \<lparr>op_cport = cport, op_has_responded = False, op_ref_count = 1,
     op_time = (0, 0), op_request_buffer = Some (hdr_bytes (word_of_nat (8 + length p)) ident ty 0 @ p),
     op_response_buffer = None, op_is_unipro_rx_buf = False, op_callback = None, op_sync_sem = 0,
     op_response = None, op_bundle = None\<rparr>"

lemma sample_operation_fields [simp]:
  "op_cport (sample_operation cport ident ty p) = cport"
  "op_request_buffer (sample_operation cport ident ty p)
     = Some (hdr_bytes (word_of_nat (8 + length p)) ident ty 0 @ p)"
  "op_response_buffer (sample_operation cport ident ty p) = None"
  "op_response (sample_operation cport ident ty p) = None" "op_ref_count (sample_operation cport ident ty p) = 1"
  "\<not> op_has_responded (sample_operation cport ident ty p)"
  by (simp_all add: sample_operation_def)

lemma sample_operation_ok:
  assumes "length p < 65528" and "cport < n"
  shows "op_ok n (sample_operation cport ident ty p)"
proof -
  have "unat (word_of_nat (8 + length p) :: u16) = 8 + length p" using assms(1) by (simp del: of_nat_add)
  then show ?thesis using assms(2) by (auto simp: op_ok_def sample_operation_def intro!: buffer_ok_hdr simp del: of_nat_add)
qed

lemma sample_operation_payload:
  assumes "length p < 65528"
  shows "payload_size (sample_operation cport ident ty p) = Some (length p)"
proof -
  have "unat (word_of_nat (8 + length p) :: u16) = 8 + length p" using assms by (simp del: of_nat_add)
  then show ?thesis
    by (simp add: payload_size_def gb_operation_get_request_payload_size_def del: of_nat_add)
qed

end
