(* ===== verification/Gb_Platform.thy ===== *)
theory Gb_Platform
  imports Gb_Handler
begin

text \<open>
  The map between cports and devices of \<^verbatim>\<open>subsys/greybus/platform/platform.c\<close>: a growing array
  of entries that is searched from its start. A device is a number; \<open>None\<close> is the null pointer.
  The mutex makes each function one step. The interface \<open>cport_map\<close> is what the drivers rely on:
  a look-up finds what was added, in either direction, and adding never changes an older entry.
\<close>

record map_entry =
  me_cport :: nat
  me_dev :: nat

type_synonym dev_map = "map_entry list"

text \<open>\<open>mem\<close> says whether \<^verbatim>\<open>realloc\<close> succeeds.\<close>

definition gb_add_cport_device_mapping ::
  "bool \<Rightarrow> nat \<Rightarrow> nat option \<Rightarrow> dev_map \<Rightarrow> int \<times> dev_map" where
  "gb_add_cport_device_mapping mem cport dev m =
     (case dev of
        None \<Rightarrow> (- EINVAL, m)
      | Some d \<Rightarrow>
          if list_ex (\<lambda>e. me_cport e = cport \<or> me_dev e = d) m then (- EALREADY, m)
          else if \<not> mem then (- ENOMEM, m)
          else (0, m @ [\<lparr>me_cport = cport, me_dev = d\<rparr>]))"

fun gb_device_to_cport :: "nat option \<Rightarrow> dev_map \<Rightarrow> int" where
  "gb_device_to_cport dev [] = - ENOENT"
| "gb_device_to_cport dev (e # m) =
     (if Some (me_dev e) = dev then int (me_cport e) else gb_device_to_cport dev m)"

fun gb_cport_to_device :: "nat \<Rightarrow> dev_map \<Rightarrow> nat option" where
  "gb_cport_to_device cport [] = None"
| "gb_cport_to_device cport (e # m) =
     (if me_cport e = cport then Some (me_dev e) else gb_cport_to_device cport m)"

definition map_ok :: "dev_map \<Rightarrow> bool" where
  "map_ok m \<longleftrightarrow> distinct (map me_cport m) \<and> distinct (map me_dev m)"

section \<open>The interface\<close>

locale cport_map =
  fixes ok :: "'m \<Rightarrow> bool"
    and add :: "nat \<Rightarrow> nat \<Rightarrow> 'm \<Rightarrow> int \<times> 'm"
    and to_cport :: "nat \<Rightarrow> 'm \<Rightarrow> int"
    and to_device :: "nat \<Rightarrow> 'm \<Rightarrow> nat option"
  assumes add_ok: "ok m \<Longrightarrow> ok (snd (add p d m))"
    and add_error: "fst (add p d m) \<noteq> 0 \<Longrightarrow> snd (add p d m) = m"
    and add_device: "ok m \<Longrightarrow> fst (add p d m) = 0 \<Longrightarrow>
      to_device q (snd (add p d m)) = (if q = p then Some d else to_device q m)"
    and inverse: "ok m \<Longrightarrow> to_device p m = Some d \<longleftrightarrow> to_cport d m = int p"
begin

text \<open>Adding a sequence of pairs, as the drivers' start-up code does, ignoring its results.\<close>

definition adds :: "(nat \<times> nat) list \<Rightarrow> 'm \<Rightarrow> 'm" where
  "adds ps m = foldl (\<lambda>m (p, d). snd (add p d m)) m ps"

lemma adds_Nil [simp]: "adds [] m = m"
  by (simp add: adds_def)

lemma adds_Cons [simp]: "adds ((p, d) # ps) m = adds ps (snd (add p d m))"
  by (simp add: adds_def)

lemma adds_ok: "ok m \<Longrightarrow> ok (adds ps m)"
  by (induction ps arbitrary: m) (auto simp: add_ok)

lemma add_stable:
  assumes "ok m" and "to_device q m = Some d"
    and "fst (add p e m) = 0 \<Longrightarrow> p \<noteq> q"
  shows "to_device q (snd (add p e m)) = Some d"
  using assms add_device add_error by (cases "fst (add p e m) = 0") auto

lemma mapping_injective:
  assumes "ok m" and "to_device p m = Some d" and "to_device q m = Some d"
  shows "p = q"
  using inverse[OF assms(1)] assms(2,3) by (metis of_nat_eq_iff)

end

section \<open>The array provides it\<close>

lemma map_ok_add: "map_ok m \<Longrightarrow> map_ok (snd (gb_add_cport_device_mapping mem p (Some d) m))"
  by (auto simp: map_ok_def gb_add_cport_device_mapping_def list_ex_iff)

lemma to_device_append:
  "gb_cport_to_device q (m @ [e]) =
     (case gb_cport_to_device q m of None \<Rightarrow> if me_cport e = q then Some (me_dev e) else None | Some d \<Rightarrow> Some d)"
  by (induction m) auto

lemma to_device_Some: "gb_cport_to_device q m = Some d \<Longrightarrow> \<exists>e \<in> set m. me_cport e = q \<and> me_dev e = d"
  by (induction m) (auto split: if_splits)

lemma to_device_iff:
  "distinct (map me_cport m) \<Longrightarrow>
     gb_cport_to_device q m = Some d \<longleftrightarrow> (\<exists>e \<in> set m. me_cport e = q \<and> me_dev e = d)"
  by (induction m) (auto simp: image_iff)

lemma to_cport_iff:
  "distinct (map me_dev m) \<Longrightarrow>
     gb_device_to_cport (Some d) m = int q \<longleftrightarrow> (\<exists>e \<in> set m. me_cport e = q \<and> me_dev e = d)"
  by (induction m) (auto simp: image_iff)

interpretation pm: cport_map map_ok "\<lambda>p d. gb_add_cport_device_mapping mem p (Some d)"
  "\<lambda>d. gb_device_to_cport (Some d)" gb_cport_to_device
proof
  fix m p d q
  show "map_ok m \<Longrightarrow> map_ok (snd (gb_add_cport_device_mapping mem p (Some d) m))"
    by (rule map_ok_add)
  show "fst (gb_add_cport_device_mapping mem p (Some d) m) \<noteq> 0 \<Longrightarrow>
      snd (gb_add_cport_device_mapping mem p (Some d) m) = m"
    by (simp add: gb_add_cport_device_mapping_def split: if_splits)
  show "map_ok m \<Longrightarrow> fst (gb_add_cport_device_mapping mem p (Some d) m) = 0 \<Longrightarrow>
      gb_cport_to_device q (snd (gb_add_cport_device_mapping mem p (Some d) m)) =
      (if q = p then Some d else gb_cport_to_device q m)"
    using to_device_Some[of p m]
    by (auto simp: gb_add_cport_device_mapping_def to_device_append list_ex_iff split: if_splits option.splits)
  show "map_ok m \<Longrightarrow> (gb_cport_to_device p m = Some d) = (gb_device_to_cport (Some d) m = int p)"
    by (simp add: map_ok_def to_device_iff to_cport_iff)
qed

section \<open>The map after any sequence of additions\<close>

definition add_all :: "(bool \<times> nat \<times> nat option) list \<Rightarrow> dev_map" where
  "add_all as = foldl (\<lambda>m (mem, p, d). snd (gb_add_cport_device_mapping mem p d m)) [] as"

lemma map_ok_add_all: "map_ok (add_all as)"
proof (induction as rule: rev_induct)
  case Nil
  then show ?case by (simp add: add_all_def map_ok_def)
next
  case (snoc x xs)
  obtain mem p d where "x = (mem, p, d)" by (cases x)
  then show ?case using snoc map_ok_add[of "add_all xs" mem p]
    by (cases d) (simp_all add: add_all_def gb_add_cport_device_mapping_def[of _ _ None])
qed

text \<open>
  The two look-ups are inverse to each other after every sequence of additions, whatever their
  arguments and whether memory was available: a cport has a device exactly when the device has
  this cport.
\<close>

theorem cport_device_inverse:
  "gb_cport_to_device p (add_all as) = Some d \<longleftrightarrow> gb_device_to_cport (Some d) (add_all as) = int p"
  by (rule pm.inverse[OF map_ok_add_all])

end
