(* ===== verification/Gb_Gpio.thy ===== *)
theory Gb_Gpio
  imports Gb_Platform
begin

text \<open>
  The GPIO protocol, \<^verbatim>\<open>subsys/greybus/gpio.c\<close> with the request and response structures of
  \<^verbatim>\<open>gpio-gb.h\<close>. The GPIO API of Zephyr is the record \<open>gpio_api\<close> over the state of the
  devices; interrupt flags are the pair of a mode and a trigger, as the source composes them.
  The events that a pin raises (\<^verbatim>\<open>gb_gpio_irq_event\<close>) go through the core.
\<close>

unbundle bit_operations_syntax

datatype gpio_flags = GPIO_INPUT | GPIO_OUTPUT | GPIO_DEBOUNCE
datatype gpio_int_mode = GPIO_INT_MODE_DISABLED | GPIO_INT_MODE_LEVEL | GPIO_INT_MODE_EDGE
datatype gpio_int_trig = GPIO_INT_TRIG_NONE | GPIO_INT_TRIG_LOW | GPIO_INT_TRIG_HIGH | GPIO_INT_TRIG_BOTH

record 'w gpio_api =
  gpio_alloc :: "'w alloc_fn"
  gpio_pin_mask :: "nat \<Rightarrow> u32"
  gpio_pin_configure :: "nat \<Rightarrow> u8 \<Rightarrow> gpio_flags \<Rightarrow> 'w \<Rightarrow> int \<times> 'w"
  gpio_pin_is_input :: "nat \<Rightarrow> u8 \<Rightarrow> 'w \<Rightarrow> int \<times> 'w"
  gpio_pin_get :: "nat \<Rightarrow> u8 \<Rightarrow> 'w \<Rightarrow> int \<times> 'w"
  gpio_pin_set :: "nat \<Rightarrow> u8 \<Rightarrow> u8 \<Rightarrow> 'w \<Rightarrow> int \<times> 'w"
  gpio_pin_interrupt_configure :: "nat \<Rightarrow> u8 \<Rightarrow> gpio_int_mode \<times> gpio_int_trig \<Rightarrow> 'w \<Rightarrow> int \<times> 'w"

definition POPCOUNT :: "u32 \<Rightarrow> nat" where
  "POPCOUNT w = length (filter (bit w) [0 ..< 32])"

section \<open>Handlers\<close>

definition gb_gpio_protocol_version :: "'w gpio_api \<Rightarrow> 'w handler" where
  "gb_gpio_protocol_version api bnd w op = do {
     (ok, op1, w1) \<leftarrow> gb_operation_alloc_response (gpio_alloc api) w op 2;
     if \<not> ok then Some (GB_OP_NO_MEMORY, op1, w1)
     else do { op2 \<leftarrow> resp8 op1 0 0; op3 \<leftarrow> resp8 op2 1 1; Some (GB_OP_SUCCESS, op3, w1) } }"

definition gb_gpio_line_count :: "'w gpio_api \<Rightarrow> 'w handler" where
  "gb_gpio_line_count api bnd w op = do {
     slot \<leftarrow> bundle_dev bnd (cport_idx (op_cport op) bnd);
     (case slot of
        None \<Rightarrow> Some (GB_OP_INVALID, op, w)
      | Some dev \<Rightarrow> do {
          (ok, op1, w1) \<leftarrow> gb_operation_alloc_response (gpio_alloc api) w op 1;
          if \<not> ok then Some (GB_OP_NO_MEMORY, op1, w1)
          else
            let count = word_of_nat (POPCOUNT (gpio_pin_mask api dev)) :: u8 in
            if count = 0 then Some (GB_OP_UNKNOWN_ERROR, op1, w1)
            else do { op2 \<leftarrow> resp8 op1 0 (count - 1); Some (GB_OP_SUCCESS, op2, w1) } }) }"

text \<open>
  What the handlers below have in common: the device of the cport, the size of the request and the
  number of the pin in its first octet. The bound is the number of bits of the pin mask, not the
  mask itself. \<open>Inl\<close> is the early return.
\<close>

definition gpio_request :: "'w gpio_api \<Rightarrow> gb_bundle \<Rightarrow> gb_operation \<Rightarrow> nat \<Rightarrow> (u8 + nat \<times> u8) option" where
  "gpio_request api bnd op req_size = do {
     slot \<leftarrow> bundle_dev bnd (cport_idx (op_cport op) bnd);
     (case slot of
        None \<Rightarrow> Some (Inl GB_OP_INVALID)
      | Some dev \<Rightarrow> do {
          n \<leftarrow> payload_size op;
          if n < req_size then Some (Inl GB_OP_INVALID)
          else do {
            which \<leftarrow> req8 op 0;
            if POPCOUNT (gpio_pin_mask api dev) \<le> unat which then Some (Inl GB_OP_INVALID)
            else Some (Inr (dev, which)) } }) }"

text \<open>The device call of a handler and its result.\<close>

definition gpio_call :: "gb_operation \<Rightarrow> int \<times> 'w \<Rightarrow> (u8 \<times> gb_operation \<times> 'w) option" where
  "gpio_call op r = Some (gb_errno_to_op_result (fst r), op, snd r)"

definition gb_gpio_activate :: "'w gpio_api \<Rightarrow> 'w handler" where
  "gb_gpio_activate api bnd w op = do {
     line \<leftarrow> gpio_request api bnd op 1;
     (case line of Inl e \<Rightarrow> Some (e, op, w) | Inr (dev, which) \<Rightarrow> Some (GB_OP_SUCCESS, op, w)) }"

definition gb_gpio_deactivate :: "'w gpio_api \<Rightarrow> 'w handler" where
  "gb_gpio_deactivate api bnd w op = do {
     line \<leftarrow> gpio_request api bnd op 1;
     (case line of Inl e \<Rightarrow> Some (e, op, w) | Inr (dev, which) \<Rightarrow> Some (GB_OP_SUCCESS, op, w)) }"

text \<open>\<^verbatim>\<open>bool dir\<close> is true for every non-zero result, an error included.\<close>

definition gb_gpio_get_direction :: "'w gpio_api \<Rightarrow> 'w handler" where
  "gb_gpio_get_direction api bnd w op = do {
     line \<leftarrow> gpio_request api bnd op 1;
     (case line of
        Inl e \<Rightarrow> Some (e, op, w)
      | Inr (dev, which) \<Rightarrow> do {
          (ok, op1, w1) \<leftarrow> gb_operation_alloc_response (gpio_alloc api) w op 1;
          if \<not> ok then Some (GB_OP_NO_MEMORY, op1, w1)
          else do {
            let (dir, w2) = gpio_pin_is_input api dev which w1;
            op2 \<leftarrow> resp8 op1 0 (if dir \<noteq> 0 then 0 else 1);
            Some (GB_OP_SUCCESS, op2, w2) } }) }"

definition gb_gpio_direction_in :: "'w gpio_api \<Rightarrow> 'w handler" where
  "gb_gpio_direction_in api bnd w op = do {
     line \<leftarrow> gpio_request api bnd op 1;
     (case line of
        Inl e \<Rightarrow> Some (e, op, w)
      | Inr (dev, which) \<Rightarrow> gpio_call op (gpio_pin_configure api dev which GPIO_INPUT w)) }"

definition gb_gpio_direction_out :: "'w gpio_api \<Rightarrow> 'w handler" where
  "gb_gpio_direction_out api bnd w op = do {
     line \<leftarrow> gpio_request api bnd op 2;
     (case line of
        Inl e \<Rightarrow> Some (e, op, w)
      | Inr (dev, which) \<Rightarrow>
          let (ret, w1) = gpio_pin_configure api dev which GPIO_OUTPUT w in
          if ret \<noteq> 0 then Some (gb_errno_to_op_result (- ret), op, w1)
          else do {
            val \<leftarrow> req8 op 1;
            let (ret2, w2) = gpio_pin_set api dev which val w1;
            if ret2 \<noteq> 0 then Some (gb_errno_to_op_result (- ret2), op, w2)
            else Some (GB_OP_SUCCESS, op, w2) }) }"

definition gb_gpio_get_value :: "'w gpio_api \<Rightarrow> 'w handler" where
  "gb_gpio_get_value api bnd w op = do {
     line \<leftarrow> gpio_request api bnd op 1;
     (case line of
        Inl e \<Rightarrow> Some (e, op, w)
      | Inr (dev, which) \<Rightarrow> do {
          (ok, op1, w1) \<leftarrow> gb_operation_alloc_response (gpio_alloc api) w op 1;
          if \<not> ok then Some (GB_OP_NO_MEMORY, op1, w1)
          else do {
            let (v, w2) = gpio_pin_get api dev which w1;
            op2 \<leftarrow> resp8 op1 0 (word_of_int v);
            Some (GB_OP_SUCCESS, op2, w2) } }) }"

definition gb_gpio_set_value :: "'w gpio_api \<Rightarrow> 'w handler" where
  "gb_gpio_set_value api bnd w op = do {
     line \<leftarrow> gpio_request api bnd op 2;
     (case line of
        Inl e \<Rightarrow> Some (e, op, w)
      | Inr (dev, which) \<Rightarrow> do {
          val \<leftarrow> req8 op 1; gpio_call op (gpio_pin_set api dev which val w) }) }"

definition gb_gpio_set_debounce :: "'w gpio_api \<Rightarrow> 'w handler" where
  "gb_gpio_set_debounce api bnd w op = do {
     line \<leftarrow> gpio_request api bnd op 3;
     (case line of
        Inl e \<Rightarrow> Some (e, op, w)
      | Inr (dev, which) \<Rightarrow> do {
          usec \<leftarrow> req16 op 1;
          if 0 < usec then gpio_call op (gpio_pin_configure api dev which GPIO_DEBOUNCE w)
          else Some (GB_OP_SUCCESS, op, w) }) }"

definition gb_gpio_irq_mask :: "'w gpio_api \<Rightarrow> 'w handler" where
  "gb_gpio_irq_mask api bnd w op = do {
     line \<leftarrow> gpio_request api bnd op 1;
     (case line of
        Inl e \<Rightarrow> Some (e, op, w)
      | Inr (dev, which) \<Rightarrow> gpio_call op (gpio_pin_interrupt_configure api dev which
          (GPIO_INT_MODE_DISABLED, GPIO_INT_TRIG_NONE) w)) }"

definition gb_gpio_irq_unmask :: "'w gpio_api \<Rightarrow> 'w handler" where
  "gb_gpio_irq_unmask api bnd w op = do {
     line \<leftarrow> gpio_request api bnd op 1;
     (case line of
        Inl e \<Rightarrow> Some (e, op, w)
      | Inr (dev, which) \<Rightarrow> gpio_call op (gpio_pin_interrupt_configure api dev which
          (GPIO_INT_MODE_EDGE, GPIO_INT_TRIG_HIGH) w)) }"

text \<open>The switch of \<^verbatim>\<open>gb_gpio_irq_type\<close>, case by case as it is written.\<close>

definition gpio_irq_flags :: "u8 \<Rightarrow> (gpio_int_mode \<times> gpio_int_trig) option" where
  "gpio_irq_flags ty =
     (if ty = 0 then Some (GPIO_INT_MODE_DISABLED, GPIO_INT_TRIG_NONE)
      else if ty = 1 then Some (GPIO_INT_MODE_EDGE, GPIO_INT_TRIG_HIGH)
      else if ty = 2 then Some (GPIO_INT_MODE_EDGE, GPIO_INT_TRIG_LOW)
      else if ty = 3 then Some (GPIO_INT_MODE_EDGE, GPIO_INT_TRIG_BOTH)
      else if ty = 4 then Some (GPIO_INT_MODE_LEVEL, GPIO_INT_TRIG_HIGH)
      else if ty = 8 then Some (GPIO_INT_MODE_LEVEL, GPIO_INT_TRIG_HIGH)
      else None)"

definition gb_gpio_irq_type :: "'w gpio_api \<Rightarrow> 'w handler" where
  "gb_gpio_irq_type api bnd w op = do {
     line \<leftarrow> gpio_request api bnd op 2;
     (case line of
        Inl e \<Rightarrow> Some (e, op, w)
      | Inr (dev, which) \<Rightarrow> do {
          ty \<leftarrow> req8 op 1;
          (case gpio_irq_flags ty of
             None \<Rightarrow> Some (GB_OP_INVALID, op, w)
           | Some flags \<Rightarrow> gpio_call op (gpio_pin_interrupt_configure api dev which flags w)) }) }"

section \<open>The driver\<close>

text \<open>The handler table by type; other numbers are not in it.\<close>

definition gpio_handler :: "'w gpio_api \<Rightarrow> nat \<Rightarrow> 'w handler" where
  "gpio_handler api n =
     (if n = 1 then gb_gpio_protocol_version api
      else if n = 2 then gb_gpio_line_count api
      else if n = 3 then gb_gpio_activate api
      else if n = 4 then gb_gpio_deactivate api
      else if n = 5 then gb_gpio_get_direction api
      else if n = 6 then gb_gpio_direction_in api
      else if n = 7 then gb_gpio_direction_out api
      else if n = 8 then gb_gpio_get_value api
      else if n = 9 then gb_gpio_set_value api
      else if n = 10 then gb_gpio_set_debounce api
      else if n = 11 then gb_gpio_irq_type api
      else if n = 12 then gb_gpio_irq_mask api
      else if n = 13 then gb_gpio_irq_unmask api
      else (\<lambda>bnd w op. None))"

definition gb_gpio_init :: "dev_map \<Rightarrow> nat \<Rightarrow> gb_bundle \<Rightarrow> (int \<times> gb_bundle) option" where
  "gb_gpio_init m cport bnd =
     (let i = cport_idx cport bnd; dev = gb_cport_to_device cport m in
      if length (bnd_dev bnd) \<le> i then None
      else Some (if dev = None then - EIO else 0, bnd\<lparr>bnd_dev := (bnd_dev bnd)[i := dev]\<rparr>))"

text \<open>
  The event of a pin: an unidirectional request of one octet, the interrupt masked until the host
  unmasks it.
\<close>

definition gb_gpio_irq_event ::
  "'w env \<Rightarrow> 'w gpio_api \<Rightarrow> dev_map \<Rightarrow> u8 \<Rightarrow> nat \<Rightarrow> 'w core \<Rightarrow> (int \<times> 'w core) option" where
  "gb_gpio_irq_event E api m irq dev c =
     (let cport = gb_device_to_cport (Some dev) m in
      if cport < 0 then Some (- EINVAL, c)
      else do {
        (r, c1) \<leftarrow> gb_operation_create E (nat cport) 0x0e 1 c;
        (case r of
           None \<Rightarrow> Some (0, c1)
         | Some a \<Rightarrow> do {
             op \<leftarrow> get_op c1 a;
             b \<leftarrow> op_request_buffer op;
             b' \<leftarrow> wr8 b HDR_SIZE irq;
             let c2 = put_op a (op\<lparr>op_request_buffer := Some b'\<rparr>) c1;
             let (_, w) = gpio_pin_interrupt_configure api dev irq
                            (GPIO_INT_MODE_DISABLED, GPIO_INT_TRIG_NONE) (world c2);
             (_, c3) \<leftarrow> gb_operation_send_request_nowait E a None False (c2\<lparr>world := w\<rparr>);
             c4 \<leftarrow> gb_operation_destroy E a c3;
             Some (0, c4) }) })"

section \<open>The handlers keep to the interface\<close>

lemmas gpio_defs = gb_gpio_protocol_version_def gb_gpio_line_count_def gb_gpio_activate_def
  gb_gpio_deactivate_def gb_gpio_get_direction_def gb_gpio_direction_in_def gb_gpio_direction_out_def
  gb_gpio_get_value_def gb_gpio_set_value_def gb_gpio_set_debounce_def gb_gpio_irq_type_def
  gb_gpio_irq_mask_def gb_gpio_irq_unmask_def

lemma wp_gpio_request:
  "wp True (gpio_request api bnd op n) P \<longleftrightarrow> (\<forall>x. gpio_request api bnd op n = Some x \<longrightarrow> P x)"
  by (rule wp_True_iff)

lemma gpio_kept: "handler_kept (gpio_handler api n)"
  by (rule handler_keptI)
     (auto simp: gpio_handler_def gpio_defs gpio_call_def Let_def wp_atoms wp_gpio_request
        split: option.splits sum.splits prod.splits
        dest!: kept_writes kept_alloc intro: kept_trans)

interpretation gpio: gb_handler_echo "gpio_handler api"
  by unfold_locales (auto dest!: handler_keptD[OF gpio_kept] simp: kept_def)

section \<open>Requests are checked before they are used\<close>

definition line_of :: "'w gpio_api \<Rightarrow> gb_bundle \<Rightarrow> gb_operation \<Rightarrow> nat option" where
  "line_of api bnd op =
     (let i = cport_idx (op_cport op) bnd in if i < length (bnd_dev bnd) then bnd_dev bnd ! i else None)"

lemma gpio_request_cases:
  assumes op: "op_ok k op" and slot: "cport_idx (op_cport op) bnd < length (bnd_dev bnd)" and n: "1 \<le> n"
  obtains (invalid) "gpio_request api bnd op n = Some (Inl GB_OP_INVALID)"
  | (line) dev which b where "gpio_request api bnd op n = Some (Inr (dev, which))"
      and "line_of api bnd op = Some dev" and "unat which < POPCOUNT (gpio_pin_mask api dev)"
      and "op_request_buffer op = Some b" and "HDR_SIZE + n \<le> length b" and "which = b ! HDR_SIZE"
proof -
  from op_ok_request[OF op] obtain req sz where r: "op_request_buffer op = Some req" "8 \<le> length req"
    "hdr_size req = Some sz" "unat sz \<le> length req" by metis
  have ps: "payload_size op = Some (unat sz - 8)"
    using r by (simp add: payload_size_def gb_operation_get_request_payload_size_def)
  show ?thesis
  proof (cases "line_of api bnd op")
    case None
    then show ?thesis using invalid slot by (simp add: gpio_request_def bundle_dev_def line_of_def Let_def)
  next
    case (Some dev)
    then have d: "bundle_dev bnd (cport_idx (op_cport op) bnd) = Some (Some dev)"
      using slot by (simp add: bundle_dev_def line_of_def Let_def)
    show ?thesis
    proof (cases "unat sz - 8 < n")
      case True
      then show ?thesis using invalid d ps by (simp add: gpio_request_def)
    next
      case False
      then have len: "8 + n \<le> length req" using r(4) n by simp
      then have w: "req8 op 0 = Some (req ! 8)" using r(1) n by (simp add: req8_def rd8_def)
      show ?thesis
        using invalid line[of dev "req ! 8" req] False Some d ps w r(1) len
        by (cases "POPCOUNT (gpio_pin_mask api dev) \<le> unat (req ! 8)") (simp_all add: gpio_request_def)
    qed
  qed
qed

text \<open>
  C30. No request of a host makes a GPIO handler touch memory outside its buffers: on any well-formed
  operation of a cport that is in its bundle, every handler of the driver ends with a result.
\<close>

theorem gpio_total:
  assumes op: "op_ok k op" and slot: "cport_idx (op_cport op) bnd < length (bnd_dev bnd)"
    and n: "1 \<le> n" "n \<le> 13"
  shows "gpio_handler api n bnd w op \<noteq> None"
proof -
  have val: "req8 op 1 \<noteq> None" if "op_request_buffer op = Some b" "8 + 2 \<le> length b" for b
    using that by (simp add: req8_def)
  have usec: "req16 op 1 \<noteq> None" if "op_request_buffer op = Some b" "8 + 3 \<le> length b" for b
    using that by (simp add: req16_def)
  note al = alloc_answer[OF op, of _ "gpio_alloc api" w]
  have le: "1 \<le> (1 :: nat)" "1 \<le> (2 :: nat)" "1 \<le> (3 :: nat)" by simp_all
  note req = gpio_request_cases[OF op slot le(1), of api] gpio_request_cases[OF op slot le(2), of api]
    gpio_request_cases[OF op slot le(3), of api]
  have "n = 1 \<or> n = 2 \<or> n = 3 \<or> n = 4 \<or> n = 5 \<or> n = 6 \<or> n = 7 \<or> n = 8 \<or> n = 9 \<or> n = 10
    \<or> n = 11 \<or> n = 12 \<or> n = 13" using n by presburger
  then consider "n = 1" | "n = 2" | "n = 3" | "n = 4" | "n = 5" | "n = 6" | "n = 7" | "n = 8" | "n = 9"
    | "n = 10" | "n = 11" | "n = 12" | "n = 13" by blast
  then show ?thesis
  proof cases
    case 1
    then show ?thesis using al[of 2]
      by (auto simp: gpio_handler_def gb_gpio_protocol_version_def resp8_payload)
  next
    case 2
    then show ?thesis using al[of 1] slot
      by (auto simp: gpio_handler_def gb_gpio_line_count_def bundle_dev_def resp8_payload Let_def split: option.splits)
  next
    case 3
    then show ?thesis by (-, cases rule: req(1), auto simp: gpio_handler_def gb_gpio_activate_def)
  next
    case 4
    then show ?thesis by (-, cases rule: req(1), auto simp: gpio_handler_def gb_gpio_deactivate_def)
  next
    case 5
    then show ?thesis using al[of 1]
      by (-, cases rule: req(1), auto simp: gpio_handler_def gb_gpio_get_direction_def resp8_payload split: prod.splits)
  next
    case 6
    then show ?thesis
      by (-, cases rule: req(1), auto simp: gpio_handler_def gb_gpio_direction_in_def gpio_call_def)
  next
    case 7
    then show ?thesis using val
      by (-, cases rule: req(2), auto simp: gpio_handler_def gb_gpio_direction_out_def split: prod.splits)
  next
    case 8
    then show ?thesis using al[of 1]
      by (-, cases rule: req(1), auto simp: gpio_handler_def gb_gpio_get_value_def resp8_payload split: prod.splits)
  next
    case 9
    then show ?thesis using val
      by (-, cases rule: req(2), auto simp: gpio_handler_def gb_gpio_set_value_def gpio_call_def)
  next
    case 10
    then show ?thesis using usec
      by (-, cases rule: req(3), auto simp: gpio_handler_def gb_gpio_set_debounce_def gpio_call_def)
  next
    case 11
    then show ?thesis using val
      by (-, cases rule: req(2), auto simp: gpio_handler_def gb_gpio_irq_type_def gpio_call_def split: option.splits)
  next
    case 12
    then show ?thesis
      by (-, cases rule: req(1), auto simp: gpio_handler_def gb_gpio_irq_mask_def gpio_call_def)
  next
    case 13
    then show ?thesis
      by (-, cases rule: req(1), auto simp: gpio_handler_def gb_gpio_irq_unmask_def gpio_call_def)
  qed
qed

definition sample_gpio :: "unit gpio_api" where
  "sample_gpio = \<lparr>gpio_alloc = (\<lambda>w n. (True, w)), gpio_pin_mask = (\<lambda>d. 0xff),
     gpio_pin_configure = (\<lambda>d p f w. (0, w)), gpio_pin_is_input = (\<lambda>d p w. (1, w)),
     gpio_pin_get = (\<lambda>d p w. (1, w)), gpio_pin_set = (\<lambda>d p v w. (0, w)),
     gpio_pin_interrupt_configure = (\<lambda>d p f w. (0, w))\<rparr>"

definition sample_gpio_bundle :: gb_bundle where
  "sample_gpio_bundle = \<lparr>bnd_id = 1, bnd_cport_start = 3, bnd_dev = [Some 7]\<rparr>"

lemma sample_gpio_slot [simp]:
  "cport_idx 3 sample_gpio_bundle = 0" "bnd_dev sample_gpio_bundle = [Some 7]"
  by (simp_all add: cport_idx_def sample_gpio_bundle_def)

theorem gpio_total_witness:
  "gpio_handler sample_gpio 9 sample_gpio_bundle () (sample_operation 3 5 9 [2, 1]) \<noteq> None"
  by (rule gpio_total[OF sample_operation_ok[where n = 4]]) simp_all


lemma POPCOUNT_octet: "POPCOUNT 0xff = 8"
  by (simp add: POPCOUNT_def upt_rec)

lemma sample_gpio_mask: "gpio_pin_mask sample_gpio dev = 0xff"
  by (simp add: sample_gpio_def)


text \<open>
  An interrupt on a low level is configured as an interrupt on a high level.
\<close>

theorem gb_gpio_irq_type_level_low:
  assumes "gpio_request api bnd op 2 = Some (Inr (dev, which))" and "req8 op 1 = Some 8"
  shows "gb_gpio_irq_type api bnd w op =
    gpio_call op (gpio_pin_interrupt_configure api dev which (GPIO_INT_MODE_LEVEL, GPIO_INT_TRIG_HIGH) w)"
  using assms by (simp add: gb_gpio_irq_type_def gpio_irq_flags_def)

theorem gb_gpio_irq_type_level_low_witness:
  "gb_gpio_irq_type sample_gpio sample_gpio_bundle () (sample_operation 3 5 11 [2, 8]) =
     gpio_call (sample_operation 3 5 11 [2, 8])
       (gpio_pin_interrupt_configure sample_gpio 7 2 (GPIO_INT_MODE_LEVEL, GPIO_INT_TRIG_HIGH) ())"
  by (rule gb_gpio_irq_type_level_low)
    (simp_all add: gpio_request_def bundle_dev_def sample_operation_payload sample_gpio_mask POPCOUNT_octet
      req8_def rd8_def nth_append)

end
