(* ===== verification/Gb_I2c.thy ===== *)
theory Gb_I2c
  imports Gb_Platform
begin

text \<open>
  The I2C protocol, \<^verbatim>\<open>subsys/greybus/i2c.c\<close> with the structures of \<^verbatim>\<open>i2c-gb.h\<close>. A transfer
  request is a count, that many descriptors and the data of the writes; the handler turns it into
  the message list of \<^verbatim>\<open>i2c_transfer\<close>, whose reads land in the response one after the other. The
  bus is the parameter \<open>i2c_transfer\<close>: result, octets read in the order of the read messages, new
  state.
\<close>

unbundle bit_operations_syntax

datatype i2c_msg = I2c_write bytes | I2c_read nat

record 'w i2c_api =
  i2c_alloc :: "'w alloc_fn"
  i2c_malloc :: "'w alloc_fn"
  i2c_transfer :: "nat option \<Rightarrow> i2c_msg list \<Rightarrow> u16 \<Rightarrow> 'w \<Rightarrow> int \<times> bytes \<times> 'w"

definition gb_i2c_protocol_version :: "'w i2c_api \<Rightarrow> 'w handler" where
  "gb_i2c_protocol_version api bnd w op = do {
     (ok, op1, w1) \<leftarrow> gb_operation_alloc_response (i2c_alloc api) w op 2;
     if \<not> ok then Some (GB_OP_NO_MEMORY, op1, w1)
     else do { op2 \<leftarrow> resp8 op1 0 0; op3 \<leftarrow> resp8 op2 1 1; Some (GB_OP_SUCCESS, op3, w1) } }"

definition GB_I2C_FUNCTIONALITY :: u32 where
  "GB_I2C_FUNCTIONALITY =
     0x00000001 OR 0x00020000 OR 0x00040000 OR 0x00080000 OR 0x00100000 OR 0x00200000 OR 0x00400000
     OR 0x04000000 OR 0x08000000"

definition gb_i2c_protocol_functionality :: "'w i2c_api \<Rightarrow> 'w handler" where
  "gb_i2c_protocol_functionality api bnd w op = do {
     (ok, op1, w1) \<leftarrow> gb_operation_alloc_response (i2c_alloc api) w op 4;
     if \<not> ok then Some (GB_OP_NO_MEMORY, op1, w1)
     else do { op2 \<leftarrow> resp32 op1 0 GB_I2C_FUNCTIONALITY; Some (GB_OP_SUCCESS, op2, w1) } }"

section \<open>Transfers\<close>

record gb_i2c_transfer_desc =
  id_addr :: u16
  id_flags :: u16
  id_size :: u16

text \<open>\<^verbatim>\<open>request->desc[i]\<close>: six octets behind the count.\<close>

definition i2c_desc :: "gb_operation \<Rightarrow> nat \<Rightarrow> gb_i2c_transfer_desc option" where
  "i2c_desc op i = do {
     addr \<leftarrow> req16 op (2 + 6 * i); flags \<leftarrow> req16 op (4 + 6 * i); sz \<leftarrow> req16 op (6 + 6 * i);
     Some \<lparr>id_addr = addr, id_flags = flags, id_size = sz\<rparr> }"

fun i2c_descs :: "gb_operation \<Rightarrow> nat \<Rightarrow> nat \<Rightarrow> gb_i2c_transfer_desc list option" where
  "i2c_descs op i 0 = Some []"
| "i2c_descs op i (Suc n) = do { d \<leftarrow> i2c_desc op i; ds \<leftarrow> i2c_descs op (i + 1) n; Some (d # ds) }"

definition read_op :: "gb_i2c_transfer_desc \<Rightarrow> bool" where
  "read_op d \<longleftrightarrow> id_flags d AND 0x0001 \<noteq> 0"

definition i2c_read_size :: "gb_i2c_transfer_desc list \<Rightarrow> nat" where
  "i2c_read_size ds = (\<Sum>d \<leftarrow> ds. if read_op d then unat (id_size d) else 0)"

text \<open>
  The loop that fills the messages: for a write the offset of its data in the request and its
  length. \<open>None\<close> is the exit when a descriptor names another address.
\<close>

datatype i2c_buf = Read_buf nat | Write_buf nat nat

fun i2c_requests :: "u16 \<Rightarrow> nat \<Rightarrow> gb_i2c_transfer_desc list \<Rightarrow> i2c_buf list option" where
  "i2c_requests addr write_data [] = Some []"
| "i2c_requests addr write_data (d # ds) =
     (if id_addr d \<noteq> addr then None
      else if read_op d then
        map_option (Cons (Read_buf (unat (id_size d)))) (i2c_requests addr write_data ds)
      else
        map_option (Cons (Write_buf write_data (unat (id_size d))))
          (i2c_requests addr (write_data + unat (id_size d)) ds))"

text \<open>What the bus driver reads through the message: no check keeps a write inside the request.\<close>

fun i2c_load :: "gb_operation \<Rightarrow> i2c_buf list \<Rightarrow> i2c_msg list option" where
  "i2c_load op [] = Some []"
| "i2c_load op (Read_buf n # bs) = do { ms \<leftarrow> i2c_load op bs; Some (I2c_read n # ms) }"
| "i2c_load op (Write_buf off n # bs) = do {
     xs \<leftarrow> req_slice op off n; ms \<leftarrow> i2c_load op bs; Some (I2c_write xs # ms) }"

definition i2c_address :: "gb_i2c_transfer_desc list \<Rightarrow> u16" where
  "i2c_address ds = (case ds of [] \<Rightarrow> 0xffff | d # _ \<Rightarrow> id_addr d)"

text \<open>The part behind the allocations.\<close>

definition i2c_run :: "'w i2c_api \<Rightarrow> gb_bundle \<Rightarrow> 'w \<Rightarrow> gb_operation \<Rightarrow> gb_i2c_transfer_desc list \<Rightarrow>
    (u8 \<times> gb_operation \<times> 'w) option" where
  "i2c_run api bnd w op ds =
     (case i2c_requests (i2c_address ds) (2 + 6 * length ds) ds of
        None \<Rightarrow> Some (gb_errno_to_op_result (- EINVAL), op, w)
      | Some bufs \<Rightarrow> do {
          dev \<leftarrow> bundle_dev bnd (cport_idx (op_cport op) bnd);
          msgs \<leftarrow> i2c_load op bufs;
          let (ret, octets, w1) = i2c_transfer api dev msgs (i2c_address ds) w;
          op1 \<leftarrow> resp_slice op 0 octets;
          Some (gb_errno_to_op_result ret, op1, w1) })"

definition gb_i2c_protocol_transfer :: "'w i2c_api \<Rightarrow> 'w handler" where
  "gb_i2c_protocol_transfer api bnd w op = do {
     req_size \<leftarrow> payload_size op;
     if req_size < 2 then Some (GB_OP_INVALID, op, w)
     else do {
       op_count \<leftarrow> req16 op 0;
       if req_size < 2 + 6 * unat op_count then Some (GB_OP_INVALID, op, w)
       else do {
         ds \<leftarrow> i2c_descs op 0 (unat op_count);
         (ok, op1, w1) \<leftarrow> gb_operation_alloc_response (i2c_alloc api) w op (i2c_read_size ds);
         if \<not> ok then Some (GB_OP_NO_MEMORY, op1, w1)
         else
           let (ok2, w2) = i2c_malloc api w1 (12 * unat op_count) in
           if \<not> ok2 then Some (GB_OP_NO_MEMORY, op1, w2)
           else i2c_run api bnd w2 op1 ds } } }"

definition i2c_handler :: "'w i2c_api \<Rightarrow> nat \<Rightarrow> 'w handler" where
  "i2c_handler api n =
     (if n = 1 then gb_i2c_protocol_version api
      else if n = 2 then gb_i2c_protocol_functionality api
      else if n = 5 then gb_i2c_protocol_transfer api
      else (\<lambda>bnd w op. None))"

definition gb_i2c_init :: "dev_map \<Rightarrow> nat \<Rightarrow> gb_bundle \<Rightarrow> (int \<times> gb_bundle) option" where
  "gb_i2c_init m cport bnd =
     (let i = cport_idx cport bnd; dev = gb_cport_to_device cport m in
      if length (bnd_dev bnd) \<le> i then None
      else Some (if dev = None then - EIO else 0, bnd\<lparr>bnd_dev := (bnd_dev bnd)[i := dev]\<rparr>))"

section \<open>The handlers keep to the interface\<close>

lemma i2c_descs_length: "i2c_descs op i n = Some ds \<Longrightarrow> length ds = n"
  by (induction n arbitrary: i ds) (auto simp: bind_eq_Some_conv)

lemma i2c_read_size_bound: "i2c_read_size ds \<le> length ds * 65535"
proof (induction ds)
  case (Cons d ds)
  then show ?case using unat_u16_lt[of "id_size d"] by (auto simp: i2c_read_size_def)
qed (simp add: i2c_read_size_def)

lemma i2c_alloc_fits:
  assumes "i2c_descs op i (unat (n :: u16)) = Some ds"
  shows "i2c_read_size ds + 8 < 2 ^ 32"
proof -
  have "i2c_read_size ds \<le> unat n * 65535"
    using i2c_read_size_bound[of ds] i2c_descs_length[OF assms] by simp
  also have "\<dots> \<le> 65535 * 65535" using unat_u16_lt[of n] by (intro mult_right_mono) auto
  finally show ?thesis by simp
qed

lemma wp_i2c_atoms:
  "wp True (i2c_load op bufs) P \<longleftrightarrow> (\<forall>x. i2c_load op bufs = Some x \<longrightarrow> P x)"
  "wp True (i2c_descs op i n) Q \<longleftrightarrow> (\<forall>x. i2c_descs op i n = Some x \<longrightarrow> Q x)"
  by (simp_all add: wp_True_iff)

lemma i2c_run_written: "wp True (i2c_run api bnd w op ds) (\<lambda>(res, op', w'). resp_written op op')"
  by (auto simp: i2c_run_def wp_atoms wp_i2c_atoms split: option.splits prod.splits dest!: resp_writes(4))

lemma i2c_run_after:
  assumes "resp_written op op1"
  shows "wp True (i2c_run api bnd w op1 ds) (\<lambda>(res, op', w'). resp_written op op')"
  using i2c_run_written[of api bnd w op1 ds] by (rule wp_mono_pair) (use resp_written_trans[OF assms] in auto)

lemma i2c_transfer_written: "wp True (gb_i2c_protocol_transfer api bnd w op) (\<lambda>(res, op', w'). resp_written op op')"
  by (auto simp: gb_i2c_protocol_transfer_def Let_def wp_atoms wp_i2c_atoms split: prod.splits
      intro!: i2c_run_after dest: alloc_written[OF _ i2c_alloc_fits])

lemma i2c_handler_written: "wp True (i2c_handler api n bnd w op) (\<lambda>(res, op', w'). resp_written op op')"
proof -
  have "handler_kept (i2c_handler api n)" if "n \<noteq> 5"
    using that
    by (intro handler_keptI)
       (auto simp: i2c_handler_def gb_i2c_protocol_version_def gb_i2c_protocol_functionality_def
          wp_atoms dest!: kept_writes kept_alloc intro: kept_trans)
  then have "wp True (i2c_handler api n bnd w op) (\<lambda>(res, op', w'). kept op op')" if "n \<noteq> 5"
    using that by (simp add: handler_kept_def)
  then have "wp True (i2c_handler api n bnd w op) (\<lambda>(res, op', w'). resp_written op op')" if "n \<noteq> 5"
    using that by (auto simp: wp_True_iff kept_def)
  then show ?thesis
    using i2c_transfer_written[of api bnd w op] by (cases "n = 5") (auto simp: i2c_handler_def)
qed

interpretation i2c: gb_handler "i2c_handler api"
  by unfold_locales (use i2c_handler_written in \<open>fastforce simp: wp_True_iff\<close>)

section \<open>What the bus sees\<close>

text \<open>A transfer in the abstract: an address and the messages; its encoding as a request payload.\<close>

definition encode_desc :: "u16 \<Rightarrow> i2c_msg \<Rightarrow> bytes" where
  "encode_desc addr m =
     (case m of
        I2c_write xs \<Rightarrow> bytes16 addr @ bytes16 0 @ bytes16 (word_of_nat (length xs))
      | I2c_read n \<Rightarrow> bytes16 addr @ bytes16 1 @ bytes16 (word_of_nat n))"


definition msg_size :: "i2c_msg \<Rightarrow> nat" where
  "msg_size m = (case m of I2c_write xs \<Rightarrow> length xs | I2c_read n \<Rightarrow> n)"


definition desc_of :: "u16 \<Rightarrow> i2c_msg \<Rightarrow> gb_i2c_transfer_desc" where
  "desc_of addr m = \<lparr>id_addr = addr, id_flags = (case m of I2c_write _ \<Rightarrow> 0 | I2c_read _ \<Rightarrow> 1),
     id_size = word_of_nat (msg_size m)\<rparr>"


lemma length_encode_desc [simp]: "length (encode_desc addr m) = 6"
  by (simp add: encode_desc_def split: i2c_msg.splits)

lemma length_concat_descs [simp]: "length (concat (map (encode_desc addr) ms)) = 6 * length ms"
  by (induction ms) simp_all


text \<open>Reading a descriptor back.\<close>

lemma req16_at:
  assumes "op_request_buffer op = Some (h @ pre @ bytes16 v @ post)" and "length h = 8"
  shows "req16 op (length pre) = Some v"
  using assms by (simp add: req16_def rd16_append_right rd16_bytes16)

lemma i2c_desc_encoded:
  assumes b: "op_request_buffer op = Some (h @ pre @ encode_desc addr m @ post)" and h: "length h = 8"
    and pre: "length pre = 2 + 6 * i"
  shows "i2c_desc op i = Some (desc_of addr m)"
proof -
  let ?f = "(case m of I2c_write _ \<Rightarrow> 0 | I2c_read _ \<Rightarrow> 1) :: u16"
  have e: "encode_desc addr m = bytes16 addr @ bytes16 ?f @ bytes16 (word_of_nat (msg_size m))"
    by (cases m) (simp_all add: encode_desc_def msg_size_def)
  have "req16 op (length pre) = Some addr"
    by (rule req16_at[where h = h and post = "bytes16 ?f @ bytes16 (word_of_nat (msg_size m)) @ post"])
       (use b h in \<open>simp_all add: e\<close>)
  moreover have "req16 op (length (pre @ bytes16 addr)) = Some ?f"
    by (rule req16_at[where h = h and post = "bytes16 (word_of_nat (msg_size m)) @ post"])
       (use b h in \<open>simp_all add: e\<close>)
  moreover have "req16 op (length (pre @ bytes16 addr @ bytes16 ?f)) = Some (word_of_nat (msg_size m))"
    by (rule req16_at[where h = h and post = post]) (use b h in \<open>simp_all add: e\<close>)
  ultimately show ?thesis using pre by (simp add: i2c_desc_def desc_of_def numeral_eq_Suc)
qed








text \<open>An allocator that succeeds and a device that answers reads with fixed octets, for examples.\<close>

definition sample_i2c :: "unit i2c_api" where
  "sample_i2c = \<lparr>i2c_alloc = (\<lambda>w n. (True, w)), i2c_malloc = (\<lambda>w n. (True, w)),
     i2c_transfer = (\<lambda>dev ms a w. (0, [1, 2], w))\<rparr>"

definition sample_i2c_bundle :: gb_bundle where
  "sample_i2c_bundle = \<lparr>bnd_id = 1, bnd_cport_start = 3, bnd_dev = [Some 7]\<rparr>"


text \<open>
  The handler checks that a request holds the descriptors it announces, not that it holds
  the data of the writes: a write longer than the rest of the request makes the bus driver read
  past the end of the request buffer.
\<close>

theorem gb_i2c_protocol_transfer_overread:
  assumes "op_request_buffer op = Some (hdr_bytes sz ident ty r @ bytes16 1
      @ encode_desc addr (I2c_write xs) @ data)"
    and "unat sz = HDR_SIZE + 8 + length data" and "length data < length xs" and "length xs < 65536"
    and "i2c_alloc api w HDR_SIZE = (True, wa)" and "i2c_malloc api wa 12 = (True, wb)"
  shows "gb_i2c_protocol_transfer api bnd w op = None"
proof -
  note b = assms(1)
  have al: "gb_operation_alloc_response (i2c_alloc api) w op 0
      = Some (True, answer op (hdr_bytes 8 ident (GB_TYPE_RESPONSE_FLAG OR ty) 0) [], wa)"
    using alloc_response_ok[of "i2c_alloc api" w 0, OF _ b] assms(5) by (simp add: answer_def)
  have ps: "payload_size op = Some (8 + length data)"
    using b assms(2) by (simp add: payload_size_def gb_operation_get_request_payload_size_def)
  have c: "req16 op 0 = Some 1"
    using req16_at[of op "hdr_bytes sz ident ty r" "[]" 1] b by simp
  let ?d = "desc_of addr (I2c_write xs)"
  have d: "i2c_desc op 0 = Some ?d"
    using i2c_desc_encoded[of op "hdr_bytes sz ident ty r" "bytes16 1"] b by simp
  have flags: "\<not> read_op ?d" "unat (id_size ?d) = length xs" "i2c_read_size [?d] = 0"
    using assms(4) by (simp_all add: read_op_def i2c_read_size_def desc_of_def msg_size_def)
  have "req_slice (answer op h p) 8 (length xs) = None" for h p
    using b assms(3) by (simp add: req_slice_def rd_slice_def answer_def)
  then have "i2c_run api bnd wb (answer op (hdr_bytes 8 ident (GB_TYPE_RESPONSE_FLAG OR ty) 0) []) [?d] = None"
    using flags by (simp add: i2c_run_def i2c_address_def bind_eq_None_conv)
  then show ?thesis
    using ps c d al assms(6) flags by (simp add: gb_i2c_protocol_transfer_def)
qed

theorem gb_i2c_protocol_transfer_overread_witness:
  "gb_i2c_protocol_transfer sample_i2c sample_i2c_bundle ()
      (sample_operation 3 5 5 (bytes16 1 @ encode_desc 0x48 (I2c_write [1, 2, 3]) @ [9])) = None"
  by (rule gb_i2c_protocol_transfer_overread[where sz = 17 and ident = 5 and ty = 5 and r = 0
        and addr = "0x48" and xs = "[1, 2, 3]" and data = "[9]" and wa = "()" and wb = "()"])
     (simp_all add: sample_i2c_def encode_desc_def)

end
