(* ===== verification/Gb_Samples.thy ===== *)
theory Gb_Samples
  imports Gb_Handler
begin

text \<open>
  Concrete instances: an environment in which every call succeeds and the drivers do nothing, a
  driver with three handlers, and a core with one cport that runs this driver. The theorems about
  the core are applied to them.
\<close>

section \<open>A quiet environment\<close>

definition quiet_env :: "unit env" where
  "quiet_env = \<lparr>env_alloc_buf = (\<lambda>w n. (True, w)), env_free_buf = (\<lambda>w b. w),
     env_malloc = (\<lambda>w n. (True, w)), env_send = (\<lambda>w p m. (0, w)), env_send_async = None,
     env_listen = (\<lambda>w p. (0, w)), env_stop_listening = Some (\<lambda>w p. (0, w)),
     env_transport_init = (\<lambda>w. w), env_transport_exit = None, env_clock = (\<lambda>w. ((0, 0), w)),
     env_pthread_create = (\<lambda>w p. (0, w)), env_handler = (\<lambda>f c a. Some (0, c)),
     env_fast_handler = (\<lambda>f c p b. Some c), env_callback = (\<lambda>f c a. Some c),
     env_driver_init = (\<lambda>f c p b. Some (0, c)), env_driver_exit = (\<lambda>f c p b. Some c),
     env_driver_event = (\<lambda>f c p. Some c)\<rparr>"

text \<open>The same with a transport that refuses every message.\<close>

definition broken_env :: "unit env" where
  "broken_env = quiet_env\<lparr>env_send := \<lambda>w p m. (- EIO, w)\<rparr>"

interpretation quiet: core_env_echo quiet_env False
  by unfold_locales (auto simp: quiet_env_def)

lemma quiet_env_ok: "core_env quiet_env False" and quiet_env_echo: "core_env_echo quiet_env False"
  by (rule quiet.core_env_axioms quiet.core_env_echo_axioms)+

section \<open>A core with one driver\<close>

definition sample_handlers :: "gb_operation_handler list" where
  "sample_handlers = map (\<lambda>t. \<lparr>oh_type = t, oh_handler = Some (unat t), oh_fast_handler = None\<rparr>) [3, 1, 2]"

definition sample_driver :: "gb_operation_handler list \<Rightarrow> gb_driver" where
  "sample_driver hs = \<lparr>drv_init = Some 1, drv_exit = None, drv_connected = None, drv_disconnected = None,
     drv_op_handlers = Some hs, drv_op_handlers_count = length hs, drv_bundle = None\<rparr>"

lemma sample_driver_ok [simp]: "driver_ok (sample_driver sample_handlers)"
  by (auto simp: driver_ok_def sample_driver_def sample_handlers_def)

text \<open>The cport with or without its driver, and the operations on the heap.\<close>

definition sample_cport :: "bool \<Rightarrow> gb_cport_driver" where
  "sample_cport has_driver = new_cport\<lparr>cp_driver := if has_driver then Some 0 else None, cp_thread := has_driver\<rparr>"

definition sample_core :: "gb_cport_driver \<Rightarrow> gb_operation list \<Rightarrow> unit core" where
  "sample_core cp ops = \<lparr>cport_count = 1, request_id = 0, g_cport = [cp],
     g_bundle = [Some \<lparr>bnd_id = 0, bnd_cport_start = 0, bnd_dev = [None]\<rparr>], transport_backend = True,
     gb_tape = False, gb_tape_fd = - EBADF, core_heap = map Some ops, core_drivers = [sample_driver sample_handlers],
     core_manifest = g_greybus, tx_log = [], tape = [], world = ()\<rparr>"

lemma sample_core_fields [simp]:
  "g_cport (sample_core cp ops) = [cp]" "core_drivers (sample_core cp ops) = [sample_driver sample_handlers]"
  "core_heap (sample_core cp ops) = map Some ops" "cport_count (sample_core cp ops) = 1"
  "request_id (sample_core cp ops) = 0" "transport_backend (sample_core cp ops)"
  "get_cp (sample_core cp ops) 0 = Some cp" "get_driver (sample_core cp ops) 0 = Some (sample_driver sample_handlers)"
  "\<not> gb_tape (sample_core cp ops)" "tx_log (sample_core cp ops) = []"
  by (simp_all add: sample_core_def get_cp_def get_driver_def)

lemma sample_core_op [simp]: "a < length ops \<Longrightarrow> get_op (sample_core cp ops) a = Some (ops ! a)"
  by (simp add: get_op_def hget_def)

text \<open>Operations that only their creator holds, and those on the receive fifo.\<close>

definition lone :: "gb_operation \<Rightarrow> bool" where
  "lone op \<longleftrightarrow> op_ok 1 op \<and> op_response op = None \<and> op_ref_count op = 1"

lemma sample_core_empty: "core_inv (\<lambda>_. 0) (sample_core (sample_cport r) [])"
proof -
  have "fifo_refs (sample_core (sample_cport r) []) a = 0" for a
    by (simp add: fifo_refs_def cp_refs_def sample_cport_def new_cport_def)
  then show ?thesis
    by (auto simp: core_inv_def heap_inv_def heap_inv_except_def hget_def resp_refs_def get_op_def get_cp_def
        cp_ok_def cp_local_def cp_driver_ok_def cp_links_def sample_cport_def new_cport_def)
qed

lemma sample_core_snoc:
  "(sample_core cp ops)\<lparr>core_heap := core_heap (sample_core cp ops) @ [Some op]\<rparr> = sample_core cp (ops @ [op])"
  by (simp add: sample_core_def)

lemma sample_core_inv:
  "list_all lone ops \<Longrightarrow>
     core_inv (\<lambda>a. if a < length ops then 1 else 0) (sample_core (sample_cport r) ops)"
proof (induction ops rule: rev_induct)
  case Nil
  then show ?case using sample_core_empty by simp
next
  case (snoc op ops)
  have "core_inv ((\<lambda>a. if a < length ops then 1 else 0)(length ops := 1)) (sample_core (sample_cport r) (ops @ [op]))"
    using core_inv_append[OF snoc.IH, of "Some op"] snoc.prems by (simp add: lone_def sample_core_snoc[simplified])
  moreover have "(\<lambda>a. if a < length ops then 1 else 0)(length ops := 1) =
      (\<lambda>a. if a < length (ops @ [op]) then 1 else (0 :: int))" by auto
  ultimately show ?case by simp
qed

lemma sample_operation_lone [simp]: "length p < 65528 \<Longrightarrow> lone (sample_operation 0 ident ty p)"
  using sample_operation_ok[of p 0 1] by (simp add: lone_def sample_operation_def)

end
