(* ===== verification/Gb_Control.thy ===== *)
theory Gb_Control
  imports Gb_Samples
begin

text \<open>
  The control protocol, \<^verbatim>\<open>subsys/greybus/control-gpb.c\<close> with the structures of \<^verbatim>\<open>control-gb.h\<close>:
  the host reads the manifest and connects and disconnects cports. Most handlers only write a
  response; those of a connection call the core and are functions of its state. The manifest
  blob and the time synchronisation, whose functions have no definition the header's declarations
  match, are the record \<open>control_api\<close>; the \<^verbatim>\<open>unipro_\<close> calls are stubs without effect.
\<close>

unbundle bit_operations_syntax

record 'w control_api =
  ctl_alloc :: "'w alloc_fn"
  bridge_manifest :: "'w \<Rightarrow> bytes option"
  timesync_enable :: "u8 \<Rightarrow> u64 \<Rightarrow> u32 \<Rightarrow> u32 \<Rightarrow> 'w \<Rightarrow> int \<times> 'w"
  timesync_disable :: "'w \<Rightarrow> int \<times> 'w"
  timesync_authoritative :: "u64 list \<Rightarrow> 'w \<Rightarrow> int \<times> 'w"
  timesync_get_last_event :: "'w \<Rightarrow> int \<times> u64 \<times> 'w"

section \<open>Version and manifest\<close>

definition gb_control_protocol_version :: "'w control_api \<Rightarrow> 'w handler" where
  "gb_control_protocol_version api bnd w op = do {
     (ok, op1, w1) \<leftarrow> gb_operation_alloc_response (ctl_alloc api) w op 2;
     if \<not> ok then Some (GB_OP_NO_MEMORY, op1, w1)
     else do { op2 \<leftarrow> resp8 op1 0 0; op3 \<leftarrow> resp8 op2 1 1; Some (GB_OP_SUCCESS, op3, w1) } }"

definition gb_control_get_manifest_size :: "'w control_api \<Rightarrow> 'w handler" where
  "gb_control_get_manifest_size api bnd w op = do {
     (ok, op1, w1) \<leftarrow> gb_operation_alloc_response (ctl_alloc api) w op 2;
     if \<not> ok then Some (GB_OP_NO_MEMORY, op1, w1)
     else do {
       sz \<leftarrow> get_manifest_size (bridge_manifest api w1);
       op2 \<leftarrow> resp16 op1 0 (word_of_nat sz);
       Some (GB_OP_SUCCESS, op2, w1) } }"

text \<open>The size is taken before the allocation; \<^verbatim>\<open>memcpy\<close> trusts the size in the blob's header.\<close>

definition gb_control_get_manifest :: "'w control_api \<Rightarrow> 'w handler" where
  "gb_control_get_manifest api bnd w op = do {
     sz \<leftarrow> get_manifest_size (bridge_manifest api w);
     (ok, op1, w1) \<leftarrow> gb_operation_alloc_response (ctl_alloc api) w op sz;
     if \<not> ok then Some (GB_OP_NO_MEMORY, op1, w1)
     else
       (case bridge_manifest api w1 of
          None \<Rightarrow> Some (GB_OP_INVALID, op1, w1)
        | Some mh \<Rightarrow> do {
            xs \<leftarrow> rd_slice mh 0 sz;
            op2 \<leftarrow> resp_slice op1 0 xs;
            Some (GB_OP_SUCCESS, op2, w1) }) }"

section \<open>Power management and versions\<close>

text \<open>The six handlers of bundle and interface power management have the same body.\<close>

definition control_pm_ok :: "'w control_api \<Rightarrow> 'w handler" where
  "control_pm_ok api bnd w op = do {
     (ok, op1, w1) \<leftarrow> gb_operation_alloc_response (ctl_alloc api) w op 1;
     if \<not> ok then Some (GB_OP_NO_MEMORY, op1, w1)
     else do { op2 \<leftarrow> resp8 op1 0 0; Some (GB_OP_SUCCESS, op2, w1) } }"

definition gb_control_bundle_activate :: "'w control_api \<Rightarrow> 'w handler" where
  "gb_control_bundle_activate = control_pm_ok"

definition gb_control_bundle_suspend :: "'w control_api \<Rightarrow> 'w handler" where
  "gb_control_bundle_suspend = control_pm_ok"

definition gb_control_bundle_resume :: "'w control_api \<Rightarrow> 'w handler" where
  "gb_control_bundle_resume = control_pm_ok"

definition gb_control_bundle_deactivate :: "'w control_api \<Rightarrow> 'w handler" where
  "gb_control_bundle_deactivate = control_pm_ok"

definition gb_control_intf_suspend_prepare :: "'w control_api \<Rightarrow> 'w handler" where
  "gb_control_intf_suspend_prepare = control_pm_ok"

definition gb_control_intf_deactivate_prepare :: "'w control_api \<Rightarrow> 'w handler" where
  "gb_control_intf_deactivate_prepare = control_pm_ok"

definition gb_control_interface_version :: "'w control_api \<Rightarrow> 'w handler" where
  "gb_control_interface_version api bnd w op = do {
     (ok, op1, w1) \<leftarrow> gb_operation_alloc_response (ctl_alloc api) w op 4;
     if \<not> ok then Some (GB_OP_NO_MEMORY, op1, w1)
     else do { op2 \<leftarrow> resp16 op1 0 0; op3 \<leftarrow> resp16 op2 2 1; Some (GB_OP_SUCCESS, op3, w1) } }"

definition gb_control_disconnecting :: "'w control_api \<Rightarrow> 'w handler" where
  "gb_control_disconnecting api bnd w op = Some (GB_OP_SUCCESS, op, w)"

section \<open>Time synchronisation\<close>

definition gb_control_timesync_enable :: "'w control_api \<Rightarrow> 'w handler" where
  "gb_control_timesync_enable api bnd w op = do {
     n \<leftarrow> payload_size op;
     if n < 17 then Some (GB_OP_INVALID, op, w)
     else do {
       count \<leftarrow> req8 op 0;
       frame_time \<leftarrow> req64 op 1;
       strobe_delay \<leftarrow> req32 op 9;
       refclk \<leftarrow> req32 op 13;
       let (retval, w1) = timesync_enable api count frame_time strobe_delay refclk w;
       Some (gb_errno_to_op_result retval, op, w1) } }"

definition gb_control_timesync_disable :: "'w control_api \<Rightarrow> 'w handler" where
  "gb_control_timesync_disable api bnd w op =
     (let (retval, w1) = timesync_disable api w in Some (gb_errno_to_op_result retval, op, w1))"

definition gb_control_timesync_authoritative :: "'w control_api \<Rightarrow> 'w handler" where
  "gb_control_timesync_authoritative api bnd w op = do {
     n \<leftarrow> payload_size op;
     if n < 32 then Some (GB_OP_INVALID, op, w)
     else do {
       t0 \<leftarrow> req64 op 0; t1 \<leftarrow> req64 op 8; t2 \<leftarrow> req64 op 16; t3 \<leftarrow> req64 op 24;
       let (retval, w1) = timesync_authoritative api [t0, t1, t2, t3] w;
       Some (gb_errno_to_op_result retval, op, w1) } }"

definition gb_control_timesync_get_last_event :: "'w control_api \<Rightarrow> 'w handler" where
  "gb_control_timesync_get_last_event api bnd w op = do {
     (ok, op1, w1) \<leftarrow> gb_operation_alloc_response (ctl_alloc api) w op 8;
     if \<not> ok then Some (GB_OP_NO_MEMORY, op1, w1)
     else do {
       let (retval, frame_time, w2) = timesync_get_last_event api w1;
       op2 \<leftarrow> (if retval = 0 then resp64 op1 0 frame_time else Some op1);
       Some (gb_errno_to_op_result retval, op2, w2) } }"

section \<open>Connections\<close>

definition gb_control_connected :: "'w env \<Rightarrow> 'w core \<Rightarrow> nat \<Rightarrow> (u8 \<times> 'w core) option" where
  "gb_control_connected E c a = do {
     op \<leftarrow> get_op c a;
     n \<leftarrow> payload_size op;
     if n < 2 then Some (GB_OP_INVALID, c)
     else do {
       cport_id \<leftarrow> req16 op 0;
       (retval, c1) \<leftarrow> gb_listen E (unat cport_id) c;
       if retval \<noteq> 0 then Some (GB_OP_INVALID, c1)
       else do {
         (retval, c2) \<leftarrow> gb_notify E (unat cport_id) GB_EVT_CONNECTED c1;
         if retval \<noteq> 0 then do {
           (_, c3) \<leftarrow> gb_stop_listening E (unat cport_id) c2;
           Some (gb_errno_to_op_result retval, c3) }
         else Some (GB_OP_SUCCESS, c2) } } }"

definition gb_control_disconnected :: "'w env \<Rightarrow> 'w core \<Rightarrow> nat \<Rightarrow> (u8 \<times> 'w core) option" where
  "gb_control_disconnected E c a = do {
     op \<leftarrow> get_op c a;
     n \<leftarrow> payload_size op;
     if n < 2 then Some (GB_OP_INVALID, c)
     else do {
       cport_id \<leftarrow> req16 op 0;
       (_, c1) \<leftarrow> gb_notify E (unat cport_id) GB_EVT_DISCONNECTED c;
       (retval, c2) \<leftarrow> gb_stop_listening E (unat cport_id) c1;
       if retval \<noteq> 0 then Some (GB_OP_INVALID, c2) else Some (GB_OP_SUCCESS, c2) } }"

section \<open>The driver\<close>

definition control_handler :: "'w control_api \<Rightarrow> nat \<Rightarrow> 'w handler" where
  "control_handler api n =
     (if n = 0x01 then gb_control_protocol_version api
      else if n = 0x03 then gb_control_get_manifest_size api
      else if n = 0x04 then gb_control_get_manifest api
      else if n = 0x07 then gb_control_timesync_enable api
      else if n = 0x08 then gb_control_timesync_disable api
      else if n = 0x09 then gb_control_timesync_authoritative api
      else if n = 0x0a then gb_control_interface_version api
      else if n = 0x0c then gb_control_disconnecting api
      else if n = 0x0d then gb_control_timesync_get_last_event api
      else if n = 0x0f then gb_control_bundle_suspend api
      else if n = 0x10 then gb_control_bundle_resume api
      else if n = 0x11 then gb_control_bundle_deactivate api
      else if n = 0x12 then gb_control_bundle_activate api
      else if n = 0x13 then gb_control_intf_suspend_prepare api
      else if n = 0x14 then gb_control_intf_deactivate_prepare api
      else (\<lambda>bnd w op. None))"

text \<open>The table of the driver: the handlers of a connection get the core itself.\<close>

definition control_driver_handler ::
  "'w env \<Rightarrow> 'w control_api \<Rightarrow> nat \<Rightarrow> 'w core \<Rightarrow> nat \<Rightarrow> (u8 \<times> 'w core) option" where
  "control_driver_handler E api n =
     (if n = 0x05 then gb_control_connected E
      else if n = 0x06 then gb_control_disconnected E
      else lift_handler (control_handler api n))"

definition gb_control_register ::
  "'w env \<Rightarrow> nat \<Rightarrow> nat \<Rightarrow> int \<Rightarrow> 'w core \<Rightarrow> 'w core option" where
  "gb_control_register E d cport bundle c = do {
     (_, c1) \<leftarrow> gb_register_driver E cport bundle (Some d) c;
     (_, c2) \<leftarrow> gb_listen E cport c1;
     Some c2 }"

section \<open>The handlers keep to the interface\<close>

lemmas control_defs = gb_control_protocol_version_def gb_control_get_manifest_size_def
  control_pm_ok_def gb_control_bundle_activate_def
  gb_control_bundle_suspend_def gb_control_bundle_resume_def gb_control_bundle_deactivate_def
  gb_control_intf_suspend_prepare_def gb_control_intf_deactivate_prepare_def
  gb_control_interface_version_def gb_control_disconnecting_def gb_control_timesync_enable_def
  gb_control_timesync_disable_def gb_control_timesync_authoritative_def
  gb_control_timesync_get_last_event_def

lemma wp_control_atoms:
  "wp True (get_manifest_size b) P \<longleftrightarrow> (\<forall>x. get_manifest_size b = Some x \<longrightarrow> P x)"
  "wp True (rd_slice m i n) Q \<longleftrightarrow> (\<forall>x. rd_slice m i n = Some x \<longrightarrow> Q x)"
  "wp True (req64 op off) R \<longleftrightarrow> (\<forall>x. req64 op off = Some x \<longrightarrow> R x)"
  by (simp_all add: wp_True_iff)

lemma control_kept: "n \<noteq> 4 \<Longrightarrow> handler_kept (control_handler api n)"
  by (rule handler_keptI)
     (auto simp: control_handler_def control_defs resp64_def Let_def wp_atoms wp_control_atoms
        split: option.splits prod.splits
        dest!: kept_writes kept_alloc intro: kept_trans)

lemma manifest_size_bound: "get_manifest_size b = Some n \<Longrightarrow> n < 65536"
  using unat_u16_lt by (auto simp: get_manifest_size_def bind_eq_Some_conv split: option.splits)

lemma get_manifest_written:
  "wp True (gb_control_get_manifest api bnd w op) (\<lambda>(res, op', w'). resp_written op op'
     \<and> ((\<forall>n. get_manifest_size (bridge_manifest api w) = Some n \<longrightarrow> n < 65528) \<longrightarrow> echo_kept op op'))"
proof -
  have small: "n + 8 < 2 ^ 32" if "get_manifest_size b = Some n" for b n
    using manifest_size_bound[OF that] by simp
  show ?thesis
    by (auto simp: gb_control_get_manifest_def wp_atoms wp_control_atoms split: option.splits
        dest: alloc_written[OF _ small] alloc_small[THEN conjunct2] resp_writes(4)
        intro: resp_written_trans echo_kept_trans)
qed

lemma control_written: "wp True (control_handler api n bnd w op) (\<lambda>(res, op', w'). resp_written op op')"
proof (cases "n = 4")
  case True
  then show ?thesis using get_manifest_written[of api bnd w op]
    by (auto simp: control_handler_def wp_True_iff)
next
  case False
  from control_kept[OF this, of api] show ?thesis
    by (auto simp: handler_kept_def wp_True_iff kept_def)
qed

interpretation control: gb_handler "control_handler api"
  by unfold_locales (use control_written in \<open>fastforce simp: wp_True_iff\<close>)

text \<open>A manifest that fits the size field of a message.\<close>

definition manifest_fits :: "'w control_api \<Rightarrow> bool" where
  "manifest_fits api \<longleftrightarrow> (\<forall>w n. get_manifest_size (bridge_manifest api w) = Some n \<longrightarrow> n < 65528)"

lemma control_echo:
  assumes "manifest_fits api" and "control_handler api n bnd w op = Some (res, op', w')"
  shows "echo_kept op op'"
proof (cases "n = 4")
  case True
  then show ?thesis using wp_TrueD[OF get_manifest_written, of api bnd w op] assms
    by (fastforce simp: control_handler_def manifest_fits_def)
next
  case False
  from handler_keptD[OF control_kept[OF this, of api] assms(2)] show ?thesis by (simp add: kept_def)
qed

section \<open>Connections keep the invariant\<close>

lemma event_frame_trans: "event_frame a b \<Longrightarrow> event_frame b c \<Longrightarrow> event_frame a c"
  using rx_frame_trans by (auto simp: event_frame_def)

lemma event_frame_world [simp]: "event_frame c (c\<lparr>world := w\<rparr>)"
  by (auto simp: event_frame_def intro!: rx_frame_same)

lemma event_frame_handler: "event_frame c c' \<Longrightarrow> handler_frame a c c'"
  by (auto simp: event_frame_def handler_frame_def)

context core_env
begin

lemma gb_listen_ok:
  assumes "core_inv h c"
  shows "wp mf (gb_listen E p c) (\<lambda>(r, c'). core_inv h c' \<and> event_frame c c')"
  using assms core_invD(5)[OF assms]
  by (auto simp: gb_listen_def get_cp_def Let_def split: prod.splits)

lemma gb_stop_listening_ok:
  assumes "core_inv h c" and "mf \<or> env_stop_listening E \<noteq> None"
  shows "wp mf (gb_stop_listening E p c) (\<lambda>(r, c'). core_inv h c' \<and> event_frame c c')"
  using assms core_invD(5)[OF assms(1)]
  by (cases "env_stop_listening E") (auto simp: gb_stop_listening_def get_cp_def Let_def split: prod.splits)

lemma gb_notify_ok:
  assumes inv: "core_inv h c"
  shows "wp mf (gb_notify E p ev c) (\<lambda>(r, c'). core_inv h c' \<and> event_frame c c')"
proof (cases "cport_count c \<le> p")
  case False
  then obtain cp where cp: "get_cp c p = Some cp" using core_invD(5)[OF inv] by (simp add: get_cp_def)
  show ?thesis
  proof (cases "cp_driver cp")
    case (Some d)
    with core_invD(4)[OF inv cp] have "get_driver c d \<noteq> None"
      by (simp add: cp_ok_def cp_driver_ok_def get_driver_def)
    then obtain drv where d: "get_driver c d = Some drv" by blast
    have "wp mf (env_driver_event E f c p) (\<lambda>c'. core_inv h c' \<and> event_frame c c')" for f
      by (rule driver_event[OF inv])
    then show ?thesis using False cp Some d inv
      by (auto simp: gb_notify_def split: gb_event.splits option.splits)
  qed (use False cp inv in \<open>simp add: gb_notify_def\<close>)
qed (use inv in \<open>simp add: gb_notify_def\<close>)

lemma gb_control_connected_ok:
  assumes inv: "core_inv h c" and h: "1 \<le> h a" and stop: "mf \<or> env_stop_listening E \<noteq> None"
  shows "wp mf (gb_control_connected E c a) (\<lambda>(r, c'). core_inv h c' \<and> event_frame c c')"
proof -
  from core_inv_live[of h c a] inv h obtain op b sz where op: "get_op c a = Some op"
    "op_request_buffer op = Some b" "8 \<le> length b" "hdr_size b = Some sz" "unat sz \<le> length b" by metis
  have ps: "payload_size op = Some (unat sz - 8)"
    using op by (simp add: payload_size_def gb_operation_get_request_payload_size_def)
  show ?thesis
  proof (cases "unat sz - 8 < 2")
    case False
    then have "10 \<le> length b" using op(5) by simp
    then obtain p where p: "req16 op 0 = Some p" using op(2) by (simp add: req16_def rd16_Some)
    have "wp mf (gb_notify E (unat p) GB_EVT_CONNECTED c1 \<bind> (\<lambda>(retval, c2).
        if retval \<noteq> 0 then gb_stop_listening E (unat p) c2 \<bind> (\<lambda>(_, c3). Some (gb_errno_to_op_result retval, c3))
        else Some (GB_OP_SUCCESS, c2))) (\<lambda>(r, c'). core_inv h c' \<and> event_frame c c')"
      if c1: "core_inv h c1" "event_frame c c1" for c1
      unfolding wp_simps(3)
    proof (rule wp_mono_pair[OF gb_notify_ok[OF c1(1)]], clarsimp, intro conjI impI)
      fix r c2 assume c2: "core_inv h c2" "event_frame c1 c2"
      note t = event_frame_trans[OF c1(2) c2(2)]
      show "event_frame c c2" by (rule t)
      show "wp mf (gb_stop_listening E (unat p) c2) (\<lambda>x. wp mf (case x of (_, c3) \<Rightarrow>
          Some (gb_errno_to_op_result r, c3)) (\<lambda>(r, c'). core_inv h c' \<and> event_frame c c'))"
        by (rule wp_mono_pair[OF gb_stop_listening_ok[OF c2(1) stop]]) (use t event_frame_trans in auto)
    qed
    note k = this[unfolded wp_simps(3)]
    show ?thesis
      using op(1) ps False p
      by (auto simp: gb_control_connected_def intro!: wp_mono_pair[OF gb_listen_ok[OF inv]] k)
  qed (use op(1) ps inv in \<open>simp add: gb_control_connected_def\<close>)
qed

lemma gb_control_disconnected_ok:
  assumes inv: "core_inv h c" and h: "1 \<le> h a" and stop: "mf \<or> env_stop_listening E \<noteq> None"
  shows "wp mf (gb_control_disconnected E c a) (\<lambda>(r, c'). core_inv h c' \<and> event_frame c c')"
proof -
  from core_inv_live[of h c a] inv h obtain op b sz where op: "get_op c a = Some op"
    "op_request_buffer op = Some b" "8 \<le> length b" "hdr_size b = Some sz" "unat sz \<le> length b" by metis
  have ps: "payload_size op = Some (unat sz - 8)"
    using op by (simp add: payload_size_def gb_operation_get_request_payload_size_def)
  show ?thesis
  proof (cases "unat sz - 8 < 2")
    case False
    then have "10 \<le> length b" using op(5) by simp
    then obtain p where p: "req16 op 0 = Some p" using op(2) by (simp add: req16_def rd16_Some)
    have "wp mf (gb_stop_listening E (unat p) c1) (\<lambda>x. wp mf (case x of (retval, c2) \<Rightarrow>
        if retval \<noteq> 0 then Some (GB_OP_INVALID, c2) else Some (GB_OP_SUCCESS, c2))
        (\<lambda>(r, c'). core_inv h c' \<and> event_frame c c'))"
      if c1: "core_inv h c1" "event_frame c c1" for c1
      by (rule wp_mono_pair[OF gb_stop_listening_ok[OF c1(1) stop]])
         (use event_frame_trans[OF c1(2)] in auto)
    then show ?thesis
      using op(1) ps False p
      by (auto simp: gb_control_disconnected_def intro!: wp_mono_pair[OF gb_notify_ok[OF inv]])
  qed (use op(1) ps inv in \<open>simp add: gb_control_disconnected_def\<close>)
qed

lemma control_driver_handler_ok:
  assumes inv: "core_inv h c" and h: "1 \<le> h a" and mf
  shows "wp mf (control_driver_handler E api n c a) (\<lambda>(r, c'). core_inv h c' \<and> handler_frame a c c')"
proof -
  have "mf \<or> env_stop_listening E \<noteq> None" using assms(3) by simp
  note conn = gb_control_connected_ok[OF inv h this] gb_control_disconnected_ok[OF inv h this]
  consider "n = 5" | "n = 6" | "n \<noteq> 5" "n \<noteq> 6" by blast
  then show ?thesis
  proof cases
    case 3
    then show ?thesis using control.lift_ok[OF inv, of api n a] assms(3)
      by (simp add: control_driver_handler_def)
  qed (auto simp: control_driver_handler_def event_frame_handler
      intro!: wp_mono_pair[OF conn(1)] wp_mono_pair[OF conn(2)])
qed

end

section \<open>What the host reads\<close>

text \<open>
  The host gets the manifest: the size request answers with the size field of the blob, and
  the manifest request with exactly that many octets of it.
\<close>

theorem gb_control_manifest_transfer:
  assumes "op_ok k op" and "\<And>w. bridge_manifest api w = Some mh" and "rd16 mh 0 = Some sz"
    and "unat sz \<le> length mh" and "unat sz < 65528" and "\<And>w n. fst (ctl_alloc api w n)"
  shows "\<exists>h w1 h' w2. length h = HDR_SIZE \<and> length h' = HDR_SIZE
    \<and> gb_control_get_manifest_size api bnd w op = Some (GB_OP_SUCCESS, answer op h (bytes16 sz), w1)
    \<and> gb_control_get_manifest api bnd w op = Some (GB_OP_SUCCESS, answer op h' (take (unat sz) mh), w2)"
proof -
  have gs: "get_manifest_size (bridge_manifest api w) = Some (unat sz)" for w
    using assms(2,3) by (simp add: get_manifest_size_def)
  from alloc_succeeds[of k op 2 "ctl_alloc api" w] assms(1,6) obtain h w1 where h: "length h = 8"
    "gb_operation_alloc_response (ctl_alloc api) w op 2 = Some (True, answer op h (replicate 2 0), w1)" by auto
  from alloc_succeeds[of k op "unat sz" "ctl_alloc api" w] assms(1,5,6) obtain h' w2 where h': "length h' = 8"
    "gb_operation_alloc_response (ctl_alloc api) w op (unat sz)
      = Some (True, answer op h' (replicate (unat sz) 0), w2)" by auto
  have "gb_control_get_manifest_size api bnd w op = Some (GB_OP_SUCCESS, answer op h (bytes16 sz), w1)"
    using h gs by (simp add: gb_control_get_manifest_size_def resp16_payload)
  moreover have "gb_control_get_manifest api bnd w op
      = Some (GB_OP_SUCCESS, answer op h' (take (unat sz) mh), w2)"
    using h' gs assms(2,4) by (simp add: gb_control_get_manifest_def rd_slice_Some resp_slice_payload)
  ultimately show ?thesis using h(1) h'(1) by blast
qed

definition sample_control :: "unit control_api" where
  "sample_control = \<lparr>ctl_alloc = (\<lambda>w n. (True, w)), bridge_manifest = (\<lambda>w. Some [4, 0, 0, 1, 77]),
     timesync_enable = (\<lambda>n t s r w. (0, w)), timesync_disable = (\<lambda>w. (0, w)),
     timesync_authoritative = (\<lambda>ts w. (0, w)), timesync_get_last_event = (\<lambda>w. (0, 0, w))\<rparr>"

theorem gb_control_manifest_transfer_witness:
  "\<exists>h w1 h' w2. length h = HDR_SIZE \<and> length h' = HDR_SIZE
    \<and> gb_control_get_manifest_size sample_control \<lparr>bnd_id = 0, bnd_cport_start = 0, bnd_dev = [None]\<rparr> ()
        (sample_operation 0 5 3 []) = Some (GB_OP_SUCCESS, answer (sample_operation 0 5 3 []) h (bytes16 4), w1)
    \<and> gb_control_get_manifest sample_control \<lparr>bnd_id = 0, bnd_cport_start = 0, bnd_dev = [None]\<rparr> ()
        (sample_operation 0 5 3 [])
        = Some (GB_OP_SUCCESS, answer (sample_operation 0 5 3 []) h' (take (unat (4 :: u16)) [4, 0, 0, 1, 77]), w2)"
proof -
  have "op_ok 1 (sample_operation 0 5 3 [])" by (rule sample_operation_ok) simp_all
  moreover have "rd16 [4, 0, 0, 1, 77] 0 = Some 4" by (simp add: rd16_def rd8_def le16_def)
  ultimately show ?thesis
    by (intro gb_control_manifest_transfer) (simp_all add: sample_control_def)
qed

text \<open>
  A host that connects a cport which does not exist or has no driver is told that the
  request is invalid, and nothing happens.
\<close>

theorem gb_control_connected_rejects:
  assumes "get_op c a = Some op" and "payload_size op = Some n" and "2 \<le> n" and "req16 op 0 = Some p"
    and "cport_count c \<le> length (g_cport c)"
    and "cport_count c \<le> unat p \<or> cp_driver (g_cport c ! unat p) = None"
  shows "gb_control_connected E c a = Some (GB_OP_INVALID, c)"
  using assms by (auto simp: gb_control_connected_def gb_listen_def get_cp_def)

theorem gb_control_connected_rejects_witness:
  "gb_control_connected quiet_env (sample_core (sample_cport True) [sample_operation 0 5 5 [7, 0]]) 0
     = Some (GB_OP_INVALID, sample_core (sample_cport True) [sample_operation 0 5 5 [7, 0]])"
proof (rule gb_control_connected_rejects[where n = 2])
  show "req16 (sample_operation 0 5 5 [7, 0]) 0 = Some 7"
    by (simp add: req16_def rd16_def rd8_def le16_def nth_append)
qed (simp_all add: sample_operation_payload)

end
