(* ===== verification/Gb_Loopback.thy ===== *)
theory Gb_Loopback
  imports Gb_Samples
begin

text \<open>
  The loopback protocol, \<^verbatim>\<open>subsys/greybus/loopback.c\<close> with the structures of
  \<^verbatim>\<open>greybus/loopback.h\<close>: the list of loopback instances with their statistics, the requests the
  firmware sends, the callbacks on their responses and the handlers of the host's requests. The
  time stamps are compiled out (no configuration option of the repository enables them), so
  \<^verbatim>\<open>update_loopback_stats\<close> is empty. The list is part of the world; \<open>loopback_api\<close> says where, and
  holds what \<^verbatim>\<open>list.h\<close> and the C library define.
\<close>

unbundle bit_operations_syntax

section \<open>Instances and statistics\<close>

record gb_loopback_statistics =
  st_recv :: u32
  st_recv_err :: u32
  st_throughput_min :: u32
  st_throughput_max :: u32
  st_throughput_avg :: u32
  st_latency_min :: u32
  st_latency_max :: u32
  st_latency_avg :: u32
  st_reqs_per_sec_min :: u32
  st_reqs_per_sec_max :: u32
  st_reqs_per_sec_avg :: u32

definition no_statistics :: gb_loopback_statistics where
  "no_statistics = \<lparr>st_recv = 0, st_recv_err = 0, st_throughput_min = 0, st_throughput_max = 0,
     st_throughput_avg = 0, st_latency_min = 0, st_latency_max = 0, st_latency_avg = 0,
     st_reqs_per_sec_min = 0, st_reqs_per_sec_max = 0, st_reqs_per_sec_avg = 0\<rparr>"

record gb_loopback =
  lb_cport :: int
  lb_stats :: gb_loopback_statistics

record 'w loopback_api =
  lb_alloc :: "'w alloc_fn"
  lb_zalloc :: "'w alloc_fn"
  lb_list :: "'w \<Rightarrow> gb_loopback list"
  lb_set_list :: "gb_loopback list \<Rightarrow> 'w \<Rightarrow> 'w"
  lb_list_add :: "gb_loopback \<Rightarrow> gb_loopback list \<Rightarrow> gb_loopback list"
  lb_rand :: "'w \<Rightarrow> u32 \<times> 'w"
  lb_ERROR :: int

text \<open>The callback gets a cport and the private data, and stops the iteration when negative.\<close>

fun gb_loopback_get_cports ::
  "(int \<Rightarrow> 'd \<Rightarrow> int \<times> 'd) \<Rightarrow> gb_loopback list \<Rightarrow> int \<Rightarrow> 'd \<Rightarrow> int \<times> 'd" where
  "gb_loopback_get_cports cb [] status data = (status, data)"
| "gb_loopback_get_cports cb (l # ls) status data =
     (let (status', data') = cb (lb_cport l) data in
      if status' < 0 then (status', data') else gb_loopback_get_cports cb ls status' data')"

fun loopback_from_cport :: "int \<Rightarrow> gb_loopback list \<Rightarrow> gb_loopback option" where
  "loopback_from_cport cport [] = None"
| "loopback_from_cport cport (l # ls) =
     (if lb_cport l = cport then Some l else loopback_from_cport cport ls)"

definition gb_loopback_get_stats :: "int \<Rightarrow> gb_loopback list \<Rightarrow> int + gb_loopback_statistics" where
  "gb_loopback_get_stats cport ls =
     (case loopback_from_cport cport ls of None \<Rightarrow> Inl (- EINVAL) | Some l \<Rightarrow> Inr (lb_stats l))"

text \<open>A change of the statistics of the instance that \<open>loopback_from_cport\<close> finds.\<close>

fun loopback_update ::
  "(gb_loopback_statistics \<Rightarrow> gb_loopback_statistics) \<Rightarrow> int \<Rightarrow> gb_loopback list \<Rightarrow> gb_loopback list" where
  "loopback_update f cport [] = []"
| "loopback_update f cport (l # ls) =
     (if lb_cport l = cport then l\<lparr>lb_stats := f (lb_stats l)\<rparr> # ls else l # loopback_update f cport ls)"

definition loopback_error_notify :: "int \<Rightarrow> gb_loopback list \<Rightarrow> gb_loopback list" where
  "loopback_error_notify = loopback_update (\<lambda>s. s\<lparr>st_recv_err := st_recv_err s + 1\<rparr>)"

definition loopback_recv_inc :: "int \<Rightarrow> gb_loopback list \<Rightarrow> gb_loopback list" where
  "loopback_recv_inc = loopback_update (\<lambda>s. s\<lparr>st_recv := st_recv s + 1\<rparr>)"

definition gb_loopback_reset :: "int \<Rightarrow> gb_loopback list \<Rightarrow> gb_loopback list" where
  "gb_loopback_reset = loopback_update (\<lambda>s. no_statistics)"

definition gb_loopback_cport_valid :: "int \<Rightarrow> gb_loopback list \<Rightarrow> bool" where
  "gb_loopback_cport_valid cport ls \<longleftrightarrow> loopback_from_cport cport ls \<noteq> None"

definition on_list :: "'w loopback_api \<Rightarrow> (gb_loopback list \<Rightarrow> gb_loopback list) \<Rightarrow> 'w core \<Rightarrow> 'w core" where
  "on_list api f c = c\<lparr>world := lb_set_list api (f (lb_list api (world c))) (world c)\<rparr>"

section \<open>Callbacks on responses\<close>

definition gb_loopback_ping_sink_resp_cb :: "'w loopback_api \<Rightarrow> 'w core \<Rightarrow> nat \<Rightarrow> 'w core option" where
  "gb_loopback_ping_sink_resp_cb api c a = do {
     op \<leftarrow> get_op c a;
     ret \<leftarrow> gb_operation_get_request_result c (Some a);
     Some (if ret \<noteq> 0 then on_list api (loopback_error_notify (int (op_cport op))) c
           else on_list api (loopback_recv_inc (int (op_cport op))) c) }"

text \<open>
  \<^verbatim>\<open>operation->response\<close> is dereferenced without a null check and its payload read without a size
  check; both are faults of the model.
\<close>

definition gb_loopback_transfer_resp_cb :: "'w loopback_api \<Rightarrow> 'w core \<Rightarrow> nat \<Rightarrow> 'w core option" where
  "gb_loopback_transfer_resp_cb api c a = do {
     op \<leftarrow> get_op c a;
     r \<leftarrow> op_response op;
     rop \<leftarrow> get_op c r;
     len \<leftarrow> req32 op 0;
     rlen \<leftarrow> req32 rop 0;
     if len \<noteq> rlen then Some (on_list api (loopback_error_notify (int (op_cport op))) c)
     else do {
       xs \<leftarrow> req_slice op 12 (unat len);
       ys \<leftarrow> req_slice rop 12 (unat len);
       Some (if xs \<noteq> ys then on_list api (loopback_error_notify (int (op_cport op))) c
             else on_list api (loopback_recv_inc (int (op_cport op))) c) } }"

section \<open>Sending requests\<close>

fun rand_bytes :: "'w loopback_api \<Rightarrow> nat \<Rightarrow> 'w \<Rightarrow> bytes \<times> 'w" where
  "rand_bytes api 0 w = ([], w)"
| "rand_bytes api (Suc n) w =
     (let (r, w1) = lb_rand api w; (xs, w2) = rand_bytes api n w1 in (ucast (r AND 0xFF) # xs, w2))"

text \<open>\<^verbatim>\<open>ping_cb\<close> and \<^verbatim>\<open>transfer_cb\<close> are the two callbacks above, as function pointers.\<close>

definition gb_loopback_send_req ::
  "'w env \<Rightarrow> 'w loopback_api \<Rightarrow> fptr \<Rightarrow> fptr \<Rightarrow> nat \<Rightarrow> nat \<Rightarrow> u8 \<Rightarrow> 'w core \<Rightarrow> (int \<times> 'w core) option" where
  "gb_loopback_send_req E api ping_cb transfer_cb cport sz ty c =
     (if ty \<noteq> 2 \<and> ty \<noteq> 3 \<and> ty \<noteq> 4 then Some (- EINVAL, c)
      else do {
        (r, c1) \<leftarrow> gb_operation_create E cport ty (if ty = 2 then 1 else size_add 12 sz) c;
        (case r of
           None \<Rightarrow> Some (- ENOMEM, c1)
         | Some a \<Rightarrow> do {
             (status, c2) \<leftarrow>
               (if ty = 2 then gb_operation_send_request E a (Some (Callback_user ping_cb)) True c1
                else do {
                  op \<leftarrow> get_op c1 a;
                  b \<leftarrow> op_request_buffer op;
                  b1 \<leftarrow> wr32 b HDR_SIZE (word_of_nat sz);
                  if ty = 3 then do {
                    let (xs, w) = rand_bytes api sz (world c1);
                    b2 \<leftarrow> wr_slice b1 (HDR_SIZE + 12) xs;
                    gb_operation_send_request E a (Some (Callback_user transfer_cb)) True
                      (put_op a (op\<lparr>op_request_buffer := Some b2\<rparr>) (c1\<lparr>world := w\<rparr>)) }
                  else
                    gb_operation_send_request E a (Some (Callback_user ping_cb)) True
                      (put_op a (op\<lparr>op_request_buffer := Some b1\<rparr>) c1) });
             c3 \<leftarrow> gb_operation_destroy E a c2;
             Some (if status \<noteq> 0 then lb_ERROR api else 0, c3) }) })"

section \<open>Handlers\<close>

definition gb_loopback_protocol_ver_cb :: "'w loopback_api \<Rightarrow> 'w handler" where
  "gb_loopback_protocol_ver_cb api bnd w op = do {
     (ok, op1, w1) \<leftarrow> gb_operation_alloc_response (lb_alloc api) w op 2;
     if \<not> ok then Some (GB_OP_NO_MEMORY, op1, w1)
     else do { op2 \<leftarrow> resp8 op1 0 0; op3 \<leftarrow> resp8 op2 1 1; Some (GB_OP_SUCCESS, op3, w1) } }"

definition gb_loopback_transfer_req_cb :: "'w loopback_api \<Rightarrow> 'w handler" where
  "gb_loopback_transfer_req_cb api bnd w op = do {
     n \<leftarrow> payload_size op;
     if n < 12 then Some (GB_OP_INVALID, op, w)
     else do {
       len \<leftarrow> req32 op 0;
       (ok, op1, w1) \<leftarrow> gb_operation_alloc_response (lb_alloc api) w op (size_add 12 (unat len));
       if \<not> ok then Some (GB_OP_NO_MEMORY, op1, w1)
       else do {
         op2 \<leftarrow> resp32 op1 0 len;
         xs \<leftarrow> req_slice op 12 (unat len);
         op3 \<leftarrow> resp_slice op2 12 xs;
         Some (GB_OP_SUCCESS, op3, w1) } } }"

definition gb_loopback_ping_sink_req_cb :: "'w loopback_api \<Rightarrow> 'w handler" where
  "gb_loopback_ping_sink_req_cb api bnd w op = Some (GB_OP_SUCCESS, op, w)"

definition loopback_handler :: "'w loopback_api \<Rightarrow> nat \<Rightarrow> 'w handler" where
  "loopback_handler api n =
     (if n = 1 then gb_loopback_protocol_ver_cb api
      else if n = 2 then gb_loopback_ping_sink_req_cb api
      else if n = 3 then gb_loopback_transfer_req_cb api
      else if n = 4 then gb_loopback_ping_sink_req_cb api
      else (\<lambda>bnd w op. None))"

definition gb_loopback_register ::
  "'w env \<Rightarrow> 'w loopback_api \<Rightarrow> nat \<Rightarrow> nat \<Rightarrow> int \<Rightarrow> 'w core \<Rightarrow> 'w core option" where
  "gb_loopback_register E api d cport bundle c = do {
     let (ok, w) = lb_zalloc api (world c) 64;
     let c0 = c\<lparr>world := w\<rparr>;
     let c1 = (if ok then on_list api
                 (lb_list_add api \<lparr>lb_cport = int cport, lb_stats = no_statistics\<rparr>) c0
               else c0);
     (_, c2) \<leftarrow> gb_register_driver E cport bundle (Some d) c1;
     Some c2 }"

section \<open>The handlers keep to the interface\<close>

text \<open>The copy of the data only fits a response whose size did not wrap.\<close>

lemma transfer_response_fits:
  assumes al: "gb_operation_alloc_response al w op (size_add 12 (unat len)) = Some (True, op1, w1)"
    and "resp32 op1 0 (v :: u32) = Some op2" and "resp_slice op2 12 xs = Some op3" and "length xs = unat (len :: u32)"
  shows "12 + unat len + 8 < 2 ^ 32"
proof -
  let ?n = "size_add (size_add 12 (unat len)) 8"
  from al obtain b where b: "op_response_buffer op1 = Some b" "length b = ?n"
    by (auto simp: gb_operation_alloc_response_def Let_def bind_eq_Some_conv wr16_def wr8_def wr_slice_def
        split: prod.splits if_splits)
  from assms(2) b obtain b2 where b2: "op_response_buffer op2 = Some b2" "length b2 = ?n"
    by (auto simp: resp32_def resp_update_def bind_eq_Some_conv wr32_def wr_slice_def split: if_splits)
  from assms(3,4) b2 have "20 + unat len \<le> ?n"
    by (auto simp: resp_slice_def resp_update_def bind_eq_Some_conv wr_slice_def split: if_splits)
  then show ?thesis by (simp add: size_add_def)
qed

lemma req_slice_length: "req_slice op off n = Some xs \<Longrightarrow> length xs = n"
  by (auto simp: req_slice_def rd_slice_def bind_eq_Some_conv split: if_splits)

lemma req_slice_bound:
  "req_slice op off n = Some xs \<Longrightarrow> short_request op \<Longrightarrow> HDR_SIZE + off + n < 65536"
  by (auto simp: req_slice_def rd_slice_def bind_eq_Some_conv short_request_def split: if_splits)

lemma transfer_req_kept:
  assumes "gb_loopback_transfer_req_cb api bnd w op = Some (res, op', w')"
  shows "resp_written op op'" and "short_request op \<Longrightarrow> echo_kept op op'"
proof -
  from assms consider "op' = op"
    | len w1 where "gb_operation_alloc_response (lb_alloc api) w op (size_add 12 (unat (len :: u32))) = Some (False, op', w1)"
    | len op1 w1 op2 xs where
      "gb_operation_alloc_response (lb_alloc api) w op (size_add 12 (unat (len :: u32))) = Some (True, op1, w1)"
      "resp32 op1 0 len = Some op2" "req_slice op 12 (unat len) = Some xs" "resp_slice op2 12 xs = Some op'"
    by (auto simp: gb_loopback_transfer_req_cb_def bind_eq_Some_conv split: if_splits prod.splits bool.splits)
  then have "resp_written op op' \<and> (short_request op \<longrightarrow> echo_kept op op')"
  proof cases
    case (2 len w1)
    then have "op' = op\<lparr>op_response_buffer := None\<rparr>"
      by (auto simp: gb_operation_alloc_response_def Let_def bind_eq_Some_conv split: prod.splits if_splits)
    then show ?thesis by (auto simp: resp_written_def echo_kept_def resp_echo_def)
  next
    case (3 len op1 w1 op2 xs)
    note fit = transfer_response_fits[OF 3(1,2,4) req_slice_length[OF 3(3)]]
    then have n: "size_add 12 (unat len) = 12 + unat len" by simp
    have w: "resp_written op op'"
      using alloc_written[OF 3(1)] fit n resp_writes(3)[OF 3(2)] resp_writes(4)[OF 3(4)] resp_written_trans by simp blast
    have "echo_kept op op'" if "short_request op"
      using alloc_echo[OF 3(1)] n req_slice_bound[OF 3(3) that] resp_writes(3)[OF 3(2)] resp_writes(4)[OF 3(4)]
        echo_kept_trans by simp blast
    with w show ?thesis by blast
  qed simp
  then show "resp_written op op'" "short_request op \<Longrightarrow> echo_kept op op'" by blast+
qed

lemma loopback_kept: "n \<noteq> 3 \<Longrightarrow> handler_kept (loopback_handler api n)"
  by (rule handler_keptI)
     (auto simp: loopback_handler_def gb_loopback_protocol_ver_cb_def gb_loopback_ping_sink_req_cb_def
        wp_atoms dest!: kept_writes kept_alloc intro: kept_trans)

interpretation loopback: gb_handler_echo "loopback_handler api"
proof
  fix n bnd w op res op' w'
  assume r: "loopback_handler api n bnd w op = Some (res, op', w')"
  show "resp_written op op'"
    using transfer_req_kept(1)[of api bnd w op] handler_keptD[OF loopback_kept r] r
    by (cases "n = 3") (auto simp: loopback_handler_def kept_def)
  show "short_request op \<Longrightarrow> echo_kept op op'"
    using transfer_req_kept(2)[of api bnd w op] handler_keptD[OF loopback_kept r] r
    by (cases "n = 3") (auto simp: loopback_handler_def kept_def)
qed

section \<open>Statistics\<close>

lemma loopback_from_update:
  "loopback_from_cport q (loopback_update f p ls) =
     map_option (\<lambda>l. if p = q then l\<lparr>lb_stats := f (lb_stats l)\<rparr> else l) (loopback_from_cport q ls)"
  by (induction ls) (auto simp: option.map_ident)

text \<open>
  Counting a received response changes the statistics of the cport's own instance, adding one
  to its received messages, and no other instance's; cports without an instance stay without.
\<close>

theorem loopback_recv_inc_stats:
  "gb_loopback_get_stats q (loopback_recv_inc p ls) =
     (case gb_loopback_get_stats q ls of
        Inl e \<Rightarrow> Inl e
      | Inr s \<Rightarrow> Inr (if p = q then s\<lparr>st_recv := st_recv s + 1\<rparr> else s))"
  by (simp add: gb_loopback_get_stats_def loopback_recv_inc_def loopback_from_update split: option.split)

section \<open>A transfer and its answer\<close>

text \<open>The payload of a transfer in either direction: length, two reserved words, data.\<close>

definition transfer_payload :: "u32 \<Rightarrow> bytes \<Rightarrow> bytes \<Rightarrow> bytes" where
  "transfer_payload len reserved data = bytes32 len @ reserved @ data"

lemma transfer_reads:
  assumes "op_request_buffer op = Some (h @ transfer_payload len reserved data)"
    and "length h = 8" and "length reserved = 8" and "n \<le> length data"
  shows "req32 op 0 = Some len" and "req_slice op 12 n = Some (take n data)"
proof -
  show "req32 op 0 = Some len"
    using assms(1,2) by (simp add: req32_def transfer_payload_def rd32_append_right rd32_bytes32)
  show "req_slice op 12 n = Some (take n data)"
    using assms by (simp add: req_slice_def rd_slice_def transfer_payload_def)
qed

text \<open>
  C34. A transfer request is answered with its own data: the response carries the same length,
  zeroed reserved words and the data of the request.
\<close>

theorem gb_loopback_transfer_echoes:
  assumes "op_ok k op" and "op_request_buffer op = Some (h @ transfer_payload len reserved data)"
    and "length h = HDR_SIZE" and "length reserved = 8" and "unat len = length data"
    and "payload_size op = Some (12 + length data)" and "length data < 65516"
    and "\<And>w n. fst (lb_alloc api w n)"
  shows "\<exists>h' w'. length h' = HDR_SIZE \<and>
    gb_loopback_transfer_req_cb api bnd w op
      = Some (GB_OP_SUCCESS, answer op h' (transfer_payload len (replicate 8 0) data), w')"
proof -
  have n: "size_add 12 (unat len) = 12 + length data" using assms(5,7) by simp
  have "12 + length data < 65528" using assms(7) by simp
  from alloc_succeeds[OF assms(1) this, of "lb_alloc api" w] assms(8) obtain h' w' where h': "length h' = 8"
    "gb_operation_alloc_response (lb_alloc api) w op (12 + length data)
      = Some (True, answer op h' (replicate (12 + length data) 0), w')" by auto
  note req = transfer_reads[OF assms(2-4), of "length data"]
  have "replicate (12 + length data) (0 :: u8) = replicate 4 0 @ replicate 8 0 @ replicate (length data) 0"
    by (simp add: replicate_add [symmetric])
  then have "gb_loopback_transfer_req_cb api bnd w op
      = Some (GB_OP_SUCCESS, answer op h' (transfer_payload len (replicate 8 0) data), w')"
    using h' n req assms(5,6)
    by (simp add: gb_loopback_transfer_req_cb_def resp32_payload resp_slice_payload transfer_payload_def)
  with h'(1) show ?thesis by blast
qed

text \<open>
  The callback on the response of a transfer counts it as received exactly when its data is
  the data that was sent, and as an error otherwise.
\<close>

theorem gb_loopback_transfer_counts:
  assumes "get_op c a = Some op" and "op_response op = Some r" and "get_op c r = Some rop"
    and "op_request_buffer op = Some (h @ transfer_payload len reserved data)"
    and "op_request_buffer rop = Some (h' @ transfer_payload len reserved' data')"
    and "length h = HDR_SIZE" and "length h' = HDR_SIZE" and "length reserved = 8" and "length reserved' = 8"
    and "unat len = length data" and "length data \<le> length data'"
  shows "gb_loopback_transfer_resp_cb api c a =
    Some (on_list api ((if take (length data) data' = data then loopback_recv_inc else loopback_error_notify)
            (int (op_cport op))) c)"
  using transfer_reads[OF assms(4,6,8), of "length data"] transfer_reads[OF assms(5,7,9), of "length data"]
    assms(1-3,10,11)
  by (auto simp: gb_loopback_transfer_resp_cb_def)

text \<open>
  A response that repeats the length of the request but holds less data is not rejected: the
  comparison reads past the end of the response.
\<close>

theorem gb_loopback_transfer_short_response:
  assumes "get_op c a = Some op" and "op_response op = Some r" and "get_op c r = Some rop"
    and "op_request_buffer op = Some (h @ transfer_payload len reserved data)"
    and "op_request_buffer rop = Some (h' @ transfer_payload len reserved' data')"
    and "length h = HDR_SIZE" and "length h' = HDR_SIZE" and "length reserved = 8" and "length reserved' = 8"
    and "unat len = length data" and "length data' < length data"
  shows "gb_loopback_transfer_resp_cb api c a = None"
proof -
  have "req_slice rop 12 (length data) = None"
    using assms(5,7,9,11) by (simp add: req_slice_def rd_slice_def transfer_payload_def)
  then show ?thesis
    using transfer_reads[OF assms(4,6,8), of 0] transfer_reads[OF assms(5,7,9), of 0] assms(1-3,10)
    by (auto simp: gb_loopback_transfer_resp_cb_def bind_eq_None_conv)
qed

section \<open>Examples\<close>

definition sample_loopback :: "unit loopback_api" where
  "sample_loopback = \<lparr>lb_alloc = (\<lambda>w n. (True, w)), lb_zalloc = (\<lambda>w n. (True, w)), lb_list = (\<lambda>w. []),
     lb_set_list = (\<lambda>ls w. w), lb_list_add = (#), lb_rand = (\<lambda>w. (0, w)), lb_ERROR = - 1\<rparr>"

definition sample_bytes :: "bytes \<Rightarrow> bytes" where
  "sample_bytes data = transfer_payload 2 (replicate 8 0) data"

lemma length_sample_bytes [simp]: "length (sample_bytes data) = 12 + length data"
  by (simp add: sample_bytes_def transfer_payload_def)

theorem gb_loopback_transfer_echoes_witness:
  "\<exists>h' w'. length h' = HDR_SIZE \<and>
    gb_loopback_transfer_req_cb sample_loopback \<lparr>bnd_id = 0, bnd_cport_start = 0, bnd_dev = []\<rparr> ()
      (sample_operation 0 5 3 (sample_bytes [8, 9]))
      = Some (GB_OP_SUCCESS, answer (sample_operation 0 5 3 (sample_bytes [8, 9])) h' (sample_bytes [8, 9]), w')"
proof -
  let ?p = "sample_bytes [8, 9]"
  have ok: "op_ok 1 (sample_operation 0 5 3 ?p)" by (rule sample_operation_ok) simp_all
  have b: "op_request_buffer (sample_operation 0 5 3 ?p)
      = Some (hdr_bytes (word_of_nat (8 + length ?p)) 5 3 0 @ transfer_payload 2 (replicate 8 0) [8, 9])"
    by (simp add: sample_bytes_def)
  have n: "payload_size (sample_operation 0 5 3 ?p) = Some (12 + length [8, 9 :: u8])"
    by (subst sample_operation_payload) simp_all
  from gb_loopback_transfer_echoes[OF ok b _ _ _ n, of sample_loopback] show ?thesis
    by (simp add: sample_loopback_def sample_bytes_def)
qed

text \<open>A transfer of two octets and its response with the data \<open>data\<close>.\<close>

definition sample_transfer :: "bytes \<Rightarrow> unit core" where
  "sample_transfer data = sample_core (sample_cport True)
     [(sample_operation 0 5 3 (sample_bytes [8, 9]))\<lparr>op_response := Some 1\<rparr>,
      sample_operation 0 5 0x83 (sample_bytes data)]"

lemma sample_transfer_ops:
  "get_op (sample_transfer data) 0 = Some ((sample_operation 0 5 3 (sample_bytes [8, 9]))\<lparr>op_response := Some 1\<rparr>)"
  "get_op (sample_transfer data) 1 = Some (sample_operation 0 5 0x83 (sample_bytes data))"
  by (simp_all add: sample_transfer_def)

lemma sample_transfer_buffers:
  "op_request_buffer ((sample_operation 0 5 3 (sample_bytes [8, 9]))\<lparr>op_response := Some 1\<rparr>)
     = Some (hdr_bytes 22 5 3 0 @ transfer_payload 2 (replicate 8 0) [8, 9])"
  "op_request_buffer (sample_operation 0 5 0x83 (sample_bytes data))
     = Some (hdr_bytes (word_of_nat (20 + length data)) 5 0x83 0 @ transfer_payload 2 (replicate 8 0) data)"
  by (simp_all add: sample_bytes_def transfer_payload_def)

theorem gb_loopback_transfer_counts_witness:
  "gb_loopback_transfer_resp_cb sample_loopback (sample_transfer [8, 7]) 0
     = Some (on_list sample_loopback (loopback_error_notify 0) (sample_transfer [8, 7]))"
  using gb_loopback_transfer_counts[OF sample_transfer_ops(1) _ sample_transfer_ops(2) sample_transfer_buffers,
      of "[8, 7]"] by simp

theorem gb_loopback_transfer_short_response_witness:
  "gb_loopback_transfer_resp_cb sample_loopback (sample_transfer [8]) 0 = None"
  using gb_loopback_transfer_short_response[OF sample_transfer_ops(1) _ sample_transfer_ops(2) sample_transfer_buffers,
      of "[8]"] by simp

end
