(* ===== verification/Gb_Pwm.thy ===== *)
theory Gb_Pwm
  imports Gb_Handler
begin

text \<open>
  The PWM protocol, \<^verbatim>\<open>subsys/greybus/pwm-protocol.c\<close> with the structures of \<^verbatim>\<open>pwm-gb.h\<close>. The
  driver keeps a \<^verbatim>\<open>struct gb_pwm_info\<close> behind \<^verbatim>\<open>bundle->priv\<close> and the handle of its controller
  in \<^verbatim>\<open>bundle->dev\<close>; both are \<open>pwm_bundle\<close>. The number of generators is learnt from a count
  request and bounds every later request. The controller is the parameter \<open>pwm_api\<close>.
\<close>

unbundle bit_operations_syntax

record gb_pwm_info =
  pi_cport :: u16
  pi_dev_id :: u16
  pi_num_pwms :: u16

text \<open>\<^verbatim>\<open>bundle->priv\<close>: null, the driver's structure, or a pointer to it after it was freed.\<close>

datatype pwm_priv = Priv_null | Priv_live gb_pwm_info | Priv_freed

record pwm_bundle =
  pb_priv :: pwm_priv
  pb_dev :: "nat option"

record 'w pwm_api =
  pwm_alloc :: "'w alloc_fn"
  pwm_zalloc :: "'w alloc_fn"
  pwm_open :: "'w \<Rightarrow> nat option \<times> 'w"
  pwm_close :: "nat \<Rightarrow> 'w \<Rightarrow> 'w"
  device_pwm_get_count :: "nat \<Rightarrow> 'w \<Rightarrow> int \<times> u16 \<times> 'w"
  device_pwm_activate :: "nat \<Rightarrow> u8 \<Rightarrow> 'w \<Rightarrow> int \<times> 'w"
  device_pwm_deactivate :: "nat \<Rightarrow> u8 \<Rightarrow> 'w \<Rightarrow> int \<times> 'w"
  device_pwm_config :: "nat \<Rightarrow> u8 \<Rightarrow> u32 \<Rightarrow> u32 \<Rightarrow> 'w \<Rightarrow> int \<times> 'w"
  device_pwm_set_polarity :: "nat \<Rightarrow> u8 \<Rightarrow> u8 \<Rightarrow> 'w \<Rightarrow> int \<times> 'w"
  device_pwm_enable :: "nat \<Rightarrow> u8 \<Rightarrow> 'w \<Rightarrow> int \<times> 'w"
  device_pwm_disable :: "nat \<Rightarrow> u8 \<Rightarrow> 'w \<Rightarrow> int \<times> 'w"

type_synonym 'w pwm_handler = "(pwm_bundle \<times> 'w) handler"

section \<open>Handlers\<close>

definition gb_pwm_protocol_version :: "'w pwm_api \<Rightarrow> 'w pwm_handler" where
  "gb_pwm_protocol_version api bnd w op = do {
     (ok, op1, w1) \<leftarrow> gb_operation_alloc_response (pair_alloc (pwm_alloc api)) w op 2;
     if \<not> ok then Some (GB_OP_NO_MEMORY, op1, w1)
     else do { op2 \<leftarrow> resp8 op1 0 0; op3 \<leftarrow> resp8 op2 1 1; Some (GB_OP_SUCCESS, op3, w1) } }"

definition gb_pwm_protocol_count :: "'w pwm_api \<Rightarrow> 'w pwm_handler" where
  "gb_pwm_protocol_count api bnd w op =
     (case (pb_priv (fst w), pb_dev (fst w)) of
        (Priv_live info, Some dev) \<Rightarrow> do {
          (ok, op1, w1) \<leftarrow> gb_operation_alloc_response (pair_alloc (pwm_alloc api)) w op 1;
          if \<not> ok then Some (GB_OP_NO_MEMORY, op1, w1)
          else
            let (ret, count, w2) = device_pwm_get_count api dev (snd w1) in
            if ret \<noteq> 0 then Some (GB_OP_UNKNOWN_ERROR, op1, fst w1, w2)
            else if count = 0 \<or> 256 < count then Some (GB_OP_UNKNOWN_ERROR, op1, fst w1, w2)
            else do {
              let s = (fst w1)\<lparr>pb_priv := Priv_live (info\<lparr>pi_num_pwms := count\<rparr>)\<rparr>;
              op2 \<leftarrow> resp8 op1 0 (ucast count - 1);
              Some (GB_OP_SUCCESS, op2, s, w2) } }
      | (Priv_freed, Some _) \<Rightarrow> None
      | _ \<Rightarrow> Some (GB_OP_UNKNOWN_ERROR, op, w))"

text \<open>
  The part the other handlers have in common: the size of the request, the state of the driver
  and the bound of the generator number. \<open>Inl\<close> is the early return.
\<close>

definition pwm_request :: "pwm_bundle \<Rightarrow> gb_operation \<Rightarrow> nat \<Rightarrow> (u8 + nat \<times> u8) option" where
  "pwm_request s op req_size = do {
     n \<leftarrow> payload_size op;
     if n < req_size then Some (Inl GB_OP_INVALID)
     else
       (case (pb_priv s, pb_dev s) of
          (Priv_live info, Some dev) \<Rightarrow> do {
            which \<leftarrow> req8 op 0;
            if unat (pi_num_pwms info) \<le> unat which then Some (Inl GB_OP_INVALID)
            else Some (Inr (dev, which)) }
        | (Priv_freed, Some _) \<Rightarrow> None
        | _ \<Rightarrow> Some (Inl GB_OP_UNKNOWN_ERROR)) }"

text \<open>The device call of a handler: every error becomes the same status.\<close>

definition pwm_call :: "pwm_bundle \<Rightarrow> gb_operation \<Rightarrow> int \<times> 'w \<Rightarrow>
    (u8 \<times> gb_operation \<times> pwm_bundle \<times> 'w) option" where
  "pwm_call s op r = Some (if fst r \<noteq> 0 then GB_OP_UNKNOWN_ERROR else GB_OP_SUCCESS, op, s, snd r)"

definition gb_pwm_protocol_activate :: "'w pwm_api \<Rightarrow> 'w pwm_handler" where
  "gb_pwm_protocol_activate api bnd w op = do {
     r \<leftarrow> pwm_request (fst w) op 1;
     (case r of
        Inl e \<Rightarrow> Some (e, op, w)
      | Inr (dev, which) \<Rightarrow> pwm_call (fst w) op (device_pwm_activate api dev which (snd w))) }"

definition gb_pwm_protocol_deactivate :: "'w pwm_api \<Rightarrow> 'w pwm_handler" where
  "gb_pwm_protocol_deactivate api bnd w op = do {
     r \<leftarrow> pwm_request (fst w) op 1;
     (case r of
        Inl e \<Rightarrow> Some (e, op, w)
      | Inr (dev, which) \<Rightarrow> pwm_call (fst w) op (device_pwm_deactivate api dev which (snd w))) }"

definition gb_pwm_protocol_config :: "'w pwm_api \<Rightarrow> 'w pwm_handler" where
  "gb_pwm_protocol_config api bnd w op = do {
     r \<leftarrow> pwm_request (fst w) op 9;
     (case r of
        Inl e \<Rightarrow> Some (e, op, w)
      | Inr (dev, which) \<Rightarrow> do {
          duty \<leftarrow> req32 op 1;
          period \<leftarrow> req32 op 5;
          pwm_call (fst w) op (device_pwm_config api dev which duty period (snd w)) }) }"

definition gb_pwm_protocol_polarity :: "'w pwm_api \<Rightarrow> 'w pwm_handler" where
  "gb_pwm_protocol_polarity api bnd w op = do {
     r \<leftarrow> pwm_request (fst w) op 2;
     (case r of
        Inl e \<Rightarrow> Some (e, op, w)
      | Inr (dev, which) \<Rightarrow> do {
          pol \<leftarrow> req8 op 1;
          pwm_call (fst w) op (device_pwm_set_polarity api dev which pol (snd w)) }) }"

definition gb_pwm_protocol_enable :: "'w pwm_api \<Rightarrow> 'w pwm_handler" where
  "gb_pwm_protocol_enable api bnd w op = do {
     r \<leftarrow> pwm_request (fst w) op 1;
     (case r of
        Inl e \<Rightarrow> Some (e, op, w)
      | Inr (dev, which) \<Rightarrow> pwm_call (fst w) op (device_pwm_enable api dev which (snd w))) }"

definition gb_pwm_protocol_disable :: "'w pwm_api \<Rightarrow> 'w pwm_handler" where
  "gb_pwm_protocol_disable api bnd w op = do {
     r \<leftarrow> pwm_request (fst w) op 1;
     (case r of
        Inl e \<Rightarrow> Some (e, op, w)
      | Inr (dev, which) \<Rightarrow> pwm_call (fst w) op (device_pwm_disable api dev which (snd w))) }"

section \<open>The driver\<close>

definition pwm_handler :: "'w pwm_api \<Rightarrow> nat \<Rightarrow> 'w pwm_handler" where
  "pwm_handler api n =
     (if n = 1 then gb_pwm_protocol_version api
      else if n = 2 then gb_pwm_protocol_count api
      else if n = 3 then gb_pwm_protocol_activate api
      else if n = 4 then gb_pwm_protocol_deactivate api
      else if n = 5 then gb_pwm_protocol_config api
      else if n = 6 then gb_pwm_protocol_polarity api
      else if n = 7 then gb_pwm_protocol_enable api
      else if n = 8 then gb_pwm_protocol_disable api
      else (\<lambda>bnd w op. None))"

text \<open>\<^verbatim>\<open>bundle->dev\<close>, allocated by the core, is overwritten with the handle of the controller; when
  it cannot be opened the null pointer stays behind.\<close>

definition gb_pwm_init :: "'w pwm_api \<Rightarrow> nat \<Rightarrow> pwm_bundle \<Rightarrow> 'w \<Rightarrow> int \<times> pwm_bundle \<times> 'w" where
  "gb_pwm_init api cport s w =
     (let (ok, w1) = pwm_zalloc api w 24 in
      if \<not> ok then (- ENOMEM, s, w1)
      else
        let info = \<lparr>pi_cport = word_of_nat cport, pi_dev_id = 0, pi_num_pwms = 0\<rparr>;
            (dev, w2) = pwm_open api w1 in
        if dev = None then (- EIO, s\<lparr>pb_dev := None\<rparr>, w2)
        else (0, s\<lparr>pb_dev := dev, pb_priv := Priv_live info\<rparr>, w2))"

text \<open>
  \<^verbatim>\<open>bundle->priv\<close> still points to the freed structure afterwards: a second exit would free it
  again, a request would use it. \<open>gb_unregister_driver\<close> has stopped the worker by then and does
  not call a second exit.
\<close>

definition gb_pwm_exit :: "'w pwm_api \<Rightarrow> nat \<Rightarrow> pwm_bundle \<Rightarrow> 'w \<Rightarrow> (pwm_bundle \<times> 'w) option" where
  "gb_pwm_exit api cport s w =
     (let w1 = (case pb_dev s of None \<Rightarrow> w | Some dev \<Rightarrow> pwm_close api dev w) in
      case pb_priv s of
        Priv_null \<Rightarrow> Some (s, w1)
      | Priv_live _ \<Rightarrow> Some (s\<lparr>pb_priv := Priv_freed\<rparr>, w1)
      | Priv_freed \<Rightarrow> None)"

section \<open>The handlers keep to the interface\<close>

lemmas pwm_defs = gb_pwm_protocol_version_def gb_pwm_protocol_count_def gb_pwm_protocol_activate_def
  gb_pwm_protocol_deactivate_def gb_pwm_protocol_config_def gb_pwm_protocol_polarity_def
  gb_pwm_protocol_enable_def gb_pwm_protocol_disable_def

lemma wp_pwm_request:
  "wp True (pwm_request s op n) P \<longleftrightarrow> (\<forall>x. pwm_request s op n = Some x \<longrightarrow> P x)"
  by (rule wp_True_iff)

lemma pwm_kept: "handler_kept (pwm_handler api n)"
  by (rule handler_keptI)
     (auto simp: pwm_handler_def pwm_defs pwm_call_def Let_def wp_atoms wp_pwm_request
        split: option.splits sum.splits prod.splits pwm_priv.splits
        dest!: kept_writes kept_alloc intro: kept_trans)

interpretation pwm: gb_handler_echo "pwm_handler api"
  by unfold_locales (auto dest!: handler_keptD[OF pwm_kept] simp: kept_def)

section \<open>The state of the driver\<close>

text \<open>The states a controller goes through: opened, asked by requests, closed.\<close>

inductive pwm_reach :: "'w pwm_api \<Rightarrow> pwm_bundle \<Rightarrow> bool" for api where
  start: "pwm_reach api \<lparr>pb_priv = Priv_null, pb_dev = dev\<rparr>"
| init: "pwm_reach api s \<Longrightarrow> gb_pwm_init api cport s w = (r, s', w') \<Longrightarrow> pwm_reach api s'"
| request: "pwm_reach api s \<Longrightarrow> pwm_handler api n bnd (s, w) op = Some (res, op', s', w') \<Longrightarrow> pwm_reach api s'"
| exit: "pwm_reach api s \<Longrightarrow> gb_pwm_exit api cport s w = Some (s', w') \<Longrightarrow> pwm_reach api s'"

definition pwm_bound :: "pwm_bundle \<Rightarrow> nat" where
  "pwm_bound s = (case pb_priv s of Priv_live info \<Rightarrow> unat (pi_num_pwms info) | _ \<Rightarrow> 0)"

lemma pair_alloc_state:
  "gb_operation_alloc_response (pair_alloc al) w op sz = Some (ok, op', s', w') \<Longrightarrow> s' = fst w"
  by (auto simp: gb_operation_alloc_response_def pair_alloc_def Let_def bind_eq_Some_conv split: prod.splits if_splits)

text \<open>Only a successful count request changes the driver's state.\<close>

lemma pwm_request_state:
  assumes "pwm_handler api n bnd (s, w) op = Some (res, op', s', w')"
  shows "s' = s \<or> (n = 2 \<and> (\<exists>count. 1 \<le> unat count \<and> unat count \<le> 256 \<and> pwm_bound s' = unat (count :: u16)))"
proof -
  have "wp True (pwm_handler api n bnd (s, w) op) (\<lambda>(res, op', s', w'). n = 2 \<or> s' = s)"
    by (auto simp: pwm_handler_def pwm_defs pwm_call_def Let_def wp_atoms wp_pwm_request
        split: option.splits sum.splits prod.splits pwm_priv.splits dest: pair_alloc_state)
  then have neq: "n = 2 \<or> s' = s" using wp_TrueD[OF _ assms] by blast
  have "\<exists>count. 1 \<le> unat count \<and> unat count \<le> 256 \<and> pwm_bound s' = unat (count :: u16)"
    if "n = 2" "s' \<noteq> s"
  proof -
    have "wp True (pwm_handler api 2 bnd (s, w) op) (\<lambda>(res, op', s', w'). s' = s \<or>
        (\<exists>info count. count \<noteq> 0 \<and> \<not> 256 < (count :: u16) \<and>
           s' = s\<lparr>pb_priv := Priv_live (info\<lparr>pi_num_pwms := count\<rparr>)\<rparr>))"
      by (auto simp: pwm_handler_def gb_pwm_protocol_count_def Let_def wp_atoms
          split: prod.splits pwm_priv.splits option.splits dest!: pair_alloc_state) blast
    from wp_TrueD[OF this] assms that obtain info count where "count \<noteq> 0" "\<not> 256 < (count :: u16)"
      "s' = s\<lparr>pb_priv := Priv_live (info\<lparr>pi_num_pwms := count\<rparr>)\<rparr>"
      by auto
    then show ?thesis
      by (intro exI[of _ count]) (auto simp: pwm_bound_def word_less_nat_alt unat_gt_0 Suc_le_eq)
  qed
  with neq show ?thesis by blast
qed

lemma pwm_reach_bound: "pwm_reach api s \<Longrightarrow> pwm_bound s \<le> 256"
proof (induction rule: pwm_reach.induct)
  case (request s n bnd w op res op' s' w')
  then show ?case using pwm_request_state[OF request.hyps(2)] by auto
qed (auto simp: pwm_bound_def gb_pwm_init_def gb_pwm_exit_def Let_def split: prod.splits if_splits pwm_priv.splits)

section \<open>The count bounds the requests\<close>

lemma pwm_count_success:
  assumes ok: "op_ok k op" and c: "gb_pwm_protocol_count api bnd w op = Some (GB_OP_SUCCESS, op', s', w')"
  obtains count info dev h where "1 \<le> unat (count :: u16)" and "unat count \<le> 256"
    and "pb_priv s' = Priv_live (info\<lparr>pi_num_pwms := count\<rparr>)" and "pb_dev s' = Some dev"
    and "length h = HDR_SIZE" and "op' = answer op h [ucast count - 1]"
proof -
  obtain s v where w: "w = (s, v)" by (cases w)
  from c w obtain info dev where live: "pb_priv s = Priv_live info" "pb_dev s = Some dev"
    by (auto simp: gb_pwm_protocol_count_def split: pwm_priv.splits option.splits)
  have "(1 :: nat) < 65528" by simp
  from alloc_answer[OF ok this, of "pair_alloc (pwm_alloc api)" w] show ?thesis
  proof (elim disjE exE conjE)
    fix w1 assume "gb_operation_alloc_response (pair_alloc (pwm_alloc api)) w op 1
      = Some (False, op\<lparr>op_response_buffer := None\<rparr>, w1)"
    then show ?thesis using c w live by (simp add: gb_pwm_protocol_count_def)
  next
    fix h w1 assume h: "length h = 8" and al: "gb_operation_alloc_response (pair_alloc (pwm_alloc api)) w op 1
      = Some (True, answer op h (replicate 1 0), w1)"
    from al have s1: "fst w1 = s" using w pair_alloc_state[of "pwm_alloc api" w op 1 True _ "fst w1" "snd w1"] by simp
    obtain ret count w2 where g: "device_pwm_get_count api dev (snd w1) = (ret, count, w2)" by (cases "device_pwm_get_count api dev (snd w1)")
    with c w live al s1 h have "ret = 0" "count \<noteq> 0" "\<not> 256 < count"
      and r: "s' = s\<lparr>pb_priv := Priv_live (info\<lparr>pi_num_pwms := count\<rparr>)\<rparr>" "op' = answer op h [ucast count - 1]"
      by (auto simp: gb_pwm_protocol_count_def Let_def resp8_payload split: if_splits)
    then show ?thesis
      using that[of count info dev h] live h by (auto simp: word_less_nat_alt unat_gt_0 Suc_le_eq)
  qed
qed

lemma unat_count_octet:
  assumes "1 \<le> unat (count :: u16)" and "unat count \<le> 256"
  shows "unat (ucast count - 1 :: u8) = unat count - 1"
proof (cases "unat count = 256")
  case True
  then have "count = 256" by (simp add: word_unat_eq_iff)
  then show ?thesis by simp
next
  case False
  then have c: "unat (ucast count :: u8) = unat count" using assms by (simp add: unsigned_ucast_eq take_bit_eq_mod)
  then have "(1 :: u8) \<le> ucast count" using assms(1) by (simp add: word_le_nat_alt)
  then show ?thesis using c by (simp add: unat_sub)
qed

text \<open>
  The count the host is told, one less than the number of generators, is the largest
  generator number that later requests may name: after a successful count request a request of
  sufficient size goes to the device exactly when its first octet is at most that count, and is
  answered as invalid otherwise.
\<close>

theorem gb_pwm_count_bounds_requests:
  assumes "op_ok k op" and "gb_pwm_protocol_count api bnd w op = Some (GB_OP_SUCCESS, op', s', w')"
    and "op_response_buffer op' = Some b"
    and "payload_size request = Some n" and "req_size \<le> n" and "req8 request 0 = Some which"
  shows "\<exists>dev. pb_dev s' = Some dev \<and>
    pwm_request s' request req_size
      = Some (if which \<le> b ! HDR_SIZE then Inr (dev, which) else Inl GB_OP_INVALID)"
proof -
  from pwm_count_success[OF assms(1,2)] obtain count info dev h where c: "1 \<le> unat (count :: u16)"
    "unat count \<le> 256" "pb_priv s' = Priv_live (info\<lparr>pi_num_pwms := count\<rparr>)" "pb_dev s' = Some dev"
    "length h = 8" "op' = answer op h [ucast count - 1]" by metis
  from c(5,6) assms(3) have "b ! 8 = ucast count - 1" by (auto simp: answer_def nth_append)
  then have "unat count \<le> unat which \<longleftrightarrow> \<not> which \<le> b ! 8"
    using unat_count_octet[OF c(1,2)] c(1) by (auto simp: word_le_nat_alt)
  then show ?thesis using assms(4-6) c(3,4) by (simp add: pwm_request_def)
qed

definition sample_pwm :: "unit pwm_api" where
  "sample_pwm = \<lparr>pwm_alloc = (\<lambda>w n. (True, w)), pwm_zalloc = (\<lambda>w n. (True, w)),
     pwm_open = (\<lambda>w. (Some 1, w)), pwm_close = (\<lambda>d w. w), device_pwm_get_count = (\<lambda>d w. (0, 256, w)),
     device_pwm_activate = (\<lambda>d i w. (0, w)), device_pwm_deactivate = (\<lambda>d i w. (0, w)),
     device_pwm_config = (\<lambda>d i t p w. (0, w)), device_pwm_set_polarity = (\<lambda>d i p w. (0, w)),
     device_pwm_enable = (\<lambda>d i w. (0, w)), device_pwm_disable = (\<lambda>d i w. (0, w))\<rparr>"

definition sample_bundle :: gb_bundle where
  "sample_bundle = \<lparr>bnd_id = 1, bnd_cport_start = 3, bnd_dev = [Some 7]\<rparr>"

theorem gb_pwm_count_bounds_requests_witness:
  "\<exists>dev. pwm_request \<lparr>pb_priv = Priv_live \<lparr>pi_cport = 3, pi_dev_id = 0, pi_num_pwms = 256\<rparr>, pb_dev = Some 1\<rparr>
      (sample_operation 3 9 3 [255]) 1 = Some (Inr (dev, 255))"
proof -
  let ?s = "\<lparr>pb_priv = Priv_live \<lparr>pi_cport = 3, pi_dev_id = 0, pi_num_pwms = 0\<rparr>, pb_dev = Some 1\<rparr>"
  let ?s' = "\<lparr>pb_priv = Priv_live \<lparr>pi_cport = 3, pi_dev_id = 0, pi_num_pwms = 256\<rparr>, pb_dev = Some 1\<rparr>"
  let ?op = "sample_operation 3 8 2 []"
  let ?op' = "answer ?op (hdr_bytes 9 8 0x82 0) [255]"
  have op: "op_ok 4 ?op" by (rule sample_operation_ok) simp_all
  have al: "gb_operation_alloc_response (pair_alloc (pwm_alloc sample_pwm)) (?s, ()) ?op 1
      = Some (True, answer ?op (hdr_bytes 9 8 0x82 0) [0], (?s, ()))"
    using alloc_response_ok[of "pair_alloc (pwm_alloc sample_pwm)" "(?s, ())" 1 "(?s, ())" ?op "hdr_bytes 8 8 2 0" 8 2]
    by (simp add: answer_def pair_alloc_def sample_pwm_def)
  then have "gb_pwm_protocol_count sample_pwm sample_bundle (?s, ()) ?op = Some (GB_OP_SUCCESS, ?op', ?s', ())"
    by (simp add: gb_pwm_protocol_count_def resp8_payload) (simp add: sample_pwm_def resp8_payload)
  from gb_pwm_count_bounds_requests[OF op this, of _ "sample_operation 3 9 3 [255]" 1 1 255] show ?thesis
    by (simp add: answer_def hdr_bytes_def bytes16_def sample_operation_payload req8_def rd8_def)
qed

end
