(* ===== verification/Gb_Tape.thy ===== *)
theory Gb_Tape
  imports Gb_Samples
begin

text \<open>
  The tape of \<^verbatim>\<open>greybus-core.c\<close>: received messages are recorded behind a header of size and cport
  and can be fed to the receive handler again. The tape mechanism is a set of function pointers;
  what the functions here rely on is the record \<open>tape_api\<close>, whose \<open>tape_file\<close> is the contents that
  successive reads deliver, a short read at its end.
\<close>

unbundle bit_operations_syntax

record 'w tape_api =
  tape_open :: "string \<Rightarrow> bool \<Rightarrow> 'w \<Rightarrow> int \<times> 'w"
  tape_close :: "int \<Rightarrow> 'w \<Rightarrow> 'w"
  tape_file :: "'w \<Rightarrow> int \<Rightarrow> bytes"
  tape_malloc :: "'w alloc_fn"

text \<open>\<open>mechanism\<close> says whether the argument and its four functions are non-null.\<close>

definition gb_tape_register_mechanism :: "bool \<Rightarrow> 'w core \<Rightarrow> int \<times> 'w core" where
  "gb_tape_register_mechanism mechanism c =
     (if \<not> mechanism then (- EINVAL, c)
      else if gb_tape c then (- EBUSY, c)
      else (0, c\<lparr>gb_tape := True\<rparr>))"

text \<open>The Boolean of \<open>tape_open\<close> is the mode \<^verbatim>\<open>GB_TAPE_WRONLY\<close>.\<close>

definition gb_tape_communication :: "'w tape_api \<Rightarrow> string \<Rightarrow> 'w core \<Rightarrow> int \<times> 'w core" where
  "gb_tape_communication api pathname c =
     (if \<not> gb_tape c then (- EINVAL, c)
      else if 0 \<le> gb_tape_fd c then (- EBUSY, c)
      else
        let (fd, w) = tape_open api pathname True (world c);
            c1 = c\<lparr>gb_tape_fd := fd, world := w\<rparr> in
        if fd < 0 then (fd, c1) else (0, c1))"

definition gb_tape_stop :: "'w tape_api \<Rightarrow> 'w core \<Rightarrow> int \<times> 'w core" where
  "gb_tape_stop api c =
     (if \<not> gb_tape c \<or> gb_tape_fd c < 0 then (- EINVAL, c)
      else (0, c\<lparr>world := tape_close api (gb_tape_fd c) (world c), gb_tape_fd := - EBADF\<rparr>))"

definition CPORT_BUF_SIZE :: nat where
  "CPORT_BUF_SIZE = 2048"

text \<open>
  The loop of \<^verbatim>\<open>gb_tape_replay\<close>: \<open>file\<close> is what is left to read, \<open>buffer\<close> the buffer of
  \<^verbatim>\<open>CPORT_BUF_SIZE\<close> octets. A record that is longer is read into it all the same: a fault. The
  results of the receive handler are ignored.
\<close>

function replay_loop :: "'w env \<Rightarrow> bytes \<Rightarrow> bytes \<Rightarrow> 'w core \<Rightarrow> (int \<times> 'w core) option" where
  "replay_loop E file buffer c =
     (if file = [] then Some (0, c)
      else if length file < 4 then Some (- EIO, c)
      else do {
        sz \<leftarrow> rd16 file 0;
        cport \<leftarrow> rd16 file 2;
        let data = take (unat sz) (drop 4 file);
        if length buffer < length data then None
        else if unat sz \<noteq> length data then Some (- EIO, c)
        else do {
          let buffer = data @ drop (length data) buffer;
          (_, c1) \<leftarrow> greybus_rx_handler E (unat cport) (Some buffer) (length data) c;
          replay_loop E (drop (length data) (drop 4 file)) buffer c1 } })"
  by pat_completeness auto

termination
  by (relation "measure (\<lambda>(E, file, buffer, c). length file)") auto

definition gb_tape_replay ::
  "'w env \<Rightarrow> 'w tape_api \<Rightarrow> bytes \<Rightarrow> string option \<Rightarrow> 'w core \<Rightarrow> (int \<times> 'w core) option" where
  "gb_tape_replay E api garbage pathname c =
     (if pathname = None \<or> \<not> gb_tape c then Some (- EINVAL, c)
      else
        let (fd, w) = tape_open api (the pathname) False (world c); c1 = c\<lparr>world := w\<rparr> in
        if fd < 0 then Some (fd, c1)
        else
          let (ok, w2) = tape_malloc api (world c1) CPORT_BUF_SIZE; c2 = c1\<lparr>world := w2\<rparr> in
          if \<not> ok then Some (- ENOMEM, c2\<lparr>world := tape_close api fd (world c2)\<rparr>)
          else do {
            (retval, c3) \<leftarrow> replay_loop E (tape_file api (world c2) fd) garbage c2;
            Some (retval, c3\<lparr>world := tape_close api fd (world c3)\<rparr>) })"

declare replay_loop.simps [simp del]

section \<open>Recording and replaying\<close>

text \<open>A record of the tape, as \<open>greybus_rx_handler\<close> writes it, and a sequence of deliveries.\<close>

definition tape_record :: "nat \<times> bytes \<Rightarrow> bytes" where
  "tape_record r = gb_tape_record_header (length (snd r)) (fst r) @ snd r"

fun deliver :: "'w env \<Rightarrow> (nat \<times> bytes) list \<Rightarrow> 'w core \<Rightarrow> 'w core option" where
  "deliver E [] c = Some c"
| "deliver E ((p, m) # ms) c = do {
     (_, c1) \<leftarrow> greybus_rx_handler E p (Some m) (length m) c; deliver E ms c1 }"

text \<open>Fast handlers get a pointer without a size: what they do is determined by the message.\<close>

definition fast_reads_message :: "'w env \<Rightarrow> bool" where
  "fast_reads_message E \<longleftrightarrow>
     (\<forall>f c p m rest. env_fast_handler E f c p (m @ rest) = env_fast_handler E f c p m)"

lemma rd8_append_left: "i < length xs \<Longrightarrow> rd8 (xs @ ys) i = rd8 xs i"
  by (simp add: rd8_def nth_append)

lemma rd16_append_left: "i + 2 \<le> length xs \<Longrightarrow> rd16 (xs @ ys) i = rd16 xs i"
  by (simp add: rd16_def rd8_append_left)

lemma rd_slice_append_left: "i + n \<le> length xs \<Longrightarrow> rd_slice (xs @ ys) i n = rd_slice xs i n"
  by (simp add: rd_slice_def)

lemma rx_create_tail:
  "sz \<le> length m \<Longrightarrow> gb_rx_create_operation E p (m @ rest) sz c = gb_rx_create_operation E p m sz c"
  unfolding gb_rx_create_operation_def by (simp add: rd_slice_append_left cong: option.case_cong)

text \<open>What lies behind the message in its buffer does not matter.\<close>

lemma rx_handler_tail:
  assumes "fast_reads_message E"
  shows "greybus_rx_handler E p (Some (m @ rest)) (length m) c = greybus_rx_handler E p (Some m) (length m) c"
proof (cases "length m < 8")
  case True
  then show ?thesis by (simp add: greybus_rx_handler_def cong: option.case_cong if_cong)
next
  case False
  then have r: "hdr_size (m @ rest) = hdr_size m" "hdr_type (m @ rest) = hdr_type m"
    "rd_slice (m @ rest) 0 (length m) = rd_slice m 0 (length m)"
    by (simp_all add: rd16_append_left rd8_append_left rd_slice_append_left)
  have f: "env_fast_handler E f c p (m @ rest) = env_fast_handler E f c p m" for f c
    using assms by (simp add: fast_reads_message_def)
  have create: "\<not> (length m < unat hsz \<or> unat hsz < 8) \<Longrightarrow>
      gb_rx_create_operation E p (m @ rest) (unat hsz) c1 = gb_rx_create_operation E p m (unat hsz) c1"
    for hsz :: u16 and c1
    by (rule rx_create_tail) simp
  show ?thesis
    unfolding greybus_rx_handler_def option.case r f
    by (simp add: create cong: option.case_cong if_cong)
qed

lemma bytes16_not_empty: "bytes16 v \<noteq> []"
  by (simp add: bytes16_def)

lemma replay_records:
  assumes "fast_reads_message E" and "\<And>p m. (p, m) \<in> set ms \<Longrightarrow> p < 65536 \<and> length m \<le> length buffer"
    and "length buffer = CPORT_BUF_SIZE"
  shows "replay_loop E (concat (map tape_record ms)) buffer c = map_option (Pair 0) (deliver E ms c)"
  using assms
proof (induction ms arbitrary: buffer c)
  case Nil
  then show ?case by (simp add: replay_loop.simps)
next
  case (Cons r ms)
  obtain p m where r: "r = (p, m)" by (cases r)
  let ?buf = "m @ drop (length m) buffer"
  have p: "p < 65536" "length m \<le> 2048" using Cons.prems(2)[of p m] Cons.prems(3) r by (auto simp: CPORT_BUF_SIZE_def)
  let ?rest = "concat (map tape_record ms)"
  have octets: "concat (map tape_record (r # ms))
      = bytes16 (word_of_nat (length m)) @ bytes16 (word_of_nat p) @ m @ ?rest"
    by (simp add: r tape_record_def gb_tape_record_header_def)
  have ih: "replay_loop E ?rest ?buf c1 = map_option (Pair 0) (deliver E ms c1)" for c1
    by (rule Cons.IH) (use Cons.prems p in \<open>auto simp: CPORT_BUF_SIZE_def\<close>)
  have "replay_loop E (concat (map tape_record (r # ms))) buffer c
      = do { (_, c1) \<leftarrow> greybus_rx_handler E p (Some ?buf) (length m) c; replay_loop E ?rest ?buf c1 }"
    unfolding octets using p Cons.prems(3)
    by (subst replay_loop.simps)
       (simp add: bytes16_not_empty rd16_bytes16 rd16_append_right CPORT_BUF_SIZE_def Let_def)
  also have "\<dots> = map_option (Pair 0) (deliver E (r # ms) c)"
    unfolding ih rx_handler_tail[OF Cons.prems(1)] r
    by (cases "greybus_rx_handler E p (Some m) (length m) c") (auto simp: case_prod_beta)
  finally show ?case .
qed

text \<open>
  C35. Replaying a tape is receiving its messages again: from a tape made of the records of \<open>ms\<close>,
  replay hands exactly these messages to the receive handler, in order and with their cports, and
  returns zero.
\<close>

theorem gb_tape_replay_delivers:
  assumes "fast_reads_message E" and "gb_tape c"
    and "tape_open api path False (world c) = (fd, wa)" and "0 \<le> fd"
    and "tape_malloc api wa CPORT_BUF_SIZE = (True, wb)"
    and "tape_file api wb fd = concat (map tape_record ms)"
    and "\<And>p m. (p, m) \<in> set ms \<Longrightarrow> p < 65536 \<and> length m \<le> CPORT_BUF_SIZE"
    and "length garbage = CPORT_BUF_SIZE"
  shows "gb_tape_replay E api garbage (Some path) c =
    map_option (\<lambda>c'. (0, c'\<lparr>world := tape_close api fd (world c')\<rparr>)) (deliver E ms (c\<lparr>world := wb\<rparr>))"
  using replay_records[OF assms(1), of ms garbage "c\<lparr>world := wb\<rparr>"] assms(2-8)
  by (auto simp: gb_tape_replay_def map_option_case split: option.splits)

text \<open>
  A record longer than the buffer of the replay is read into it nevertheless: the size field
  of a record, up to 65535, is not compared with \<^verbatim>\<open>CPORT_BUF_SIZE\<close>.
\<close>

theorem gb_tape_replay_overflow:
  assumes "gb_tape c" and "tape_open api path False (world c) = (fd, wa)" and "0 \<le> fd"
    and "tape_malloc api wa CPORT_BUF_SIZE = (True, wb)"
    and "tape_file api wb fd = tape_record (p, m) @ rest"
    and "p < 65536" and "CPORT_BUF_SIZE < length m" and "length m < 65536"
    and "length garbage = CPORT_BUF_SIZE"
  shows "gb_tape_replay E api garbage (Some path) c = None"
proof -
  have "replay_loop E (tape_record (p, m) @ rest) garbage c' = None" for c'
    using assms(6-9)
    by (subst replay_loop.simps)
       (simp add: tape_record_def gb_tape_record_header_def bytes16_not_empty rd16_bytes16 rd16_append_right)
  then show ?thesis using assms(1-5) by (simp add: gb_tape_replay_def)
qed

text \<open>
  Only one mechanism and one recording at a time: once a mechanism is registered another is
  refused, and while a recording is open a second one is refused until the first is stopped.
\<close>

lemma gb_tape_exclusive:
  "gb_tape (snd (gb_tape_register_mechanism True c))"
  "gb_tape c \<Longrightarrow> gb_tape_register_mechanism m c = (if m then - EBUSY else - EINVAL, c)"
  "gb_tape c \<Longrightarrow> 0 \<le> gb_tape_fd c \<Longrightarrow> gb_tape_communication api path c = (- EBUSY, c)"
  "gb_tape c \<Longrightarrow> 0 \<le> gb_tape_fd c \<Longrightarrow> fst (gb_tape_stop api c) = 0 \<and> gb_tape_fd (snd (gb_tape_stop api c)) < 0"
  by (simp_all add: gb_tape_register_mechanism_def gb_tape_communication_def gb_tape_stop_def)

section \<open>Examples\<close>

definition sample_tape :: "bytes \<Rightarrow> unit tape_api" where
  "sample_tape file = \<lparr>tape_open = (\<lambda>p m w. (3, w)), tape_close = (\<lambda>fd w. w), tape_file = (\<lambda>w fd. file),
     tape_malloc = (\<lambda>w n. (True, w))\<rparr>"

definition sample_recorder :: "unit core" where
  "sample_recorder = (sample_core (sample_cport True) [])\<lparr>gb_tape := True\<rparr>"

lemma sample_recorder_tape [simp]: "gb_tape sample_recorder"
  by (simp add: sample_recorder_def)

theorem gb_tape_replay_delivers_witness:
  "gb_tape_replay quiet_env (sample_tape (concat (map tape_record [(0, [8, 0, 1, 0, 2, 0, 0, 0]), (7, [])])))
      (replicate 2048 0) (Some ''tape'') sample_recorder =
    map_option (\<lambda>c'. (0, c'\<lparr>world := ()\<rparr>))
      (deliver quiet_env [(0, [8, 0, 1, 0, 2, 0, 0, 0]), (7, [])] (sample_recorder\<lparr>world := ()\<rparr>))"
proof -
  have "fast_reads_message quiet_env" by (simp add: fast_reads_message_def quiet_env_def)
  moreover have p: "(p, m) \<in> set [(0, [8, 0, 1, 0, 2, 0, 0, 0]), (7, [])] \<Longrightarrow> p < 65536 \<and> length m \<le> CPORT_BUF_SIZE"
    for p :: nat and m :: bytes by (auto simp: CPORT_BUF_SIZE_def)
  ultimately show ?thesis
    using gb_tape_replay_delivers[OF _ sample_recorder_tape _ _ _ _ p, where api = "sample_tape (concat (map tape_record
      [(0, [8, 0, 1, 0, 2, 0, 0, 0]), (7, [])]))" and path = "''tape''" and fd = 3 and wa = "()" and wb = "()"
      and ms = "[(0, [8, 0, 1, 0, 2, 0, 0, 0]), (7, [])]" and garbage = "replicate 2048 0"]
    by (simp add: sample_tape_def CPORT_BUF_SIZE_def)
qed

theorem gb_tape_replay_overflow_witness:
  "gb_tape_replay quiet_env (sample_tape (tape_record (0, replicate 2049 1))) (replicate 2048 0) (Some ''tape'')
     sample_recorder = None"
  by (rule gb_tape_replay_overflow[where fd = 3 and p = 0 and m = "replicate 2049 1" and rest = "[]"])
    (simp_all add: sample_tape_def CPORT_BUF_SIZE_def)

end
