(* ===== verification/Gb_System.thy ===== *)
theory Gb_System
  imports Gb_Gpio Gb_I2c Gb_Control Gb_Loopback Gb_Pwm Gb_Tape
begin

text \<open>
  The system: the core with the drivers of the repository behind its function pointers. A pointer
  of a driver is its protocol number and a number within the driver; \<open>system_env\<close> is the environment
  of the core in which these pointers are the drivers' functions and everything outside the
  repository is as in \<open>base\<close>. It satisfies the interface of the core, so that the core's lemmas hold
  for it. No driver here registers fast handlers or callbacks for connections.
\<close>

section \<open>Driver tables\<close>

definition handler_ptr :: "nat \<Rightarrow> nat \<Rightarrow> fptr" where
  "handler_ptr proto n = proto * 256 + n"

definition handlers :: "nat \<Rightarrow> u8 list \<Rightarrow> gb_operation_handler list" where
  "handlers proto types = map (\<lambda>t. \<lparr>oh_type = t, oh_handler = Some (handler_ptr proto (unat t)),
     oh_fast_handler = None\<rparr>) types"

text \<open>The tables in the order of the sources.\<close>

definition gb_control_handlers :: "gb_operation_handler list" where
  "gb_control_handlers = handlers 0x00 [0x01, 0x03, 0x04, 0x05, 0x06, 0x0a, 0x0c, 0x12, 0x0f, 0x10,
     0x11, 0x13, 0x14, 0x07, 0x08, 0x09, 0x0d]"

definition gb_gpio_handlers :: "gb_operation_handler list" where
  "gb_gpio_handlers = handlers 0x02 [0x01, 0x02, 0x03, 0x04, 0x05, 0x06, 0x07, 0x08, 0x09, 0x0a,
     0x0b, 0x0c, 0x0d]"

definition gb_i2c_handlers :: "gb_operation_handler list" where
  "gb_i2c_handlers = handlers 0x03 [0x01, 0x02, 0x05]"

definition gb_pwm_handlers :: "gb_operation_handler list" where
  "gb_pwm_handlers = handlers 0x09 [0x01, 0x02, 0x03, 0x04, 0x05, 0x06, 0x07, 0x08]"

definition gb_loopback_handlers :: "gb_operation_handler list" where
  "gb_loopback_handlers = handlers 0x11 [0x01, 0x02, 0x03, 0x04]"

text \<open>A driver structure: number 0 of a protocol is its \<^verbatim>\<open>init\<close> and its \<^verbatim>\<open>exit\<close>.\<close>

definition driver_of :: "bool \<Rightarrow> nat \<Rightarrow> gb_operation_handler list \<Rightarrow> gb_driver" where
  "driver_of has_init proto hs = \<lparr>drv_init = if has_init then Some (handler_ptr proto 0) else None,
     drv_exit = if has_init then Some (handler_ptr proto 0) else None,
     drv_connected = None, drv_disconnected = None, drv_op_handlers = Some hs,
     drv_op_handlers_count = length hs, drv_bundle = None\<rparr>"

definition control_driver :: gb_driver where "control_driver = driver_of False 0x00 gb_control_handlers"
definition gpio_driver :: gb_driver where "gpio_driver = driver_of True 0x02 gb_gpio_handlers"
definition gb_i2c_driver :: gb_driver where "gb_i2c_driver = driver_of True 0x03 gb_i2c_handlers"
definition gb_pwm_driver :: gb_driver where "gb_pwm_driver = driver_of True 0x09 gb_pwm_handlers"
definition loopback_driver :: gb_driver where "loopback_driver = driver_of False 0x11 gb_loopback_handlers"

section \<open>The environment\<close>

text \<open>What lies below the drivers, and where their state is in the world.\<close>

record 'w platform =
  plat_control :: "'w control_api"
  plat_gpio :: "'w gpio_api"
  plat_i2c :: "'w i2c_api"
  plat_pwm :: "'w pwm_api"
  plat_loopback :: "'w loopback_api"
  plat_map :: "'w \<Rightarrow> dev_map"
  plat_pwm_get :: "gb_bundle \<Rightarrow> 'w \<Rightarrow> pwm_bundle"
  plat_pwm_put :: "gb_bundle \<Rightarrow> pwm_bundle \<Rightarrow> 'w \<Rightarrow> 'w"

text \<open>The environment without drivers: the handlers of the control protocol call the core in it.\<close>

definition bare_env :: "'w env \<Rightarrow> 'w env" where
  "bare_env base = base\<lparr>env_handler := \<lambda>f c a. None, env_fast_handler := \<lambda>f c p buf. None,
     env_callback := \<lambda>f c a. None, env_driver_init := \<lambda>f c p b. None,
     env_driver_exit := \<lambda>f c p b. None, env_driver_event := \<lambda>f c p. None\<rparr>"

definition system_handler :: "'w env \<Rightarrow> 'w platform \<Rightarrow> fptr \<Rightarrow> 'w core \<Rightarrow> nat \<Rightarrow> (u8 \<times> 'w core) option" where
  "system_handler base plat f =
     (let proto = f div 256; n = f mod 256 in
      if proto = 0x00 then control_driver_handler (bare_env base) (plat_control plat) n
      else if proto = 0x02 then lift_handler (gpio_handler (plat_gpio plat) n)
      else if proto = 0x03 then lift_handler (i2c_handler (plat_i2c plat) n)
      else if proto = 0x09 then
        lift_handler (focus (plat_pwm_get plat) (plat_pwm_put plat) (pwm_handler (plat_pwm plat) n))
      else if proto = 0x11 then lift_handler (loopback_handler (plat_loopback plat) n)
      else (\<lambda>c a. None))"

text \<open>The callbacks of the loopback driver's own requests.\<close>

definition ping_sink_cb :: fptr where "ping_sink_cb = handler_ptr 0x11 2"
definition transfer_cb :: fptr where "transfer_cb = handler_ptr 0x11 3"

definition system_callback :: "'w platform \<Rightarrow> fptr \<Rightarrow> 'w core \<Rightarrow> nat \<Rightarrow> 'w core option" where
  "system_callback plat f =
     (if f = ping_sink_cb then gb_loopback_ping_sink_resp_cb (plat_loopback plat)
      else if f = transfer_cb then gb_loopback_transfer_resp_cb (plat_loopback plat)
      else (\<lambda>c a. None))"

definition the_bundle :: "'w core \<Rightarrow> nat option \<Rightarrow> (nat \<times> gb_bundle) option" where
  "the_bundle c b = do { i \<leftarrow> b; slot \<leftarrow> get_bundle c (int i); bnd \<leftarrow> slot; Some (i, bnd) }"

definition system_init :: "'w platform \<Rightarrow> fptr \<Rightarrow> 'w core \<Rightarrow> nat \<Rightarrow> nat option \<Rightarrow> (int \<times> 'w core) option" where
  "system_init plat f c cport b = do {
     (i, bnd) \<leftarrow> the_bundle c b;
     if f = handler_ptr 0x02 0 then do {
       (r, bnd') \<leftarrow> gb_gpio_init (plat_map plat (world c)) cport bnd;
       Some (r, c\<lparr>g_bundle := (g_bundle c)[i := Some bnd']\<rparr>) }
     else if f = handler_ptr 0x03 0 then do {
       (r, bnd') \<leftarrow> gb_i2c_init (plat_map plat (world c)) cport bnd;
       Some (r, c\<lparr>g_bundle := (g_bundle c)[i := Some bnd']\<rparr>) }
     else if f = handler_ptr 0x09 0 then
       let (r, s, w) = gb_pwm_init (plat_pwm plat) cport (plat_pwm_get plat bnd (world c)) (world c) in
       Some (r, c\<lparr>world := plat_pwm_put plat bnd s w\<rparr>)
     else None }"

text \<open>The exit functions of GPIO and I2C do nothing.\<close>

definition system_exit :: "'w platform \<Rightarrow> fptr \<Rightarrow> 'w core \<Rightarrow> nat \<Rightarrow> nat option \<Rightarrow> 'w core option" where
  "system_exit plat f c cport b =
     (if f = handler_ptr 0x02 0 \<or> f = handler_ptr 0x03 0 then Some c
      else if f = handler_ptr 0x09 0 then do {
        (i, bnd) \<leftarrow> the_bundle c b;
        (s, w) \<leftarrow> gb_pwm_exit (plat_pwm plat) cport (plat_pwm_get plat bnd (world c)) (world c);
        Some (c\<lparr>world := plat_pwm_put plat bnd s w\<rparr>) }
      else None)"

definition system_env :: "'w env \<Rightarrow> 'w platform \<Rightarrow> 'w env" where
  "system_env base plat = (bare_env base)\<lparr>env_handler := system_handler base plat,
     env_callback := system_callback plat, env_driver_init := system_init plat,
     env_driver_exit := system_exit plat\<rparr>"

section \<open>The environment satisfies the core's interface\<close>

interpretation bare: core_env "bare_env base" True
  by unfold_locales (simp_all add: bare_env_def)

interpretation pwm_focus: gb_handler_echo "\<lambda>n. focus get put (pwm_handler api n)"
  by unfold_locales (auto dest!: handler_keptD[OF handler_kept_focus[OF pwm_kept]] simp: kept_def)

lemma system_handler_ok:
  assumes inv: "core_inv h c" and h: "1 \<le> h a"
  shows "wp True (system_handler base plat f c a) (\<lambda>(r, c'). core_inv h c' \<and> handler_frame a c c')"
  using bare.control_driver_handler_ok[OF inv h] gpio.lift_ok[OF inv] i2c.lift_ok[OF inv]
    pwm_focus.lift_ok[OF inv] loopback.lift_ok[OF inv]
  by (simp add: system_handler_def Let_def)

lemma system_callback_ok:
  assumes "core_inv h c"
  shows "wp True (system_callback plat f c a) (\<lambda>c'. core_inv h c' \<and> rx_frame c c')"
proof -
  have "core_inv h (on_list api g c) \<and> rx_frame c (on_list api g c)" for api g
    using assms by (auto simp: on_list_def intro!: rx_frame_same)
  then show ?thesis
    by (auto simp: system_callback_def gb_loopback_ping_sink_resp_cb_def gb_loopback_transfer_resp_cb_def
        wp_True_iff bind_eq_Some_conv split: if_splits)
qed

lemma system_init_ok:
  assumes "core_inv h c"
  shows "wp True (system_init plat f c p b) (\<lambda>(r, c'). core_inv h c' \<and> rx_frame c c')"
  using assms
  by (auto simp: system_init_def wp_True_iff bind_eq_Some_conv core_inv_bundles Let_def
      split: if_splits prod.splits intro!: rx_frame_same)

lemma system_exit_ok:
  assumes "core_inv h c"
  shows "wp True (system_exit plat f c p b) (\<lambda>c'. core_inv h c' \<and> rx_frame c c')"
  using assms
  by (auto simp: system_exit_def wp_True_iff bind_eq_Some_conv split: if_splits intro!: rx_frame_same)

interpretation sys: core_env "system_env base plat" True
proof
  fix h :: "nat \<Rightarrow> int" and c :: "'a core" and a p :: nat and f :: fptr and b :: "nat option"
  assume inv: "core_inv h c"
  show "1 \<le> h a \<Longrightarrow> wp True (env_handler (system_env base plat) f c a)
      (\<lambda>(r, c'). core_inv h c' \<and> handler_frame a c c')"
    using system_handler_ok[OF inv] by (simp add: system_env_def)
  show "wp True (env_fast_handler (system_env base plat) f c p buf) (\<lambda>c'. core_inv h c' \<and> rx_frame c c')" for buf
    by (simp add: system_env_def bare_env_def)
  show "1 \<le> h a \<Longrightarrow> wp True (env_callback (system_env base plat) f c a) (\<lambda>c'. core_inv h c' \<and> rx_frame c c')"
    using system_callback_ok[OF inv] by (simp add: system_env_def)
  show "wp True (env_driver_init (system_env base plat) f c p b) (\<lambda>(r, c'). core_inv h c' \<and> rx_frame c c')"
    using system_init_ok[OF inv] by (simp add: system_env_def)
  show "wp True (env_driver_exit (system_env base plat) f c p b) (\<lambda>c'. core_inv h c' \<and> rx_frame c c')"
    using system_exit_ok[OF inv] by (simp add: system_env_def)
  show "wp True (env_driver_event (system_env base plat) f c p) (\<lambda>c'. core_inv h c' \<and> event_frame c c')"
    by (simp add: system_env_def bare_env_def)
qed

end
