(* ===== verification/Gb_Runs.thy ===== *)
theory Gb_Runs
  imports Gb_System
begin

text \<open>
  Runs of the whole system: messages arrive, workers take turns, drivers are registered and
  unregistered, in any order. Each public operation of the core is one event, one iteration of a
  worker another; \<open>run_event\<close> is the operation on the system's environment. The states a run reaches
  from a successful \<open>gb_init\<close> keep the invariant of the core.
\<close>

section \<open>Events\<close>

datatype event =
    Receive nat bytes nat
  | Work nat
  | Register nat int nat
  | Unregister nat
  | Timeout nat
  | Notify nat gb_event
  | Listen nat
  | Loopback_request nat nat u8

text \<open>
  The result of an operation does not matter for the state; a worker runs while its thread exists.
  A message lies in a buffer of at least its size, and the size of a loopback request does not wrap.
\<close>

definition run_event :: "'w env \<Rightarrow> 'w platform \<Rightarrow> event \<Rightarrow> 'w core \<Rightarrow> 'w core option" where
  "run_event base plat e c =
     (let E = system_env base plat in
      case e of
        Receive p buf sz \<Rightarrow>
          (if length buf < sz then None else map_option snd (greybus_rx_handler E p (Some buf) sz c))
      | Work p \<Rightarrow> do {
          cp \<leftarrow> get_cp c p;
          if \<not> cp_thread cp then Some c
          else map_option (\<lambda>r. case r of Work_blocked \<Rightarrow> c | Work_exited c' \<Rightarrow> c' | Work_done c' \<Rightarrow> c')
            (gb_pending_message_worker E p c) }
      | Register p bundle d \<Rightarrow> map_option snd (gb_register_driver E p bundle (Some d) c)
      | Unregister p \<Rightarrow> map_option snd (gb_unregister_driver E p c)
      | Timeout p \<Rightarrow> gb_operation_timeout p c
      | Notify p ev \<Rightarrow> map_option snd (gb_notify E p ev c)
      | Listen p \<Rightarrow> map_option snd (gb_listen E p c)
      | Loopback_request p sz ty \<Rightarrow>
          (if 2 ^ 32 \<le> sz + 20 then None
           else map_option snd (gb_loopback_send_req E (plat_loopback plat) ping_sink_cb transfer_cb p sz ty c)))"

fun run :: "'w env \<Rightarrow> 'w platform \<Rightarrow> event list \<Rightarrow> 'w core \<Rightarrow> 'w core option" where
  "run base plat [] c = Some c"
| "run base plat (e # es) c = do { c' \<leftarrow> run_event base plat e c; run base plat es c' }"

definition drivers_ok :: "'w core \<Rightarrow> bool" where
  "drivers_ok c \<longleftrightarrow> (\<forall>d \<in> set (core_drivers c). driver_ok d)"

inductive reachable :: "'w env \<Rightarrow> 'w platform \<Rightarrow> 'w core \<Rightarrow> bool" for base plat where
  boot: "core_heap c = [] \<Longrightarrow> drivers_ok c \<Longrightarrow> gb_init (system_env base plat) n True c = (0, c') \<Longrightarrow>
     reachable base plat c'"
| event: "reachable base plat c \<Longrightarrow> run_event base plat e c = Some c' \<Longrightarrow> reachable base plat c'"

section \<open>What most steps leave alone\<close>

definition cp_static :: "gb_cport_driver \<Rightarrow> nat option \<times> bool \<times> bool" where
  "cp_static cp = (cp_driver cp, cp_thread cp, cp_exit_worker cp)"

definition statics :: "'w core \<Rightarrow> (nat option \<times> bool \<times> bool) list \<times> gb_driver list \<times> bool" where
  "statics c = (map cp_static (g_cport c), core_drivers c, transport_backend c)"

definition sys_inv :: "'w core \<Rightarrow> bool" where
  "sys_inv c \<longleftrightarrow> core_inv (\<lambda>_. 0) c \<and> settled c \<and> drivers_ok c \<and> transport_backend c"

lemma rx_frame_statics: "rx_frame c c' \<Longrightarrow> statics c' = statics c"
proof -
  assume "rx_frame c c'"
  then have r: "map cp_rx (g_cport c') = map cp_rx (g_cport c)" "core_drivers c' = core_drivers c"
    "transport_backend c' = transport_backend c" by (simp_all add: rx_frame_def)
  have "cp_static (cp_rx cp) = cp_static cp" for cp by (simp add: cp_static_def cp_rx_def)
  then have "map cp_static (g_cport c') = map cp_static (g_cport c)"
    using arg_cong[OF r(1), of "map cp_static"] by (simp add: comp_def)
  then show ?thesis using r by (simp add: statics_def)
qed

lemma settled_statics:
  "settled c \<longleftrightarrow> (\<forall>s \<in> set (fst (statics c)). fst s \<noteq> None \<longrightarrow> fst (snd s) \<and> \<not> snd (snd s))"
  by (auto simp: settled_def statics_def cp_static_def get_cp_def all_set_conv_all_nth)

lemma statics_settled: "statics c' = statics c \<Longrightarrow> settled c' = settled c"
  by (simp only: settled_statics)

lemma statics_sys_inv:
  assumes "statics c' = statics c" and "core_inv (\<lambda>_. 0) c'" and "sys_inv c"
  shows "sys_inv c'"
  using assms statics_settled[OF assms(1)] by (simp add: sys_inv_def statics_def drivers_ok_def)

lemma put_cp_statics:
  assumes "get_cp c p = Some cp" and "cp_static cp' = cp_static cp"
  shows "statics (put_cp p cp' c) = statics c"
proof -
  have "map cp_static ((g_cport c)[p := cp']) = map cp_static (g_cport c)"
    using get_cp_SomeD[OF assms(1)] assms(2) by (metis list_update_id map_update)
  then show ?thesis by (simp add: statics_def put_cp_def)
qed

lemma statics_heap [simp]:
  "statics (c\<lparr>world := w\<rparr>) = statics c" "statics (c\<lparr>core_heap := H\<rparr>) = statics c"
  "statics (c\<lparr>tape := t\<rparr>) = statics c" "statics (put_op a op c) = statics c"
  "statics (c\<lparr>tx_log := l\<rparr>) = statics c" "statics (c\<lparr>request_id := i\<rparr>) = statics c"
  by (simp_all add: statics_def put_op_def)

section \<open>Every event keeps the invariant\<close>

lemma create_statics:
  "gb_operation_create E p ty n c = Some (r, c') \<Longrightarrow> statics c' = statics c"
  by (auto simp: gb_operation_create_def gb_operation_create_raw_def Let_def bind_eq_Some_conv
      split: if_splits prod.splits option.splits)

lemma rx_create_statics:
  "gb_rx_create_operation E p buf n c = Some (r, c') \<Longrightarrow> statics c' = statics c"
  by (auto simp: gb_rx_create_operation_def bind_eq_Some_conv split: option.splits dest!: create_statics)

lemma rx_handler_statics:
  assumes "\<And>f c p buf. env_fast_handler E f c p buf = None"
    and "greybus_rx_handler E p data sz c = Some (r, c')"
  shows "statics c' = statics c"
proof -
  have put: "statics (put_cp p (cp\<lparr>cp_rx_fifo := fifo, cp_rx_fifo_lock := n\<rparr>) c1) = statics c1"
    if "get_cp c1 p = Some cp" for cp fifo n and c1 :: "'a core"
    by (rule put_cp_statics[OF that]) (simp add: cp_static_def)
  show ?thesis
    using assms(2)
    by (auto simp: greybus_rx_handler_def bind_eq_Some_conv assms(1) put tape_write_def
        split: option.splits if_splits prod.splits dest!: rx_create_statics)
qed

lemma receive_ok:
  assumes "sys_inv c" and "run_event base plat (Receive p buf sz) c = Some c'"
  shows "sys_inv c'"
proof -
  from assms(2) obtain r where r: "greybus_rx_handler (system_env base plat) p (Some buf) sz c = Some (r, c')"
    "\<not> length buf < sz" by (auto simp: run_event_def Let_def split: if_splits)
  have inv: "core_inv (\<lambda>_. 0) c" using assms(1) by (simp add: sys_inv_def)
  have "core_inv (\<lambda>_. 0) c'"
    using wp_TrueD[OF sys.greybus_rx_handler_ok[OF inv, of "Some buf" sz base plat p] r(1)] r(2) by simp
  moreover have "statics c' = statics c"
    by (rule rx_handler_statics[OF _ r(1)]) (simp add: system_env_def bare_env_def)
  ultimately show ?thesis using statics_sys_inv assms(1) by blast
qed

lemma work_ok:
  assumes "sys_inv c" and "run_event base plat (Work p) c = Some c'"
  shows "sys_inv c'"
proof -
  from assms(2) obtain cp where cp: "get_cp c p = Some cp"
    by (auto simp: run_event_def Let_def bind_eq_Some_conv)
  have inv: "core_inv (\<lambda>_. 0) c" using assms(1) by (simp add: sys_inv_def)
  show ?thesis
  proof (cases "cp_thread cp")
    case False
    then show ?thesis using assms cp by (auto simp: run_event_def Let_def)
  next
    case True
    with assms(2) cp obtain r where r: "gb_pending_message_worker (system_env base plat) p c = Some r"
      "c' = (case r of Work_blocked \<Rightarrow> c | Work_exited c' \<Rightarrow> c' | Work_done c' \<Rightarrow> c')"
      by (auto simp: run_event_def Let_def)
    have "cp_driver cp \<noteq> None" using core_invD(4)[OF inv cp] True by (simp add: cp_ok_def cp_local_def)
    then have ex: "\<not> cp_exit_worker cp" using assms(1) cp by (auto simp: sys_inv_def settled_def)
    note post = wp_TrueD[OF sys.gb_pending_message_worker_ok[OF inv cp True] r(1)]
    show ?thesis
    proof (cases r)
      case (Work_done c1)
      with post obtain a rest where w: "core_inv (\<lambda>_. 0) c1"
        "rx_frame (put_cp p (cp\<lparr>cp_rx_fifo_lock := cp_rx_fifo_lock cp - 1, cp_rx_fifo := rest\<rparr>) c) c1" by auto
      have "statics c1 = statics c"
        unfolding rx_frame_statics[OF w(2)] by (rule put_cp_statics[OF cp]) (simp add: cp_static_def)
      then show ?thesis using statics_sys_inv[OF _ w(1) assms(1)] r(2) Work_done by simp
    qed (use post ex r assms(1) in auto)
  qed
qed

lemma unregister_ok:
  assumes "sys_inv c" and "run_event base plat (Unregister p) c = Some c'"
  shows "sys_inv c'"
proof -
  have inv: "core_inv (\<lambda>_. 0) c" "settled c" "transport_backend c" "drivers_ok c"
    using assms(1) by (simp_all add: sys_inv_def)
  from assms(2) obtain r where r: "gb_unregister_driver (system_env base plat) p c = Some (r, c')"
    by (auto simp: run_event_def Let_def)
  note u = wp_TrueD[OF sys.unregister_any[OF inv(1-3)] r]
  have "core_drivers c' = core_drivers c"
  proof (cases "driverless p c")
    case True
    then have "gb_unregister_driver (system_env base plat) p c = Some (Some (- EINVAL), c)"
      using core_invD(5)[OF inv(1)]
      by (cases "get_cp c p") (auto simp: gb_unregister_driver_def get_cp_def driverless_def split: if_splits option.splits)
    then show ?thesis using r by simp
  next
    case False
    then obtain cp d where cp: "get_cp c p = Some cp" "cp_driver cp = Some d" by (auto simp: driverless_def)
    then have "cp_thread cp" "\<not> cp_exit_worker cp" using inv(2) by (auto simp: settled_def)
    from wp_TrueD[OF sys.gb_unregister_driver_ok[OF inv(1) cp this inv(3)] r] show ?thesis
      by (auto simp: rx_frame_def)
  qed
  with u inv(4) show ?thesis by (simp add: sys_inv_def drivers_ok_def)
qed

text \<open>Registration: the cport gets a running worker or stays without a driver.\<close>

definition live :: "'w core \<Rightarrow> bool" where
  "live c \<longleftrightarrow> settled c \<and> drivers_ok c \<and> transport_backend c"

lemma live_statics: "statics c' = statics c \<Longrightarrow> live c' = live c"
  using statics_settled[of c' c] by (simp add: live_def statics_def drivers_ok_def)

lemma live_put_cp:
  assumes "live c" and "cp_driver cp = None \<or> cp_thread cp \<and> \<not> cp_exit_worker cp"
  shows "live (put_cp p cp c)"
  using assms by (auto simp: live_def settled_def drivers_ok_def get_cp_put_cp split: if_splits)

lemma live_put_driver:
  assumes "live c" and "driver_ok drv"
  shows "live (put_driver d drv c)"
proof -
  have "set (core_drivers (put_driver d drv c)) \<subseteq> insert drv (set (core_drivers c))"
    unfolding put_driver_def by (simp add: set_update_subset_insert)
  moreover have "transport_backend (put_driver d drv c) = transport_backend c" by (simp add: put_driver_def)
  ultimately show ?thesis using assms by (auto simp: live_def settled_def drivers_ok_def)
qed

lemma get_driver_ok: "drivers_ok c \<Longrightarrow> get_driver c d = Some drv \<Longrightarrow> driver_ok drv"
  by (auto simp: drivers_ok_def get_driver_def split: if_splits)

lemma system_init_statics: "system_init plat f c p b = Some (r, c') \<Longrightarrow> statics c' = statics c"
  by (auto simp: system_init_def bind_eq_Some_conv Let_def statics_def split: if_splits prod.splits)

lemma system_exit_statics: "system_exit plat f c p b = Some c' \<Longrightarrow> statics c' = statics c"
  by (auto simp: system_exit_def bind_eq_Some_conv statics_def split: if_splits)

lemma register_start_live:
  assumes live: "live c" and cp: "get_cp c p = Some cp" "cp_driver cp = None"
    and r: "register_start (system_env base plat) p d b c = Some (r, c')"
  shows "live c'"
proof -
  from r obtain driver sd where d: "get_driver c d = Some driver" "sort_op_handlers driver = Some sd"
    by (auto simp: register_start_def bind_eq_Some_conv)
  from get_driver_ok[OF _ d(1)] live have "driver_ok driver" by (simp add: live_def)
  from sort_op_handlers_ok[OF this] d(2) have sd: "driver_ok sd" by auto
  obtain rc w where pt: "env_pthread_create (system_env base plat) (world (put_driver d sd c)) p = (rc, w)" by fastforce
  have 1: "live ((put_driver d sd c)\<lparr>world := w\<rparr>)"
    using live_put_driver[OF live sd] live_statics[of "(put_driver d sd c)\<lparr>world := w\<rparr>" "put_driver d sd c"] by simp
  let ?c2 = "put_cp p (cp\<lparr>cp_exit_worker := False\<rparr>) ((put_driver d sd c)\<lparr>world := w\<rparr>)"
  have 2: "live ?c2" by (rule live_put_cp[OF 1]) (simp add: cp)
  have 3: "live (put_cp p (cp\<lparr>cp_exit_worker := False, cp_thread := True, cp_driver := Some d\<rparr>) ?c2)"
    by (rule live_put_cp[OF 2]) simp
  have "c' = ?c2 \<or> (\<exists>f. system_exit plat f ?c2 p b = Some c')
      \<or> c' = put_cp p (cp\<lparr>cp_exit_worker := False, cp_thread := True, cp_driver := Some d\<rparr>) ?c2"
    using r d cp pt by (auto simp: register_start_def Let_def bind_eq_Some_conv system_env_def split: if_splits option.splits)
  then show ?thesis using 2 3 live_statics system_exit_statics by blast
qed

lemma register_live:
  assumes live: "live c" and r: "gb_register_driver (system_env base plat) p bid (Some d) c = Some (r, c')"
  shows "live c'"
proof -
  let ?E = "system_env base plat"
  show ?thesis
  proof (cases "c' = c")
    case False
    let ?rb = "register_bundle ?E bid (manifest_get_num_cports_bundle (core_manifest c) bid) c"
    from False r obtain cp driver where cp: "get_cp c p = Some cp" "cp_driver cp = None" "get_driver c d = Some driver"
      "?rb \<bind> (\<lambda>(res, c1). case res of Inl e \<Rightarrow> Some (e, c1) | Inr b \<Rightarrow> register_init ?E p d b c1) = Some (r, c')"
      by (auto simp: gb_register_driver_def Let_def bind_eq_Some_conv[of "get_cp c p"]
          bind_eq_Some_conv[of "get_driver c d"] split: if_splits)
    from cp(4) obtain res c1 where "?rb = Some (res, c1)"
      "(case res of Inl e \<Rightarrow> Some (e, c1) | Inr b \<Rightarrow> register_init ?E p d b c1) = Some (r, c')"
      by (auto simp: bind_eq_Some_conv)
    then have c1: "get_cp c p = Some cp" "cp_driver cp = None" "get_driver c d = Some driver"
      "?rb = Some (res, c1)" "case res of Inl e \<Rightarrow> c' = c1 | Inr b \<Rightarrow> register_init ?E p d b c1 = Some (r, c')"
      using cp by (auto split: sum.splits)
    have st: "statics c1 = statics c" "get_cp c1 = get_cp c" "core_drivers c1 = core_drivers c"
      using c1(4) by (auto simp: register_bundle_def bind_eq_Some_conv Let_def statics_def get_cp_def fun_eq_iff
          split: if_splits prod.splits option.splits)
    have l1: "live c1" using live_statics[OF st(1)] live by simp
    show ?thesis
    proof (cases res)
      case (Inr b)
      have d1: "get_driver c1 d = Some driver" using c1(3) st(3) by (simp only: get_driver_def)
      let ?c2 = "put_driver d (driver\<lparr>drv_bundle := b\<rparr>) c1"
      have "driver_ok driver" using get_driver_ok[OF _ d1] l1 by (simp add: live_def)
      then have l2: "live ?c2" by (intro live_put_driver[OF l1]) (simp add: driver_ok_def)
      from c1(5) Inr d1 obtain rv c3 where c3: "(case drv_init driver of None \<Rightarrow> Some (0, ?c2)
          | Some f \<Rightarrow> system_init plat f ?c2 p b) = Some (rv, c3)"
        "if rv \<noteq> 0 then c' = c3 else register_start ?E p d b c3 = Some (r, c')"
        by (auto simp: register_init_def Let_def bind_eq_Some_conv system_env_def split: if_splits option.splits)
      have s3: "statics c3 = statics ?c2" using c3(1) by (auto split: option.splits dest!: system_init_statics)
      have l3: "live c3" using live_statics[OF s3] l2 by simp
      have p: "p < length (g_cport c1)" "cp_static (g_cport c1 ! p) = cp_static cp"
        using get_cp_SomeD[OF c1(1)[folded st(2)]] by auto
      have m: "map cp_static (g_cport c3) = map cp_static (g_cport c1)"
        using s3 by (simp add: statics_def put_driver_def)
      then have "length (g_cport c3) = length (g_cport c1)" by (metis length_map)
      with p have p3: "p < length (g_cport c3)" "cp_static (g_cport c3 ! p) = cp_static cp"
        using arg_cong[OF m, of "\<lambda>xs. xs ! p"] by simp_all
      then have g3: "get_cp c3 p = Some (g_cport c3 ! p)" "cp_driver (g_cport c3 ! p) = None"
        using c1(2) by (simp_all add: get_cp_def cp_static_def)
      show ?thesis using c3(2) l3 register_start_live[OF l3 g3] by (auto split: if_splits)
    qed (use c1(5) l1 in simp)
  qed (use live in simp)
qed

lemma register_ok:
  assumes "sys_inv c" and "run_event base plat (Register p bid d) c = Some c'"
  shows "sys_inv c'"
proof -
  from assms(2) obtain r where r: "gb_register_driver (system_env base plat) p bid (Some d) c = Some (r, c')"
    by (auto simp: run_event_def Let_def)
  have inv: "core_inv (\<lambda>_. 0) c" "live c" using assms(1) by (simp_all add: sys_inv_def live_def)
  have "core_inv (\<lambda>_. 0) c'"
  proof (cases "get_driver c d")
    case None
    then have "r = - EINVAL \<and> c' = c"
      using r by (auto simp: gb_register_driver_def Let_def bind_eq_Some_conv split: if_splits)
    then show ?thesis using inv(1) by simp
  next
    case (Some drv)
    then have "driver_ok drv" using get_driver_ok inv(2) by (auto simp: live_def)
    then show ?thesis
      using wp_TrueD[OF sys.gb_register_driver_ok[OF inv(1), of bid "Some d" base plat p] r] Some by auto
  qed
  with register_live[OF inv(2) r] show ?thesis by (simp add: sys_inv_def live_def)
qed

lemma event_frame_inv: "core_inv (\<lambda>_. 0) c' \<Longrightarrow> event_frame c c' \<Longrightarrow> sys_inv c \<Longrightarrow> sys_inv c'"
  using statics_sys_inv[OF rx_frame_statics] by (auto simp: event_frame_def)

lemma notify_ok:
  assumes "sys_inv c" and "run_event base plat (Notify p ev) c = Some c'"
  shows "sys_inv c'"
proof -
  have inv: "core_inv (\<lambda>_. 0) c" using assms(1) by (simp add: sys_inv_def)
  from assms(2) obtain r where "gb_notify (system_env base plat) p ev c = Some (r, c')"
    by (auto simp: run_event_def Let_def)
  from wp_TrueD[OF sys.gb_notify_ok[OF inv] this] event_frame_inv assms(1) show ?thesis by blast
qed

lemma listen_ok:
  assumes "sys_inv c" and "run_event base plat (Listen p) c = Some c'"
  shows "sys_inv c'"
proof -
  have inv: "core_inv (\<lambda>_. 0) c" using assms(1) by (simp add: sys_inv_def)
  from assms(2) obtain r where "gb_listen (system_env base plat) p c = Some (r, c')"
    by (auto simp: run_event_def Let_def)
  from wp_TrueD[OF sys.gb_listen_ok[OF inv] this] event_frame_inv assms(1) show ?thesis by blast
qed

text \<open>The time-out handler finds its operation unlinked and does nothing.\<close>

lemma timeout_idle:
  assumes "core_inv h c" and "get_cp c p = Some cp"
  shows "gb_operation_timeout p c = Some c"
  using core_invD(4)[OF assms] assms(2) by (simp add: gb_operation_timeout_def cp_ok_def cp_local_def)

lemma timeout_ok:
  assumes "sys_inv c" and "run_event base plat (Timeout p) c = Some c'"
  shows "sys_inv c'"
proof -
  have inv: "core_inv (\<lambda>_. 0) c" using assms(1) by (simp add: sys_inv_def)
  from assms(2) obtain cp where "get_cp c p = Some cp"
    by (auto simp: run_event_def Let_def gb_operation_timeout_def bind_eq_Some_conv)
  from timeout_idle[OF inv this] assms show ?thesis by (simp add: run_event_def Let_def)
qed

section \<open>Requests of the firmware\<close>

text \<open>A request of the loopback driver: created, filled, sent, and dropped by the sender.\<close>

lemma buffer_ok_wr_slice: "wr_slice b (8 + i) xs = Some b' \<Longrightarrow> buffer_ok b \<Longrightarrow> buffer_ok b'"
  using same_hdr_buffer_ok wr_slice_hdr by blast

lemma op_ok_request_buffer:
  "op_ok n op \<Longrightarrow> buffer_ok b \<Longrightarrow> op_ok n (op\<lparr>op_request_buffer := Some b\<rparr>)"
  by (auto simp: op_ok_def)

lemma send_and_destroy:
  assumes inv: "core_inv h c" and h: "1 \<le> h a" and op: "get_op c a = Some op" "op_response op = None"
    and free: "\<And>cp. get_cp c (op_cport op) = Some cp \<Longrightarrow> a \<notin> set (cp_tx_fifo cp)"
    and s: "gb_operation_send_request E a cb True c = Some (r, c2)"
    and d: "gb_operation_destroy E a c2 = Some c3"
  shows "core_inv (h(a := h a - 1)) c3 \<and> statics c3 = statics c"
proof -
  from held_cport[OF inv op(1)] obtain cp where cp: "get_cp c (op_cport op) = Some cp" .
  have 2: "core_inv h c2 \<and> statics c2 = statics c"
  proof (cases "cp_exit_worker cp")
    case True
    then have "c2 = c" using s op cp by (simp add: gb_operation_send_request_def)
    then show ?thesis using inv by simp
  next
    case False
    have "0 \<le> h a" using h by simp
    from send_request_response[OF inv this op cp False free[OF cp], of E cb] s
    have c2: "core_inv h c2" "core_drivers c2 = core_drivers c" "transport_backend c2 = transport_backend c"
      "g_cport c2 = (if r = 0 then (g_cport c)[op_cport op := cp\<lparr>cp_tx_fifo := cp_tx_fifo cp @ [a]\<rparr>] else g_cport c)"
      by (metis option.inject prod.inject)+
    have "map cp_static (g_cport c2) = map cp_static (g_cport c)"
      using put_cp_statics[OF cp, of "cp\<lparr>cp_tx_fifo := cp_tx_fifo cp @ [a]\<rparr>"] c2(4)
      by (auto simp: statics_def put_cp_def cp_static_def)
    with c2 show ?thesis by (simp add: statics_def)
  qed
  have "core_inv h c2" using 2 by simp
  from gb_operation_unref_ok[OF this h, of E] d obtain H w where
    "core_inv (h(a := h a - 1)) c3" "c3 = c2\<lparr>core_heap := H, world := w\<rparr>"
    by (metis gb_operation_destroy_def option.inject)
  then show ?thesis using 2 by (simp add: statics_def)
qed

text \<open>A fresh operation, held by its creator, in any state its request buffer is filled to.\<close>

lemma fresh_send:
  assumes inv: "core_inv (\<lambda>_. 0) c" and op: "op_ok (length (g_cport c)) op" "op_response op = None" "op_ref_count op = 1"
    and s: "gb_operation_send_request E (length (core_heap c)) cb True
        (c\<lparr>world := w, core_heap := core_heap c @ [Some op]\<rparr>) = Some (r, c2)"
    and d: "gb_operation_destroy E (length (core_heap c)) c2 = Some c3"
  shows "core_inv (\<lambda>_. 0) c3 \<and> statics c3 = statics c"
proof -
  let ?a = "length (core_heap c)" and ?c1 = "c\<lparr>world := w, core_heap := core_heap c @ [Some op]\<rparr>"
  let ?h = "(\<lambda>_. 0 :: int)(length (core_heap c) := 1)"
  have "core_inv ?h (c\<lparr>core_heap := core_heap c @ [Some op]\<rparr>)"
    using core_inv_append[OF inv, of "Some op"] op by simp
  moreover have "?c1 = (c\<lparr>core_heap := core_heap c @ [Some op]\<rparr>)\<lparr>world := w\<rparr>" by simp
  ultimately have inv1: "core_inv ?h ?c1" by (simp only: core_inv_world)
  have g: "get_op ?c1 ?a = Some op" by (simp add: get_op_def)
  have free: "?a \<notin> set (cp_tx_fifo cp)" if "get_cp ?c1 p = Some cp" for p cp
  proof -
    have "get_cp c p = Some cp" using that by (auto simp: get_cp_def split: if_splits)
    then have "count_list (cp_tx_fifo cp) ?a = 0"
      using fifo_refs_ge[of c p cp ?a] core_inv_fresh[OF inv] by (simp add: cp_refs_def)
    then show ?thesis by (simp add: count_list_0_iff)
  qed
  from send_and_destroy[OF inv1 _ g op(2) free s d]
  have "core_inv (?h(?a := ?h ?a - 1)) c3 \<and> statics c3 = statics ?c1" by simp
  moreover have "?h(?a := ?h ?a - 1) = (\<lambda>_. 0)" by auto
  moreover have "statics ?c1 = statics c" by (simp add: statics_def)
  ultimately show ?thesis by simp
qed

lemma put_last:
  "put_op (length (core_heap c)) op (c\<lparr>world := w, core_heap := core_heap c @ [Some op']\<rparr>) =
     c\<lparr>world := w, core_heap := core_heap c @ [Some op]\<rparr>"
  "put_op (length (core_heap c)) op (c\<lparr>core_heap := core_heap c @ [Some op'], world := w\<rparr>) =
     c\<lparr>world := w, core_heap := core_heap c @ [Some op]\<rparr>"
  by (simp_all add: put_op_def hput_def)

lemma loopback_request_ok:
  assumes "sys_inv c" and "run_event base plat (Loopback_request p sz ty) c = Some c'"
  shows "sys_inv c'"
proof -
  let ?E = "system_env base plat" and ?n = "if ty = 2 then 1 else size_add 12 sz"
  have inv: "core_inv (\<lambda>_. 0) c" using assms(1) by (simp add: sys_inv_def)
  from assms(2) obtain st where r: "gb_loopback_send_req ?E (plat_loopback plat) ping_sink_cb transfer_cb p sz ty c = Some (st, c')"
    "\<not> 2 ^ 32 \<le> sz + 20" by (auto simp: run_event_def Let_def split: if_splits)
  have n: "?n + 8 < 2 ^ 32" using r(2) by simp
  have "core_inv (\<lambda>_. 0) c' \<and> statics c' = statics c"
  proof (cases "ty \<noteq> 2 \<and> ty \<noteq> 3 \<and> ty \<noteq> 4")
    case True
    then show ?thesis using r inv by (auto simp: gb_loopback_send_req_def)
  next
    case ty: False
    from n show ?thesis
    proof (cases rule: gb_operation_create_cases[of ?n c p ?E ty])
      case invalid
      then show ?thesis using r ty inv by (auto simp: gb_loopback_send_req_def)
    next
      case (no_memory w)
      then show ?thesis using r ty inv by (auto simp: gb_loopback_send_req_def)
    next
      case (no_buffer w)
      then show ?thesis using r ty core_inv_gone_world[OF inv, of w]
        by (auto simp: gb_loopback_send_req_def statics_def)
    next
      case (created w)
      let ?a = "length (core_heap c)" and ?op = "created p ty ?n"
      have p: "p < length (g_cport c)" using created(1) core_invD(5)[OF inv] by simp
      have op: "op_ok (length (g_cport c)) ?op" "op_response ?op = None" "op_ref_count ?op = 1"
        using op_ok_created[OF p] by (simp_all add: created_def new_operation_def)
      obtain b where b: "op_request_buffer ?op = Some b" "buffer_ok b"
        using op(1) by (auto simp: op_ok_def)
      show ?thesis
      proof (cases "ty = 2")
        case True
        then show ?thesis using r created(2) op
          by (auto simp: gb_loopback_send_req_def bind_eq_Some_conv dest: fresh_send[OF inv])
      next
        case False
        with r created(2) ty b obtain b1 where b1: "wr32 b 8 (word_of_nat sz) = Some b1"
          by (auto simp: gb_loopback_send_req_def bind_eq_Some_conv get_op_def)
        have ok1: "buffer_ok b1" using buffer_ok_wr_slice[of b 0] b1 b(2) by (simp add: wr32_def)
        show ?thesis
        proof (cases "ty = 3")
          case True
          obtain xs w2 where x: "rand_bytes (plat_loopback plat) sz w = (xs, w2)" by fastforce
          with r created(2) True b b1 obtain b2 where b2: "wr_slice b1 20 xs = Some b2"
            by (auto simp: gb_loopback_send_req_def bind_eq_Some_conv get_op_def)
          have "buffer_ok b2" using buffer_ok_wr_slice[of b1 12] b2 ok1 by simp
          then have ok2: "op_ok (length (g_cport c)) (?op\<lparr>op_request_buffer := Some b2\<rparr>)"
            by (rule op_ok_request_buffer[OF op(1)])
          from r created(2) True b b1 x b2 obtain status c2 cb where
            "gb_operation_send_request ?E ?a cb True
               (c\<lparr>world := w2, core_heap := core_heap c @ [Some (?op\<lparr>op_request_buffer := Some b2\<rparr>)]\<rparr>) = Some (status, c2)"
            "gb_operation_destroy ?E ?a c2 = Some c'"
            by (auto simp: gb_loopback_send_req_def bind_eq_Some_conv get_op_def put_last)
          from fresh_send[OF inv ok2 _ _ this] op(2,3) show ?thesis by simp
        next
          case f: False
          have ok2: "op_ok (length (g_cport c)) (?op\<lparr>op_request_buffer := Some b1\<rparr>)"
            by (rule op_ok_request_buffer[OF op(1) ok1])
          from r created(2) False f ty b b1 obtain status c2 cb where
            "gb_operation_send_request ?E ?a cb True
               (c\<lparr>world := w, core_heap := core_heap c @ [Some (?op\<lparr>op_request_buffer := Some b1\<rparr>)]\<rparr>) = Some (status, c2)"
            "gb_operation_destroy ?E ?a c2 = Some c'"
            by (auto simp: gb_loopback_send_req_def bind_eq_Some_conv get_op_def put_last)
          from fresh_send[OF inv ok2 _ _ this] op(2,3) show ?thesis by simp
        qed
      qed
    qed
  qed
  then show ?thesis using statics_sys_inv assms(1) by blast
qed

section \<open>Reachable states\<close>

lemma run_event_ok: "sys_inv c \<Longrightarrow> run_event base plat e c = Some c' \<Longrightarrow> sys_inv c'"
  by (cases e) (blast intro: receive_ok work_ok register_ok unregister_ok timeout_ok notify_ok listen_ok loopback_request_ok)+

lemma reachable_sys_inv: "reachable base plat c \<Longrightarrow> sys_inv c"
proof (induction rule: reachable.induct)
  case (boot c n c')
  have "core_drivers c' = core_drivers c"
    using boot(3) by (auto simp: gb_init_def Let_def split: prod.splits if_splits)
  with gb_init_ok[OF boot(1,3)] boot(2) show ?case by (simp add: sys_inv_def drivers_ok_def)
next
  case (event c e c')
  then show ?case by (blast intro: run_event_ok)
qed

lemma run_sys_inv: "sys_inv c \<Longrightarrow> run base plat es c = Some c' \<Longrightarrow> sys_inv c'"
  by (induction es arbitrary: c) (auto simp: bind_eq_Some_conv dest: run_event_ok)

end
