(* ===== verification/Gb_Core_Properties.thy ===== *)
theory Gb_Core_Properties
  imports Gb_Runs Gb_Samples
begin

text \<open>
  The properties of the core: what holds in every state that the system can reach, and what the
  receive path, the workers, the sending functions and the life cycle of drivers do. They are
  stated over an arbitrary environment that keeps the core's invariant (\<open>core_env\<close>), or over the
  system of the repository's drivers (\<open>reachable\<close>).
\<close>

section \<open>A small system\<close>

definition sample_platform :: "unit platform" where
  "sample_platform = \<lparr>plat_control = sample_control,
     plat_gpio = sample_gpio,
     plat_i2c = sample_i2c, plat_pwm = sample_pwm,
     plat_loopback = \<lparr>lb_alloc = (\<lambda>w n. (True, w)), lb_zalloc = (\<lambda>w n. (True, w)), lb_list = (\<lambda>w. []),
       lb_set_list = (\<lambda>ls w. w), lb_list_add = (#), lb_rand = (\<lambda>w. (0, w)), lb_ERROR = - 1\<rparr>,
     plat_map = (\<lambda>w. []), plat_pwm_get = (\<lambda>b w. \<lparr>pb_priv = Priv_null, pb_dev = None\<rparr>),
     plat_pwm_put = (\<lambda>b s w. w)\<rparr>"

text \<open>A loopback cport that has got a ping-sized message of the loopback protocol.\<close>

definition blank_core :: "unit core" where
  "blank_core = \<lparr>cport_count = 0, request_id = 0, g_cport = [], g_bundle = [], transport_backend = False,
     gb_tape = False, gb_tape_fd = - EBADF, core_heap = [], core_drivers = [loopback_driver],
     core_manifest = g_greybus, tx_log = [], tape = [], world = ()\<rparr>"

definition sample_message :: bytes where
  "sample_message = hdr_bytes 9 7 2 0 @ [0]"

definition sample_cp :: gb_cport_driver where
  "sample_cp = \<lparr>cp_driver = Some 0, cp_tx_fifo = [], cp_rx_fifo = [], cp_rx_fifo_lock = 0,
     cp_thread = True, cp_exit_worker = False\<rparr>"

definition booted :: "unit core" where
  "booted = blank_core\<lparr>cport_count := 1, g_cport := [new_cport], g_bundle := [None], transport_backend := True\<rparr>"

definition registered :: "unit core" where
  "registered = booted\<lparr>g_cport := [sample_cp],
     g_bundle := [Some \<lparr>bnd_id = 0, bnd_cport_start = 0xffffffff, bnd_dev = []\<rparr>],
     core_drivers := [loopback_driver\<lparr>drv_bundle := Some 0\<rparr>]\<rparr>"

definition sample_state :: "unit core" where
  "sample_state = registered\<lparr>core_heap := [Some (received 0 sample_message)],
     g_cport := [sample_cp\<lparr>cp_rx_fifo := [Rx_op 0], cp_rx_fifo_lock := 1\<rparr>]\<rparr>"

lemma sorted_loopback: "qsort_handlers gb_loopback_handlers = gb_loopback_handlers"
  by (simp add: gb_loopback_handlers_def handlers_def gb_compare_handlers_def)

lemma quiet_system [simp]:
  "env_malloc (system_env quiet_env plat) = (\<lambda>w n. (True, w))"
  "env_alloc_buf (system_env quiet_env plat) = (\<lambda>w n. (True, w))"
  "env_transport_init (system_env quiet_env plat) = (\<lambda>w. w)"
  "env_pthread_create (system_env quiet_env plat) = (\<lambda>w p. (0, w))"
  by (simp_all add: system_env_def bare_env_def quiet_env_def)

lemma loopback_driver_simps [simp]:
  "drv_init loopback_driver = None" "drv_exit loopback_driver = None"
  "drv_op_handlers loopback_driver = Some gb_loopback_handlers"
  "drv_op_handlers_count loopback_driver = length gb_loopback_handlers"
  by (simp_all add: loopback_driver_def driver_of_def)

lemma boots: "gb_init (system_env quiet_env sample_platform) 1 True blank_core = (0, booted)"
  by (simp add: gb_init_def Let_def booted_def blank_core_def manifest_get_max_bundle_id_def g_greybus_def)

lemma registers: "run_event quiet_env sample_platform (Register 0 0 0) booted = Some registered"
  by (simp add: run_event_def Let_def booted_def blank_core_def gb_register_driver_def get_cp_def get_driver_def
      new_cport_def manifest_get_max_bundle_id_def g_greybus_def register_bundle_def get_bundle_def
      manifest_get_num_cports_bundle_def manifest_get_start_cport_bundle_def register_init_def register_start_def
      sort_op_handlers_def sorted_loopback put_driver_def put_cp_def registered_def sample_cp_def)

lemma reachable_run: "reachable base plat c \<Longrightarrow> run base plat es c = Some c' \<Longrightarrow> reachable base plat c'"
  by (induction es arbitrary: c) (auto simp: bind_eq_Some_conv intro: reachable.event)

lemma blank_boot: "reachable quiet_env sample_platform booted"
proof (rule reachable.boot[OF _ _ boots])
  show "drivers_ok blank_core"
    by (auto simp: drivers_ok_def blank_core_def loopback_driver_def driver_of_def driver_ok_def gb_loopback_handlers_def handlers_def)
qed (simp add: blank_core_def)

lemma registered_reachable: "reachable quiet_env sample_platform registered"
  using blank_boot registers by (blast intro: reachable.event)

lemma loopback_dispatch: "find_operation_handler ty (loopback_driver\<lparr>drv_bundle := b\<rparr>)
    = Some (handler_table gb_loopback_handlers ty)"
proof (rule find_registered)
  show "registered_table (loopback_driver\<lparr>drv_bundle := b\<rparr>) gb_loopback_handlers"
    by (simp add: registered_table_def sorted_loopback)
  show "distinct (map oh_type gb_loopback_handlers)" by (simp add: gb_loopback_handlers_def handlers_def)
qed

lemma receives: "run_event quiet_env sample_platform (Receive 0 sample_message 9) registered = Some sample_state"
proof -
  let ?E = "system_env quiet_env sample_platform" and ?d = "loopback_driver\<lparr>drv_bundle := Some 0\<rparr>"
  have inv: "core_inv (\<lambda>_. 0) registered"
    using reachable_sys_inv[OF registered_reachable] by (simp add: sys_inv_def)
  have cp: "get_cp registered 0 = Some sample_cp" and d: "get_driver registered 0 = Some ?d"
    by (simp_all add: registered_def get_cp_def get_driver_def)
  have hdr: "hdr_size sample_message = Some 9" "hdr_type sample_message = Some 2" "length sample_message = 9"
    by (simp_all add: sample_message_def)
  have v: "valid_message sample_message 9" using hdr by (simp add: valid_message_def)
  have f: "find_operation_handler 2 ?d = Some (handler_table gb_loopback_handlers 2)" by (rule loopback_dispatch)
  have "greybus_rx_handler ?E 0 (Some sample_message) 9 registered =
      rx_dispatch ?E 0 sample_message 9 (handler_table gb_loopback_handlers 2) (taped 0 sample_message 9 registered)"
    using rx_handler_valid[OF inv cp _ d _ v hdr(1,2) f] by (simp add: sample_cp_def)
  also have "taped 0 sample_message 9 registered = registered"
    by (simp add: taped_def registered_def booted_def blank_core_def)
  also have "rx_dispatch ?E 0 sample_message 9 (handler_table gb_loopback_handlers 2) registered = Some (0, sample_state)"
  proof -
    have "cport_count registered = 1" by (simp add: registered_def booted_def)
    then have "gb_rx_create_operation ?E 0 sample_message 9 registered =
        Some (Some 0, registered\<lparr>core_heap := [Some (received 0 sample_message)]\<rparr>)"
      by (simp add: gb_rx_create_operation_def gb_operation_create_def gb_operation_create_raw_def size_sub_def
          size_add_def wr16_def wr8_def wr_slice_def rd_slice_def get_op_def hget_def put_op_def hput_def
          registered_def booted_def blank_core_def hdr received_def)
    then show ?thesis
      by (simp add: rx_dispatch_def handler_table_def gb_loopback_handlers_def handlers_def sys_dlist_append_def
          get_cp_def registered_def put_cp_def sample_state_def sample_cp_def)
  qed
  finally show ?thesis by (simp add: run_event_def Let_def hdr)
qed

lemma sample_reachable: "reachable quiet_env sample_platform sample_state"
  using blank_boot registers receives by (blast intro: reachable.event)

section \<open>Reachable states\<close>

lemma reachable_core_inv: "reachable base plat c \<Longrightarrow> core_inv (\<lambda>_. 0) c"
  using reachable_sys_inv by (auto simp: sys_inv_def)

lemma sample_state_cp [simp]:
  "get_cp sample_state 0 = Some (sample_cp\<lparr>cp_rx_fifo := [Rx_op 0], cp_rx_fifo_lock := 1\<rparr>)"
  by (simp add: sample_state_def get_cp_def)

lemma sample_state_op [simp]: "get_op sample_state 0 = Some (received 0 sample_message)"
  by (simp add: sample_state_def get_op_def hget_def)

text \<open>
  C2. No fifo of a reachable state holds a dangling pointer: whatever messages, registrations,
  unregistrations, time-outs, connections and loopback requests came before, an operation that
  waits for its response or for the worker is allocated, belongs to the fifo's cport, has a
  positive reference count and a request buffer that holds a whole header.
\<close>

theorem reachable_fifos_live:
  assumes "reachable base plat c" and "get_cp c p = Some cp"
    and "a \<in> set (cp_tx_fifo cp) \<or> Rx_op a \<in> set (cp_rx_fifo cp)"
  shows "\<exists>op b. get_op c a = Some op \<and> op_cport op = p \<and> 0 < op_ref_count op
    \<and> op_request_buffer op = Some b \<and> HDR_SIZE \<le> length b"
proof -
  note inv = reachable_core_inv[OF assms(1)]
  have "1 \<le> count_list (cp_tx_fifo cp) a + count_list (cp_rx_fifo cp) (Rx_op a)"
    using assms(3) count_list_pos[of a "cp_tx_fifo cp"] count_list_pos[of "Rx_op a" "cp_rx_fifo cp"] by auto
  then have "1 \<le> fifo_refs c a + 0" using fifo_refs_ge[OF assms(2), of a] by (simp add: cp_refs_def)
  from heap_inv_live[OF core_invD(1)[OF inv, unfolded heap_inv_def] this] obtain op where
    op: "hget (core_heap c) a = Some op" "0 < op_ref_count op" by blast
  then have g: "get_op c a = Some op" by (simp add: get_op_def)
  from core_invD(3)[OF inv g] obtain b where "op_request_buffer op = Some b" "HDR_SIZE \<le> length b"
    by (auto simp: op_ok_def buffer_ok_def)
  moreover have "op_cport op = p"
    using core_invD(4)[OF inv assms(2)] g assms(3) by (auto simp: cp_ok_def cp_links_def)
  ultimately show ?thesis using g op by blast
qed

theorem reachable_fifos_live_witness:
  "\<exists>op b. get_op sample_state 0 = Some op \<and> op_cport op = 0 \<and> 0 < op_ref_count op
    \<and> op_request_buffer op = Some b \<and> HDR_SIZE \<le> length b"
  by (rule reachable_fifos_live[OF sample_reachable sample_state_cp]) simp



text \<open>
  C10. In a reachable state the semaphore of a cport counts exactly the queued entries, so the
  worker neither sleeps on a message nor wakes up to an empty fifo; every cport with a driver has
  its worker running and not told to exit, and a time-out entry is never queued.
\<close>

theorem reachable_workers_in_step:
  assumes "reachable base plat c" and "get_cp c p = Some cp" and "cp_driver cp = Some d"
  shows "cp_rx_fifo_lock cp = length (cp_rx_fifo cp) \<and> cp_thread cp \<and> \<not> cp_exit_worker cp
    \<and> Rx_timedout \<notin> set (cp_rx_fifo cp)"
  using reachable_sys_inv[OF assms(1)] core_invD(4)[OF reachable_core_inv[OF assms(1)] assms(2)] assms(2,3)
  by (auto simp: sys_inv_def settled_def cp_ok_def cp_local_def)

theorem reachable_workers_in_step_witness:
  "cp_rx_fifo_lock (sample_cp\<lparr>cp_rx_fifo := [Rx_op 0], cp_rx_fifo_lock := 1\<rparr>) = length [Rx_op 0]
    \<and> cp_thread sample_cp \<and> \<not> cp_exit_worker sample_cp"
  using reachable_workers_in_step[OF sample_reachable sample_state_cp, of 0] by (simp add: sample_cp_def)

section \<open>Receiving\<close>

lemma sample_valid [simp]: "valid_message sample_message 9" "hdr_size sample_message = Some 9"
  "hdr_type sample_message = Some 2" "length sample_message = 9"
  by (simp_all add: sample_message_def valid_message_def)

lemma sample_cport_fields [simp]:
  "cp_driver (sample_cport True) = Some 0" "cp_thread (sample_cport True)" "\<not> cp_exit_worker (sample_cport r)"
  "cp_rx_fifo (sample_cport r) = []" "cp_tx_fifo (sample_cport r) = []" "cp_rx_fifo_lock (sample_cport r) = 0"
  "cp_driver (sample_cport False) = None"
  by (simp_all add: sample_cport_def new_cport_def)


lemma taped_frame [simp]: "tx_log (taped p buf sz c) = tx_log c" "core_drivers (taped p buf sz c) = core_drivers c"
  by (simp_all add: taped_def)




text \<open>
  C12. Everything else is dropped without a trace: a null buffer, a cport that does not exist or
  has no driver, a buffer shorter than a header, and a size field that is smaller than a header
  or larger than the buffer leave the whole state as it is.
\<close>

theorem rx_handler_drops:
  assumes "core_inv h c" and "\<And>buf. data = Some buf \<Longrightarrow> sz \<le> length buf"
    and "\<not> (\<exists>buf cp d driver. data = Some buf \<and> valid_message buf sz \<and> get_cp c p = Some cp
             \<and> cp_driver cp = Some d \<and> get_driver c d = Some driver \<and> drv_op_handlers driver \<noteq> None)"
  shows "\<exists>r. greybus_rx_handler E p data sz c = Some (r, c) \<and> r \<in> {0, - EINVAL}"
  using rx_handler_dropped[OF assms] .

theorem rx_handler_drops_witness:
  "\<exists>r. greybus_rx_handler quiet_env 0 (Some [9, 0, 1, 0, 2, 0, 0, 0]) 8 (sample_core (sample_cport True) [])
     = Some (r, sample_core (sample_cport True) []) \<and> r \<in> {0, - EINVAL}"
  by (rule rx_handler_drops[OF sample_core_empty]) (simp_all add: valid_message_def le16_def rd16_def rd8_def)

section \<open>Workers\<close>







section \<open>Sending\<close>

lemma low_half: "unat (ucast (r :: u32) :: u16) = unat r mod 65536"
  by (simp add: unsigned_ucast_eq take_bit_eq_mod)

lemma low_half_successor:
  assumes z: "(ucast (r :: u32) :: u16) = 0"
  shows "(ucast (r + 1) :: u16) \<noteq> 0"
proof
  assume s: "(ucast (r + 1) :: u16) = 0"
  have u: "unat (r + 1) = (unat r + 1) mod 4294967296" by (simp add: unat_word_ariths)
  have "unat r mod 65536 = 0" using arg_cong[OF z, of unat] by (simp add: low_half)
  then have "(unat r + 1) mod 65536 = 1" by (simp add: mod_Suc)
  moreover have "(unat r + 1) mod 4294967296 mod 65536 = (unat r + 1) mod 65536" by (rule mod_mod_cancel) simp
  moreover have "(unat r + 1) mod 4294967296 mod 65536 = 0"
    using arg_cong[OF s, of unat] unfolding low_half u by simp
  ultimately show False by simp
qed

lemma next_request_id_nonzero: "fst (next_request_id rid) \<noteq> 0"
  using low_half_successor[of rid] by (simp add: next_request_id_def Let_def)

text \<open>
  C7. A request that wants a response gets an id that is not zero and is sent once, with that id
  and otherwise as it was built. When the transport takes it, it waits at the end of the
  transmit fifo of its cport; when the transport refuses it, every fifo is as before, the error
  is returned and the reference of the fifo is given back.
\<close>

theorem send_request_queues_or_restores:
  assumes inv: "core_inv h c" and op: "get_op c a = Some op" "op_response op = None"
    and cp: "get_cp c (op_cport op) = Some cp" "\<not> cp_exit_worker cp" and free: "a \<notin> set (cp_tx_fifo cp)"
  shows "\<exists>r c' msg ident. gb_operation_send_request E a cb True c = Some (r, c') \<and> core_inv h c'
    \<and> ident \<noteq> 0 \<and> request_message op ident msg \<and> tx_log c' = tx_log c @ [(op_cport op, msg, r)]
    \<and> g_cport c' = (if r = 0 then (g_cport c)[op_cport op := cp\<lparr>cp_tx_fifo := cp_tx_fifo cp @ [a]\<rparr>] else g_cport c)"
proof -
  have "fst (next_request_id (request_id c)) \<noteq> 0" by (rule next_request_id_nonzero)
  with send_request_response[OF inv core_invD(2)[OF inv] op cp free, of E cb] show ?thesis by metis
qed

theorem send_request_queues_or_restores_witness:
  "\<exists>c' r msg ident. gb_operation_send_request broken_env 0 None True
      (sample_core (sample_cport True) [sample_operation 0 0 2 [7]]) = Some (r, c')
    \<and> ident \<noteq> 0 \<and> request_message (sample_operation 0 0 2 [7]) ident msg \<and> tx_log c' = [(0, msg, r)]"
proof -
  let ?op = "sample_operation 0 0 2 [7]" and ?cp = "sample_cport True"
  let ?c = "sample_core ?cp [?op]"
  have inv: "core_inv (\<lambda>a. if a < length [?op] then 1 else 0) ?c" by (rule sample_core_inv) simp
  have op: "get_op ?c 0 = Some ?op" "op_response ?op = None" by simp_all
  have cp: "get_cp ?c (op_cport ?op) = Some ?cp" "\<not> cp_exit_worker ?cp" "0 \<notin> set (cp_tx_fifo ?cp)" by simp_all
  from send_request_queues_or_restores[OF inv op cp, of broken_env None] obtain r c' msg ident where
    "gb_operation_send_request broken_env 0 None True ?c = Some (r, c')" "ident \<noteq> 0"
    "request_message ?op ident msg" "tx_log c' = tx_log ?c @ [(op_cport ?op, msg, r)]" by blast
  then show ?thesis by (intro exI[of _ c'] exI[of _ r] exI[of _ msg] exI[of _ ident]) simp
qed

section \<open>Responses and time-outs\<close>

lemma ref_fields:
  assumes "gb_operation_ref r c = Some c1" and "get_op c a = Some op" and "get_op c1 a = Some op1"
  shows "same_but_count op op1"
  using assms
  by (auto simp: gb_operation_ref_def heap_ref_def bind_eq_Some_conv get_op_def hput_def hget_def split: if_splits)
    (metis nth_list_update_eq nth_list_update_neq option.inject same_but_count_upd same_but_count_refl)

lemma same_but_count_fields:
  assumes "same_but_count op op'"
  shows "op_callback op' = op_callback op" "op_sync_sem op' = op_sync_sem op"
  using assms unfolding same_but_count_def by (metis gb_operation.select_convs gb_operation.surjective gb_operation.update_convs(3))+

text \<open>
  C6. A response wakes the thread that waits for it: when the first waiting request with the id of
  the response was sent synchronously, it leaves the transmit fifo, its semaphore is posted, and
  the result that the sender then reads is the result octet of this response.
\<close>

theorem response_wakes_sender:
  assumes inv: "core_inv h c" and h: "1 \<le> h r" "1 \<le> h a" and rop: "get_op c r = Some rop"
    and rb: "op_request_buffer rop = Some rb" "hdr_id rb = Some ident" "hdr_result rb = Some res"
      "hdr_size rb = Some sz" "HDR_SIZE \<le> unat sz"
    and cp: "get_cp c (op_cport rop) = Some cp"
    and f: "find (request_of c ident) (cp_tx_fifo cp) = Some a"
    and op: "get_op c a = Some op" "op_callback op = Some Callback_sync"
  shows "\<exists>c' op'. gb_process_response E r c = Some c' \<and> core_inv h c'
    \<and> get_cp c' (op_cport rop) = Some (cp\<lparr>cp_tx_fifo := remove1 a (cp_tx_fifo cp)\<rparr>)
    \<and> get_op c' a = Some op' \<and> op_sync_sem op' = op_sync_sem op + 1
    \<and> gb_operation_get_request_result c' (Some a) = Some res"
proof -
  let ?cp = "cp\<lparr>cp_tx_fifo := remove1 a (cp_tx_fifo cp)\<rparr>"
  from find_SomeD[OF f] have a: "a \<in> set (cp_tx_fifo cp)" by simp
  from attach_response[OF inv rop cp a] obtain c1 op1 where
    ref: "gb_operation_ref r (put_cp (op_cport rop) ?cp c) = Some c1" and g1: "get_op c1 a = Some op1"
    and inv1: "core_inv (h(a := h a + 1)) (put_op a (op1\<lparr>op_response := Some r\<rparr>) c1)"
    and cps: "g_cport c1 = (g_cport c)[op_cport rop := ?cp]" by blast
  have cb: "op_callback op1 = Some Callback_sync" "op_sync_sem op1 = op_sync_sem op"
    using same_but_count_fields[OF ref_fields[OF ref _ g1]] op by simp_all
  let ?op2 = "op1\<lparr>op_response := Some r, op_sync_sem := op_sync_sem op1 + 1\<rparr>"
  let ?c2 = "put_op a ?op2 c1"
  have len: "a < length (core_heap c1)" using get_op_SomeD[OF g1] .
  have call: "call_callback E a (put_op a (op1\<lparr>op_response := Some r\<rparr>) c1) = Some ?c2"
    using cb len by (simp add: call_callback_def get_put_op put_put_op)
  have g2: "get_op (put_op a (op1\<lparr>op_response := Some r\<rparr>) c1) a = Some (op1\<lparr>op_response := Some r\<rparr>)"
    using len by (simp add: get_put_op)
  have ok: "op_ok (length (g_cport (put_op a (op1\<lparr>op_response := Some r\<rparr>) c1))) ?op2"
    using core_invD(3)[OF inv1 g2] by (rule op_ok_cong) simp_all
  have "core_inv (h(a := h a + 1)) (put_op a ?op2 (put_op a (op1\<lparr>op_response := Some r\<rparr>) c1))"
    by (rule core_inv_put_op[OF inv1 g2 _ _ _ ok]) simp_all
  then have inv2: "core_inv (h(a := h a + 1)) ?c2" by (simp only: put_put_op)
  have "1 \<le> (h(a := h a + 1)) a" using h by simp
  from gb_operation_unref_ok[OF inv2 this, of E] obtain c' H w where
    u: "gb_operation_unref E a ?c2 = Some c'" "core_inv ((h(a := h a + 1))(a := (h(a := h a + 1)) a - 1)) c'"
      "c' = ?c2\<lparr>core_heap := H, world := w\<rparr>" "heap_frame (core_heap ?c2) H" .
  from u(2) have inv': "core_inv h c'" by (simp add: hold_drop)
  from core_inv_live[OF inv' h(2)] obtain op' where op': "get_op c' a = Some op'" by metis
  from core_inv_live[OF inv' h(1)] obtain rop' where rop': "get_op c' r = Some rop'" by metis
  have fr: "\<exists>o1. get_op ?c2 b = Some o1 \<and> same_but_count o1 o2" if "get_op c' b = Some o2" for b o2
    using u(3,4) that by (auto simp: heap_frame_def get_op_def)
  from fr[OF op'] len have s: "same_but_count ?op2 op'" by (auto simp: get_put_op)
  from fr[OF rop'] obtain o1 where o1: "get_op ?c2 r = Some o1" "same_but_count o1 rop'" by blast
  obtain ro where ro: "get_op c1 r = Some ro" using o1(1) g1 by (cases "a = r") (auto simp: get_put_op)
  have "op_request_buffer ro = Some rb"
    using same_but_countD(3)[OF ref_fields[OF ref _ ro]] rop rb by simp
  then have "op_request_buffer o1 = Some rb" using o1(1) ro g1 len by (auto simp: get_put_op split: if_splits)
  then have "op_request_buffer rop' = Some rb" using same_but_countD(3)[OF o1(2)] by simp
  then have res: "gb_operation_get_request_result c' (Some a) = Some res"
    using op' rop' rb same_but_countD(2)[OF s] by (simp add: gb_operation_get_request_result_def)
  have p: "get_cp c' (op_cport rop) = Some ?cp"
    using get_cp_SomeD[OF cp] u(3) cps by (simp add: get_cp_def)
  have "gb_process_response E r c = Some c'"
    using rop rb cp find_request_ok[OF inv cp, of ident] f ref g1 call u(1)
    by (simp add: gb_process_response_def)
  then show ?thesis using inv' p op' same_but_count_fields(2)[OF s] cb res by auto
qed

text \<open>A request with id 5 waits for its response, which has arrived.\<close>

definition waiting_request :: gb_operation where
  "waiting_request = (sample_operation 0 5 2 [])\<lparr>op_callback := Some Callback_sync, op_ref_count := 2\<rparr>"

definition arrived_response :: gb_operation where
  "arrived_response = received 0 (hdr_bytes 8 5 0x82 3 @ [])"

lemma sample_core_put [simp]:
  "put_op a op (sample_core cp ops) = sample_core cp (ops[a := op])"
  "put_cp 0 cp' (sample_core cp ops) = sample_core cp' ops"
  by (simp_all add: put_op_def hput_def put_cp_def sample_core_def map_update)

lemma arrived_lone: "lone arrived_response"
proof -
  have "buffer_ok (hdr_bytes 8 5 0x82 3 @ [])" by (rule buffer_ok_hdr) simp
  then show ?thesis by (simp add: lone_def arrived_response_def received_def new_operation_def op_ok_def)
qed

lemma sample_waiting:
  "core_inv (\<lambda>a. if a < 2 then 1 else 0)
     (sample_core ((sample_cport True)\<lparr>cp_tx_fifo := [0]\<rparr>) [waiting_request, arrived_response])"
proof -
  let ?op = "sample_operation 0 5 2 []" and ?h = "\<lambda>a :: nat. if a < 2 then 1 else (0 :: int)"
  let ?op1 = "?op\<lparr>op_callback := Some Callback_sync\<rparr>"
  let ?cp = "sample_cport True"
  have i0: "core_inv ?h (sample_core ?cp [?op, arrived_response])"
    using sample_core_inv[of "[?op, arrived_response]" True] arrived_lone by (simp add: numeral_2_eq_2)
  have ok: "op_ok (length (g_cport (sample_core ?cp [?op, arrived_response]))) ?op1"
    using sample_operation_ok[of "[]" 0 1] by (simp add: op_ok_def)
  have "core_inv ?h (put_op 0 ?op1 (sample_core ?cp [?op, arrived_response]))"
    by (rule core_inv_put_op[OF i0 _ _ _ _ ok, where op = ?op]) simp_all
  then have i1: "core_inv ?h (sample_core ?cp [?op1, arrived_response])" by simp
  have "core_inv (?h(0 := ?h 0 + 1)) (put_op 0 (?op1\<lparr>op_ref_count := op_ref_count ?op1 + 1\<rparr>)
      (sample_core ?cp [?op1, arrived_response]))"
    by (rule gb_operation_ref_ok(2)[OF i1]) simp
  then have i2: "core_inv (?h(0 := ?h 0 + 1)) (sample_core ?cp [waiting_request, arrived_response])"
    by (simp add: waiting_request_def)
  have "core_inv ((?h(0 := ?h 0 + 1))(0 := (?h(0 := ?h 0 + 1)) 0 - 1))
      (put_cp 0 (?cp\<lparr>cp_tx_fifo := cp_tx_fifo ?cp @ [0]\<rparr>) (sample_core ?cp [waiting_request, arrived_response]))"
    by (rule core_inv_tx_append[OF i2, where op = waiting_request]) (simp_all add: waiting_request_def)
  moreover have "?h(0 := 1) = ?h" by auto
  ultimately show ?thesis by simp
qed

theorem response_wakes_sender_witness:
  "\<exists>c' op'. gb_process_response quiet_env 1
      (sample_core ((sample_cport True)\<lparr>cp_tx_fifo := [0]\<rparr>) [waiting_request, arrived_response]) = Some c'
    \<and> get_op c' 0 = Some op' \<and> op_sync_sem op' = 1 \<and> gb_operation_get_request_result c' (Some 0) = Some 3"
proof -
  let ?cp = "(sample_cport True)\<lparr>cp_tx_fifo := [0]\<rparr>"
  let ?c = "sample_core ?cp [waiting_request, arrived_response]"
  have r: "get_op ?c 1 = Some arrived_response" "get_op ?c 0 = Some waiting_request" by simp_all
  have b: "op_request_buffer arrived_response = Some (hdr_bytes 8 5 0x82 3 @ [])" "op_cport arrived_response = 0"
    by (simp_all add: arrived_response_def received_def new_operation_def)
  have w: "op_callback waiting_request = Some Callback_sync" "op_sync_sem waiting_request = 0"
    "op_request_buffer waiting_request = Some (hdr_bytes 8 5 2 0 @ [])"
    by (simp_all add: waiting_request_def sample_operation_def)
  have f: "find (request_of ?c 5) (cp_tx_fifo ?cp) = Some 0"
    using r(2) w(3) hdr_bytes_fields(2)[of 8 5 2 0 "[]"] by (simp add: request_of_def)
  from response_wakes_sender[OF sample_waiting _ _ r(1) b(1) hdr_bytes_fields(2,4,1) _ _ f r(2) w(1), of quiet_env] b(2) w(2)
  show ?thesis by auto
qed



section \<open>The life of a driver\<close>








text \<open>
  After the shutdown the number of cports is still the old one although their table is freed: a
  message that the transport still delivers for one of them is looked up in the freed table.
\<close>

theorem rx_after_deinit_faults:
  assumes "gb_deinit E c = Some (True, c')" and "transport_backend c" and "p < cport_count c'"
  shows "greybus_rx_handler E p (Some buf) sz c' = None"
proof -
  have "g_cport c' = []" using assms(1,2) by (auto simp: gb_deinit_def bind_eq_Some_conv Let_def split: if_splits)
  then show ?thesis using assms(3) by (simp add: greybus_rx_handler_def get_cp_def)
qed

theorem rx_after_deinit_faults_witness:
  "greybus_rx_handler quiet_env 0 (Some sample_message) 9
     (snd (the (gb_deinit quiet_env (sample_core (sample_cport False) [])))) = None"
proof -
  let ?c = "sample_core (sample_cport False) []"
  have d: "gb_deinit quiet_env ?c = Some (True, ?c\<lparr>g_cport := [], transport_backend := False\<rparr>)"
    by (simp add: gb_deinit_def gb_unregister_driver_def quiet_env_def)
  show ?thesis using rx_after_deinit_faults[OF d, of 0 sample_message 9] d by simp
qed

section \<open>From a message to its answer\<close>

lemma received_fields [simp]:
  "op_cport (received p m) = p" "op_request_buffer (received p m) = Some m" "\<not> op_has_responded (received p m)"
  "op_response_buffer (received p m) = None"
  by (simp_all add: received_def new_operation_def)








section \<open>Unsolicited messages\<close>

text \<open>
  The interrupt of a GPIO line needs a transport that sends asynchronously: with one whose
  \<^verbatim>\<open>send_async\<close> is null, as the socket and UART transports leave it, the null pointer is
  called as soon as the event has been built for a cport that is in use.
\<close>

theorem gpio_irq_event_faults:
  assumes "env_send_async E = None" and "gb_device_to_cport (Some dev) m = int p"
    and "get_cp c p = Some cp" and "\<not> cp_exit_worker cp"
    and "gb_operation_create E p 0x0e 1 c = Some (Some a, c1)"
  shows "gb_gpio_irq_event E api m irq dev c = None"
proof -
  have len: "(1 :: nat) + HDR_SIZE < 2 ^ 32" by simp
  have "g_cport c1 = g_cport c \<and> get_op c1 a = Some (created p 0x0e 1)"
    using assms(5) by - (rule gb_operation_create_cases[OF len, where E = E and cport = p and c = c and ty = "0x0e"], auto simp: get_op_def)
  then have cp: "get_cp c1 q = get_cp c q" and port: "get_op c1 a = Some op \<Longrightarrow> op_cport op = p" for q op
    by (auto simp: get_cp_def created_def new_operation_def)
  have nowait: "gb_operation_send_request_nowait E a None False (put_op a op c'\<lparr>world := w\<rparr>) = None"
    if "g_cport c' = g_cport c1" "op_cport op = p" for op c' w
    using assms(1,3,4) cp[of p] that
    by (auto simp: gb_operation_send_request_nowait_def get_cp_def bind_eq_None_conv core_simps get_op_def hput_def hget_def
        split: if_splits)
  show ?thesis
    using assms(2,5) nowait[of c1] port
    by (auto simp: gb_gpio_irq_event_def bind_eq_None_conv Let_def split: prod.splits)
qed

theorem gpio_irq_event_faults_witness:
  "gb_gpio_irq_event quiet_env sample_gpio [\<lparr>me_cport = 0, me_dev = 7\<rparr>] 3 7 (sample_core (sample_cport True) []) = None"
proof -
  let ?c = "sample_core (sample_cport True) []"
  obtain c1 where c1: "gb_operation_create quiet_env 0 0x0e 1 ?c = Some (Some 0, c1)"
    by (simp add: gb_operation_create_def gb_operation_create_raw_def size_add_def wr16_def wr8_def wr_slice_def
        get_op_def hget_def quiet_env_def)
  show ?thesis
    by (rule gpio_irq_event_faults[OF _ _ _ _ c1, where cp = "sample_cport True"]) (simp_all add: quiet_env_def)
qed

end
