(* ===== verification/Gb_Transport.thy ===== *)
theory Gb_Transport
  imports Gb_Core_Steps
begin

text \<open>
  What the transports of \<^verbatim>\<open>subsys/greybus/platform\<close> have in common: they put messages into a stream
  of octets and take them out again. The interface \<open>framing\<close> says that a receiver whose stream
  begins with the frame of a message delivers this message and leaves the rest of the stream;
  that whole sequences of messages arrive, in order, follows from it. The socket and the UART
  transport are instances.
\<close>

section \<open>Messages\<close>

text \<open>What the senders accept: the size field of the header is the length of the message.\<close>

definition sendable :: "bytes \<Rightarrow> bool" where
  "sendable m \<longleftrightarrow> HDR_SIZE \<le> length m \<and> hdr_size m = Some (word_of_nat (length m)) \<and> length m < 65536"

lemma sendableD:
  assumes "sendable m"
  shows "HDR_SIZE \<le> length m" and "length m < 65536" and "hdr_size m = Some (word_of_nat (length m))"
    and "unat (word_of_nat (length m) :: u16) = length m"
  using assms by (simp_all add: sendable_def)

lemma sendable_iff: "sendable m \<longleftrightarrow> HDR_SIZE \<le> length m \<and> (\<exists>sz. hdr_size m = Some sz \<and> unat sz = length m)"
proof
  assume r: "8 \<le> length m \<and> (\<exists>sz. hdr_size m = Some sz \<and> unat sz = length m)"
  then obtain sz where sz: "hdr_size m = Some sz" "unat sz = length m" by blast
  have "word_of_nat (length m) = sz" by (simp flip: sz(2))
  moreover have "length m < 65536" using sz(2) unat_u16_lt[of sz] by simp
  ultimately show "sendable m" using r sz by (simp add: sendable_def)
qed (auto simp: sendable_def)

lemma sendable_hdr_bytes:
  assumes "length p + 8 < 65536"
  shows "sendable (hdr_bytes (word_of_nat (length p + 8)) ident ty res @ p)"
  using assms by (simp add: sendable_def add.commute del: of_nat_add)

section \<open>Streams of frames\<close>

text \<open>Receiving a number of messages, one after the other.\<close>

fun receive_n :: "('s \<Rightarrow> ((nat \<times> bytes) \<times> 's) option) \<Rightarrow> nat \<Rightarrow> 's \<Rightarrow> ((nat \<times> bytes) list \<times> 's) option" where
  "receive_n recv 0 s = Some ([], s)"
| "receive_n recv (Suc n) s = do {
     (m, s1) \<leftarrow> recv s; (ms, s2) \<leftarrow> receive_n recv n s1; Some (m # ms, s2) }"

definition frames :: "(nat \<Rightarrow> bytes \<Rightarrow> bytes) \<Rightarrow> (nat \<times> bytes) list \<Rightarrow> bytes" where
  "frames frame ms = concat (map (\<lambda>(p, m). frame p m) ms)"

lemma frames_simps [simp]:
  "frames frame [] = []" "frames frame ((p, m) # ms) = frame p m @ frames frame ms"
  "frames frame (as @ bs) = frames frame as @ frames frame bs"
  by (simp_all add: frames_def)

locale framing =
  fixes good :: "nat \<Rightarrow> bytes \<Rightarrow> bool"
    and frame :: "nat \<Rightarrow> bytes \<Rightarrow> bytes"
    and image :: "nat \<Rightarrow> bytes \<Rightarrow> bytes"
    and live :: "'s \<Rightarrow> bool"
    and incoming :: "'s \<Rightarrow> bytes"
    and recv :: "'s \<Rightarrow> ((nat \<times> bytes) \<times> 's) option"
  assumes recv_frame: "live s \<Longrightarrow> good p m \<Longrightarrow> incoming s = frame p m @ rest \<Longrightarrow>
      \<exists>s'. recv s = Some ((p, image p m), s') \<and> live s' \<and> incoming s' = rest"
begin

lemma receive_frames:
  assumes "live s" and "\<And>p m. (p, m) \<in> set ms \<Longrightarrow> good p m" and "incoming s = frames frame ms @ rest"
  shows "\<exists>s'. receive_n recv (length ms) s = Some (map (\<lambda>(p, m). (p, image p m)) ms, s')
    \<and> live s' \<and> incoming s' = rest"
  using assms
proof (induction ms arbitrary: s)
  case (Cons pm ms)
  obtain p m where pm: "pm = (p, m)" by (cases pm)
  have "incoming s = frame p m @ frames frame ms @ rest" and "good p m"
    using Cons.prems(2,3) pm by simp_all
  from recv_frame[OF Cons.prems(1) this(2,1)] obtain s1 where
    s1: "recv s = Some ((p, image p m), s1)" "live s1" "incoming s1 = frames frame ms @ rest" by blast
  have "\<And>p m. (p, m) \<in> set ms \<Longrightarrow> good p m" using Cons.prems(2) by simp
  from Cons.IH[OF s1(2) this s1(3)] obtain s2 where
    "receive_n recv (length ms) s1 = Some (map (\<lambda>(p, m). (p, image p m)) ms, s2)" "live s2" "incoming s2 = rest"
    by blast
  then show ?case using s1(1) pm by (intro exI[of _ s2]) simp
qed simp

text \<open>Streams can be read in one way only.\<close>

lemma frames_unique:
  assumes "live s" and "incoming s = frames frame ms @ rest" and "incoming s = frames frame ns @ rest'"
    and "length ms = length ns"
    and "\<And>p m. (p, m) \<in> set ms \<union> set ns \<Longrightarrow> good p m"
  shows "map (\<lambda>(p, m). (p, image p m)) ms = map (\<lambda>(p, m). (p, image p m)) ns \<and> rest = rest'"
proof -
  have "\<And>p m. (p, m) \<in> set ms \<Longrightarrow> good p m" and "\<And>p m. (p, m) \<in> set ns \<Longrightarrow> good p m"
    using assms(5) by auto
  from receive_frames[OF assms(1) this(1) assms(2)] receive_frames[OF assms(1) this(2) assms(3)]
  show ?thesis using assms(4) by auto
qed

end

text \<open>Sending a list of messages, and the interface of both ends of a connection.\<close>

fun send_all :: "(nat \<Rightarrow> bytes \<Rightarrow> 't \<Rightarrow> (int \<times> 't) option) \<Rightarrow> (nat \<times> bytes) list \<Rightarrow> 't \<Rightarrow> (int list \<times> 't) option" where
  "send_all send [] t = Some ([], t)"
| "send_all send ((p, m) # ms) t = do {
     (r, t1) \<leftarrow> send p m t; (rs, t2) \<leftarrow> send_all send ms t1; Some (r # rs, t2) }"

locale link = framing good frame image live incoming recv
  for good frame image and live :: "'s \<Rightarrow> bool" and incoming recv +
  fixes connected :: "'t \<Rightarrow> bool"
    and outgoing :: "'t \<Rightarrow> bytes"
    and send :: "nat \<Rightarrow> bytes \<Rightarrow> 't \<Rightarrow> (int \<times> 't) option"
  assumes send_frame: "connected t \<Longrightarrow> good p m \<Longrightarrow>
      \<exists>t'. send p m t = Some (0, t') \<and> connected t' \<and> outgoing t' = outgoing t @ frame p m"
begin

lemma send_frames:
  assumes "connected t" and "\<And>p m. (p, m) \<in> set ms \<Longrightarrow> good p m"
  shows "\<exists>t'. send_all send ms t = Some (replicate (length ms) 0, t') \<and> connected t'
    \<and> outgoing t' = outgoing t @ frames frame ms"
  using assms
proof (induction ms arbitrary: t)
  case (Cons pm ms)
  obtain p m where pm: "pm = (p, m)" by (cases pm)
  from send_frame[OF Cons.prems(1)] Cons.prems(2) pm obtain t1 where
    t1: "send p m t = Some (0, t1)" "connected t1" "outgoing t1 = outgoing t @ frame p m" by (metis list.set_intros(1))
  have "\<And>p m. (p, m) \<in> set ms \<Longrightarrow> good p m" using Cons.prems(2) by simp
  from Cons.IH[OF t1(2) this] obtain t2 where "send_all send ms t1 = Some (replicate (length ms) 0, t2)"
    "connected t2" "outgoing t2 = outgoing t1 @ frames frame ms" by blast
  then show ?case using t1 pm by (intro exI[of _ t2]) simp
qed simp

text \<open>What one end sends the other end receives.\<close>

lemma delivers:
  assumes "connected t" and "outgoing t = []" and "\<And>p m. (p, m) \<in> set ms \<Longrightarrow> good p m"
  shows "\<exists>t'. send_all send ms t = Some (replicate (length ms) 0, t') \<and>
    (\<forall>s rest. live s \<longrightarrow> incoming s = outgoing t' @ rest \<longrightarrow>
      (\<exists>s'. receive_n recv (length ms) s = Some (map (\<lambda>(p, m). (p, image p m)) ms, s')
        \<and> live s' \<and> incoming s' = rest))"
proof -
  from send_frames[OF assms(1,3)] obtain t' where
    "send_all send ms t = Some (replicate (length ms) 0, t')" "outgoing t' = frames frame ms"
    using assms(2) by auto
  then show ?thesis using receive_frames[OF _ assms(3)] by (intro exI[of _ t']) simp
qed

end

end
