(* ===== verification/Gb_Tcp.thy ===== *)
theory Gb_Tcp
  imports Gb_Transport Gb_Samples
begin

text \<open>
  The multiplexing socket transport, \<^verbatim>\<open>platform/transport-tcpip-multiplex.c\<close>: one connection carries the
  messages of all cports, each behind the two octets of its cport. The sockets and the heap of the
  transport are parameters; a failed receive yields its error code, a successful one its octets,
  none of them when the peer has closed. The threads are steps on the context and the core.
\<close>

unbundle bit_operations_syntax

section \<open>Sockets\<close>

record 'w sock_api =
  zsock_recv :: "int \<Rightarrow> nat \<Rightarrow> 'w \<Rightarrow> (int + bytes) \<times> 'w"
  zsock_send :: "int \<Rightarrow> bytes \<Rightarrow> 'w \<Rightarrow> int \<times> 'w"
  zsock_poll :: "int \<Rightarrow> 'w \<Rightarrow> int \<times> bool \<times> 'w"
  zsock_accept :: "int \<Rightarrow> 'w \<Rightarrow> int \<times> 'w"
  zsock_close :: "int \<Rightarrow> 'w \<Rightarrow> 'w"
  trans_alloc :: "'w alloc_fn"
  trans_free :: "bytes \<Rightarrow> 'w \<Rightarrow> 'w"

text \<open>\<^verbatim>\<open>struct gb_trans_ctx\<close>: the listening socket and the connection, \<open>- 1\<close> when there is none.\<close>

record gb_trans_ctx =
  server_sock :: int
  client_sock :: int

text \<open>
  The loop of \<^verbatim>\<open>read_data\<close>. \<open>room\<close> is the size of the destination: octets that land behind it are a
  fault. The result is the return value and the octets stored so far.
\<close>

function read_loop ::
  "'w sock_api \<Rightarrow> int \<Rightarrow> nat \<Rightarrow> nat \<Rightarrow> bytes \<Rightarrow> 'w \<Rightarrow> (int \<times> bytes \<times> 'w) option" where
  "read_loop api sock room len data w =
     (if length data < len then
        (case zsock_recv api sock (len - length data) w of
           (Inl e, w1) \<Rightarrow> Some (e, data, w1)
         | (Inr xs, w1) \<Rightarrow>
             if xs = [] then Some (0, data, w1)
             else if room < length data + length xs then None
             else read_loop api sock room len (data @ xs) w1)
      else Some (int (length data), data, w))"
  by pat_completeness auto
termination
  by (relation "measure (\<lambda>(api, sock, room, len, data, w). len - length data)")
     (auto simp: diff_less_mono2)

declare read_loop.simps [simp del]

definition read_data :: "'w sock_api \<Rightarrow> int \<Rightarrow> nat \<Rightarrow> nat \<Rightarrow> 'w \<Rightarrow> (int \<times> bytes \<times> 'w) option" where
  "read_data api sock room len w = read_loop api sock room len [] w"



section \<open>Sending\<close>


section \<open>Receiving\<close>

text \<open>The header is copied whole into a block of the size it announces.\<close>

definition gb_message_alloc :: "'w sock_api \<Rightarrow> bytes \<Rightarrow> 'w \<Rightarrow> (bytes option \<times> 'w) option" where
  "gb_message_alloc api hdr w = do {
     sz \<leftarrow> hdr_size hdr;
     let (ok, w1) = trans_alloc api w (unat sz);
     if \<not> ok then Some (None, w1)
     else do { msg \<leftarrow> wr_slice (replicate (unat sz) 0) 0 hdr; Some (Some msg, w1) } }"

definition gb_message_dealloc :: "'w sock_api \<Rightarrow> bytes \<Rightarrow> 'w \<Rightarrow> 'w" where
  "gb_message_dealloc api msg w = trans_free api msg w"

definition gb_message_payload_len :: "bytes \<Rightarrow> nat option" where
  "gb_message_payload_len msg = do { sz \<leftarrow> hdr_size msg; Some (size_sub (unat sz) HDR_SIZE) }"

text \<open>The flag, set when the peer has closed, and the cport and the message unless there is none.\<close>

definition gb_message_receive ::
  "'w sock_api \<Rightarrow> int \<Rightarrow> 'w \<Rightarrow> (bool \<times> (nat \<times> bytes) option \<times> 'w) option" where
  "gb_message_receive api sock w = do {
     (ret, cp, w1) \<leftarrow> read_data api sock 2 2 w;
     if ret \<noteq> 2 then Some (ret = 0, None, w1)
     else do {
       cport \<leftarrow> rd16 cp 0;
       (ret2, hdr, w2) \<leftarrow> read_data api sock HDR_SIZE HDR_SIZE w1;
       if ret2 \<noteq> int HDR_SIZE then Some (ret2 = 0, None, w2)
       else do {
         (r, w3) \<leftarrow> gb_message_alloc api hdr w2;
         (case r of
            None \<Rightarrow> Some (False, None, w3)
          | Some msg \<Rightarrow> do {
              len \<leftarrow> gb_message_payload_len msg;
              (ret3, payload, w4) \<leftarrow> read_data api sock (length msg - HDR_SIZE) len w3;
              msg' \<leftarrow> wr_slice msg HDR_SIZE payload;
              if ret3 \<noteq> int len then Some (ret3 = 0, None, gb_message_dealloc api msg' w4)
              else Some (False, Some (unat cport, msg'), w4) }) } } }"

section \<open>The receive thread\<close>

definition gb_trans_accept :: "'w sock_api \<Rightarrow> gb_trans_ctx \<Rightarrow> 'w \<Rightarrow> gb_trans_ctx \<times> 'w" where
  "gb_trans_accept api ctx w =
     (let (ret, pollin, w1) = zsock_poll api (server_sock ctx) w in
      if ret < 0 \<or> \<not> pollin then (ctx, w1)
      else
        let (sock, w2) = zsock_accept api (server_sock ctx) w1 in
        if sock < 0 then (ctx, w2) else (ctx\<lparr>client_sock := sock\<rparr>, w2))"

definition gb_trans_rx ::
  "'w env \<Rightarrow> 'w sock_api \<Rightarrow> gb_trans_ctx \<Rightarrow> 'w core \<Rightarrow> (gb_trans_ctx \<times> 'w core) option" where
  "gb_trans_rx E api ctx c =
     (let (ret, pollin, w1) = zsock_poll api (client_sock ctx) (world c) in
      if ret < 0 \<or> \<not> pollin then Some (ctx, c\<lparr>world := w1\<rparr>)
      else do {
        (flag, r, w2) \<leftarrow> gb_message_receive api (client_sock ctx) w1;
        if flag then
          Some (ctx\<lparr>client_sock := - 1\<rparr>, c\<lparr>world := zsock_close api (client_sock ctx) w2\<rparr>)
        else
          (case r of
             None \<Rightarrow> Some (ctx, c\<lparr>world := w2\<rparr>)
           | Some (cport, msg) \<Rightarrow> do {
               sz \<leftarrow> hdr_size msg;
               (_, c1) \<leftarrow> greybus_rx_handler E cport (Some msg) (unat sz) (c\<lparr>world := w2\<rparr>);
               Some (ctx, c1\<lparr>world := gb_message_dealloc api msg (world c1)\<rparr>) }) })"

text \<open>One round of the thread.\<close>

definition gb_trans_rx_thread_handler ::
  "'w env \<Rightarrow> 'w sock_api \<Rightarrow> gb_trans_ctx \<Rightarrow> 'w core \<Rightarrow> (gb_trans_ctx \<times> 'w core) option" where
  "gb_trans_rx_thread_handler E api ctx c =
     (if client_sock ctx = - 1 then
        let (ctx', w) = gb_trans_accept api ctx (world c) in Some (ctx', c\<lparr>world := w\<rparr>)
      else gb_trans_rx E api ctx c)"

text \<open>\<open>netsetup\<close> opens the listening socket; the null result is \<open>None\<close>.\<close>

definition CPORT_ID_MAX :: nat where "CPORT_ID_MAX = 4095"

definition gb_transport_backend_init ::
  "('w \<Rightarrow> int \<times> 'w) \<Rightarrow> nat \<Rightarrow> 'w \<Rightarrow> gb_trans_ctx option \<times> 'w" where
  "gb_transport_backend_init netsetup num_cports w =
     (if CPORT_ID_MAX \<le> num_cports then (None, w)
      else
        let (sock, w1) = netsetup w in
        if sock < 0 then (None, w1)
        else (Some \<lparr>server_sock = sock, client_sock = - 1\<rparr>, w1))"

section \<open>What the sockets promise\<close>

text \<open>
  The octets that are still to be received through a socket are \<open>inflow\<close>: a receive takes at least
  one of them from the front, however many were asked for. The heap serves the sizes a header can name.
\<close>

definition stream_in :: "'w sock_api \<Rightarrow> int \<Rightarrow> ('w \<Rightarrow> bytes) \<Rightarrow> bool" where
  "stream_in api sock inflow \<longleftrightarrow>
     (\<forall>n w. 0 < n \<longrightarrow> inflow w \<noteq> [] \<longrightarrow> (\<exists>xs w'. zsock_recv api sock n w = (Inr xs, w')
        \<and> xs \<noteq> [] \<and> length xs \<le> n \<and> inflow w = xs @ inflow w')) \<and>
     (\<forall>n w. n < 65536 \<longrightarrow> (\<exists>w'. trans_alloc api w n = (True, w') \<and> inflow w' = inflow w))"


lemma stream_in_recv:
  assumes "stream_in api sock inflow" and "0 < n" and "inflow w \<noteq> []"
  obtains xs w' where "zsock_recv api sock n w = (Inr xs, w')" and "xs \<noteq> []" and "length xs \<le> n"
    and "inflow w = xs @ inflow w'"
  using assms unfolding stream_in_def by blast

lemma stream_in_alloc:
  assumes "stream_in api sock inflow" and "n < 65536"
  obtains w' where "trans_alloc api w n = (True, w')" and "inflow w' = inflow w"
  using assms unfolding stream_in_def by blast


section \<open>The loops\<close>

lemma read_loop_stream:
  assumes s: "stream_in api sock inflow"
  shows "inflow w = xs @ rest \<Longrightarrow> length data + length xs = len \<Longrightarrow> len \<le> room \<Longrightarrow>
    \<exists>w'. read_loop api sock room len data w = Some (int len, data @ xs, w') \<and> inflow w' = rest"
proof (induction "length xs" arbitrary: xs data w rule: less_induct)
  case less
  show ?case
  proof (cases "xs = []")
    case True
    then show ?thesis using less.prems by (simp add: read_loop.simps)
  next
    case False
    then have n: "0 < len - length data" "inflow w \<noteq> []" "length data < len" using less.prems by auto
    from stream_in_recv[OF s n(1,2)] obtain ys w1 where ys: "zsock_recv api sock (len - length data) w = (Inr ys, w1)"
      "ys \<noteq> []" "length ys \<le> len - length data" "inflow w = ys @ inflow w1" .
    have "length ys \<le> length xs" using ys(3) less.prems(2) by simp
    moreover have e: "ys @ inflow w1 = xs @ rest" using ys(4) less.prems(1) by simp
    ultimately obtain zs where zs: "xs = ys @ zs" "inflow w1 = zs @ rest"
      by (auto simp: append_eq_append_conv2)
    have "length zs < length xs" using zs(1) ys(2) by simp
    from less.hyps[OF this zs(2), of "data @ ys"] obtain w2 where
      "read_loop api sock room len (data @ ys) w1 = Some (int len, (data @ ys) @ zs, w2)" "inflow w2 = rest"
      using less.prems(2,3) zs(1) by auto
    moreover have "length data + length ys \<le> room" using ys(3) n(3) less.prems(3) by simp
    ultimately show ?thesis
      using n(3) ys(1,2) zs(1) by (subst read_loop.simps) (auto simp del: read_loop.simps split: prod.splits)
  qed
qed

lemma read_data_stream:
  assumes "stream_in api sock inflow" and "inflow w = xs @ rest" and "length xs \<le> room"
  shows "\<exists>w'. read_data api sock room (length xs) w = Some (int (length xs), xs, w') \<and> inflow w' = rest"
  using read_loop_stream[OF assms(1,2), of "[]"] assms(3) by (simp add: read_data_def)



section \<open>Both ends of a connection\<close>

definition tcp_frame :: "nat \<Rightarrow> bytes \<Rightarrow> bytes" where
  "tcp_frame p m = bytes16 (word_of_nat p) @ m"

definition tcp_good :: "nat \<Rightarrow> bytes \<Rightarrow> bool" where
  "tcp_good p m \<longleftrightarrow> p < 65536 \<and> sendable m"


lemma message_receive_frame:
  assumes s: "stream_in api sock inflow" and g: "tcp_good p m" and i: "inflow w = tcp_frame p m @ rest"
  shows "\<exists>w'. gb_message_receive api sock w = Some (False, Some (p, m), w') \<and> inflow w' = rest"
proof -
  let ?c = "bytes16 (word_of_nat p)" and ?h = "take 8 m" and ?n = "length m"
  have m: "HDR_SIZE \<le> ?n" "?n < 65536" "hdr_size m = Some (word_of_nat ?n)" "p < 65536"
    "unat (word_of_nat ?n :: u16) = ?n"
    using g sendableD[of m] by (simp_all add: tcp_good_def)
  have h: "length ?h = 8" "hdr_size ?h = Some (word_of_nat ?n)" using m(1,3) by (simp_all add: rd16_take)
  have "inflow w = ?c @ ?h @ drop 8 m @ rest" using i by (simp add: tcp_frame_def)
  from read_data_stream[OF s this, of 2] obtain wa where
    ra: "read_data api sock 2 2 w = Some (2, ?c, wa)" "inflow wa = ?h @ drop 8 m @ rest" by auto
  from read_data_stream[OF s ra(2), of 8] h(1) obtain wb where
    rb: "read_data api sock 8 8 wa = Some (8, ?h, wb)" "inflow wb = drop 8 m @ rest" by auto
  from stream_in_alloc[OF s m(2), of wb] obtain wc where
    wc: "trans_alloc api wb ?n = (True, wc)" "inflow wc = drop 8 m @ rest" using rb(2) by metis
  from read_data_stream[OF s wc(2), of "?n - 8"] obtain wd where
    rd: "read_data api sock (?n - 8) (?n - 8) wc = Some (int (?n - 8), drop 8 m, wd)" "inflow wd = rest" by auto
  let ?b = "?h @ replicate (?n - 8) 0"
  have "wr_slice (replicate ?n 0) 0 ?h = Some ?b" using m(1) h(1) by (simp add: wr_slice_def)
  then have al: "gb_message_alloc api ?h wb = Some (Some ?b, wc)"
    using h(2) wc(1) m(5) by (simp add: gb_message_alloc_def)
  have b: "hdr_size ?b = Some (word_of_nat ?n)" "length ?b - 8 = ?n - 8" "wr_slice ?b 8 (drop 8 m) = Some m"
    using h m(1) rd16_take[of 0 8 ?b] by (simp_all add: wr_slice_def)
  then have "gb_message_payload_len ?b = Some (?n - 8)" using m(1,5) by (simp add: gb_message_payload_len_def)
  moreover have "rd16 ?c 0 = Some (word_of_nat p)" using rd16_bytes16[of "word_of_nat p" "[]"] by simp
  ultimately show ?thesis
    using ra(1) rb(1) al rd b m(4) by (simp add: gb_message_receive_def)
qed





definition sock_env :: "(bytes \<times> bytes) env" where
  "sock_env = \<lparr>env_alloc_buf = (\<lambda>w n. (True, w)), env_free_buf = (\<lambda>w b. w), env_malloc = (\<lambda>w n. (True, w)),
     env_send = (\<lambda>w p m. (0, w)), env_send_async = None, env_listen = (\<lambda>w p. (0, w)), env_stop_listening = None,
     env_transport_init = (\<lambda>w. w), env_transport_exit = None, env_clock = (\<lambda>w. ((0, 0), w)),
     env_pthread_create = (\<lambda>w p. (0, w)), env_handler = (\<lambda>f c a. Some (0, c)),
     env_fast_handler = (\<lambda>f c p b. Some c), env_callback = (\<lambda>f c a. Some c),
     env_driver_init = (\<lambda>f c p b. Some (0, c)), env_driver_exit = (\<lambda>f c p b. Some c),
     env_driver_event = (\<lambda>f c p. Some c)\<rparr>"

definition sock_core :: "bytes \<Rightarrow> (bytes \<times> bytes) core" where
  "sock_core w = \<lparr>cport_count = 1, request_id = 0, g_cport = [sample_cport True],
     g_bundle = [Some \<lparr>bnd_id = 0, bnd_cport_start = 0, bnd_dev = [None]\<rparr>], transport_backend = True,
     gb_tape = False, gb_tape_fd = - EBADF, core_heap = [], core_drivers = [sample_driver sample_handlers],
     core_manifest = g_greybus, tx_log = [], tape = [], world = (w, [])\<rparr>"





text \<open>
  A frame on the connection becomes one call of the receive handler of the core, with the
  message and the cport of the frame, and is consumed.
\<close>

lemma trans_rx_delivers:
  assumes "stream_in api (client_sock ctx) inflow" and "p < 65536" and "sendable m"
    and "zsock_poll api (client_sock ctx) (world c) = (1, True, w)" and "inflow w = tcp_frame p m @ rest"
  shows "\<exists>w'. inflow w' = rest \<and> gb_trans_rx E api ctx c =
    map_option (\<lambda>(r, c'). (ctx, c'\<lparr>world := trans_free api m (world c')\<rparr>))
      (greybus_rx_handler E p (Some m) (length m) (c\<lparr>world := w'\<rparr>))"
proof -
  have "tcp_good p m" using assms(2,3) by (simp add: tcp_good_def)
  from message_receive_frame[OF assms(1) this assms(5)] obtain w' where
    w': "gb_message_receive api (client_sock ctx) w = Some (False, Some (p, m), w')" "inflow w' = rest" by blast
  show ?thesis
    using w' assms(4) sendableD[OF assms(3)]
    by (intro exI[of _ w'])
       (simp add: gb_trans_rx_def gb_message_dealloc_def map_conv_bind_option split_def comp_def)
qed

end
