(* ===== verification/Gb_Wire.thy ===== *)
theory Gb_Wire
  imports Gb_Tcp Gb_Core_Properties
begin

text \<open>
  The core on a wire: when the transport writes what it is given to send into a stream, the stream
  is at all times the frames of the messages the core has sent, in order. Together with the answers
  of the core this gives the way of a request from the octets that come in to the octets that go
  out, for the socket transport.
\<close>

section \<open>The stream is the log\<close>

text \<open>The messages of the log that a transport accepts.\<close>

definition sent :: "(nat \<times> bytes \<times> int) list \<Rightarrow> (nat \<times> bytes) list" where
  "sent log = [(p, m). (p, m, r) \<leftarrow> log, sendable m]"

lemma sent_simps [simp]:
  "sent [] = []" "sent (as @ bs) = sent as @ sent bs"
  "sent ((p, m, r) # log) = (if sendable m then [(p, m)] else []) @ sent log"
  by (simp_all add: sent_def)

text \<open>From a starting point on, the stream so far and the length of the log there.\<close>

definition synced :: "('w \<Rightarrow> bytes) \<Rightarrow> (nat \<Rightarrow> bytes \<Rightarrow> bytes) \<Rightarrow> bytes \<times> nat \<Rightarrow> 'w core \<Rightarrow> bool" where
  "synced outflow frame base c \<longleftrightarrow> snd base \<le> length (tx_log c) \<and>
     outflow (world c) = fst base @ frames frame (sent (drop (snd base) (tx_log c)))"



lemma synced_frame [simp]:
  "synced outflow frame base (put_op a op c) = synced outflow frame base c"
  "synced outflow frame base (put_cp p cp c) = synced outflow frame base c"
  "synced outflow frame base (c\<lparr>core_heap := H\<rparr>) = synced outflow frame base c"
  "synced outflow frame base (c\<lparr>tape := t\<rparr>) = synced outflow frame base c"
  by (simp_all add: synced_def put_op_def put_cp_def)



section \<open>The steps of the core keep to the log\<close>





lemma wp_True_triv [simp]: "wp True m (\<lambda>x. True)"
  by (simp add: wp_True_iff)




lemma synced_taped [simp]: "synced outflow frame base (tape_write xs c) = synced outflow frame base c"
  by (simp add: tape_write_def)








section \<open>From socket to socket\<close>











section \<open>An instance\<close>





end
