(* ===== verification/Gb_Serial.thy ===== *)
theory Gb_Serial
  imports Gb_Transport Gb_Samples
begin

text \<open>
  The UART transport, \<^verbatim>\<open>platform/transport-uart.c\<close>. The interrupt puts octets into a ring buffer and
  submits a work item; the work item takes one message out of the ring, waiting for its octets, and
  hands it to the core. The cport of a message travels in the pad octets of its header. The ring
  buffer and the device are parameters; waiting is a phase of the work item, so that interrupts
  come between any two looks at the ring.
\<close>

unbundle bit_operations_syntax

definition GB_MTU :: nat where "GB_MTU = 2048"
definition GB_MAX_PAYLOAD_SIZE :: nat where "GB_MAX_PAYLOAD_SIZE = GB_MTU - HDR_SIZE"
definition UART_RB_SIZE :: nat where "UART_RB_SIZE = GB_MTU + 8"

record 'r ring_api =
  ring_buf_space_get :: "'r \<Rightarrow> nat"
  ring_buf_get :: "'r \<Rightarrow> nat \<Rightarrow> bytes \<times> 'r"
  ring_buf_put :: "'r \<Rightarrow> u8 \<Rightarrow> nat \<times> 'r"

section \<open>The work item\<close>

text \<open>Not running; waiting for a header; waiting for the payload behind the header it has.\<close>

datatype uart_phase = Work_idle | Work_header | Work_payload bytes nat

text \<open>
  One look of the first loop and, when the header is there, what follows up to the second. \<open>mem\<close> says
  whether \<^verbatim>\<open>malloc\<close> succeeds; its result is not checked, a null pointer is written through.
\<close>

definition uart_work_header :: "'r ring_api \<Rightarrow> bool \<Rightarrow> 'r \<Rightarrow> (uart_phase \<times> 'r) option" where
  "uart_work_header api mem ring =
     (if UART_RB_SIZE - ring_buf_space_get api ring < HDR_SIZE then Some (Work_header, ring)
      else if \<not> mem then None
      else
        let (data, ring1) = ring_buf_get api ring HDR_SIZE in do {
          sz \<leftarrow> hdr_size data;
          if unat sz < HDR_SIZE then Some (Work_idle, ring1)
          else
            let psize = unat sz - HDR_SIZE in
            if GB_MAX_PAYLOAD_SIZE < psize then Some (Work_idle, ring1)
            else Some (Work_payload data psize, ring1) })"

text \<open>One look of the second loop; the message and its cport once the payload is there.\<close>

definition uart_work_payload ::
  "'r ring_api \<Rightarrow> bool \<Rightarrow> bytes \<Rightarrow> nat \<Rightarrow> 'r \<Rightarrow> ((nat \<times> bytes) option \<times> uart_phase \<times> 'r) option" where
  "uart_work_payload api mem data psize ring =
     (if UART_RB_SIZE - ring_buf_space_get api ring < psize
      then Some (None, Work_payload data psize, ring)
      else if \<not> mem then None
      else
        let (payload, ring1) = ring_buf_get api ring psize in
        if length payload \<noteq> psize then Some (None, Work_idle, ring1)
        else do {
          cport \<leftarrow> rd16 data 6;
          Some (Some (unat cport, data @ payload), Work_idle, ring1) })"

text \<open>
  The work item with the core behind it. The system's work queue runs it again when it has been
  submitted meanwhile.
\<close>

record 'r uart_state =
  us_ring :: 'r
  us_phase :: uart_phase
  us_submitted :: bool

definition uart_work_step ::
  "'r ring_api \<Rightarrow> bool \<Rightarrow> 'r uart_state \<Rightarrow> ((nat \<times> bytes) option \<times> 'r uart_state) option" where
  "uart_work_step api mem s =
     (case us_phase s of
        Work_idle \<Rightarrow>
          Some (None, if us_submitted s then s\<lparr>us_phase := Work_header, us_submitted := False\<rparr> else s)
      | Work_header \<Rightarrow> do {
          (ph, r) \<leftarrow> uart_work_header api mem (us_ring s); Some (None, s\<lparr>us_ring := r, us_phase := ph\<rparr>) }
      | Work_payload data n \<Rightarrow> do {
          (m, ph, r) \<leftarrow> uart_work_payload api mem data n (us_ring s);
          Some (m, s\<lparr>us_ring := r, us_phase := ph\<rparr>) })"

definition uart_work_fn ::
  "'w env \<Rightarrow> 'r ring_api \<Rightarrow> bool \<Rightarrow> 'r uart_state \<Rightarrow> 'w core \<Rightarrow> ('r uart_state \<times> 'w core) option" where
  "uart_work_fn E api mem s c = do {
     (m, s1) \<leftarrow> uart_work_step api mem s;
     (case m of
        None \<Rightarrow> Some (s1, c)
      | Some (cport, msg) \<Rightarrow> do {
          sz \<leftarrow> hdr_size msg;
          (_, c1) \<leftarrow> greybus_rx_handler E cport (Some msg) (unat sz) c; Some (s1, c1) }) }"

section \<open>The interrupt\<close>

text \<open>An octet: when the ring is full its oldest octet goes first. \<open>False\<close> is a disabled interrupt.\<close>

definition uart_isr_byte :: "'r ring_api \<Rightarrow> u8 \<Rightarrow> 'r \<Rightarrow> bool \<times> 'r" where
  "uart_isr_byte api byte ring =
     (let (ok, ring1) =
        (if ring_buf_space_get api ring = 0 then
           let (ovflw, r) = ring_buf_get api ring 1 in (length ovflw = 1, r)
         else (True, ring)) in
      if \<not> ok then (False, ring1)
      else let (n, ring2) = ring_buf_put api ring1 byte in (n = 1, ring2))"

text \<open>The octets that the device delivers in one interrupt; a failed read is \<open>None\<close>.\<close>

fun uart_isr_loop :: "'r ring_api \<Rightarrow> u8 option list \<Rightarrow> 'r \<Rightarrow> bool \<times> 'r" where
  "uart_isr_loop api [] ring = (True, ring)"
| "uart_isr_loop api (None # bs) ring = (False, ring)"
| "uart_isr_loop api (Some b # bs) ring =
     (let (ok, ring1) = uart_isr_byte api b ring in
      if ok then uart_isr_loop api bs ring1 else (False, ring1))"

text \<open>The Boolean is \<open>False\<close> when receiving has been disabled.\<close>

definition gb_xport_uart_isr :: "'r ring_api \<Rightarrow> u8 option list \<Rightarrow> 'r uart_state \<Rightarrow> bool \<times> 'r uart_state" where
  "gb_xport_uart_isr api reads s =
     (let (ok, r) = uart_isr_loop api reads (us_ring s); s1 = s\<lparr>us_ring := r\<rparr> in
      if \<not> ok then (False, s1)
      else (True, if HDR_SIZE \<le> UART_RB_SIZE - ring_buf_space_get api r then s1\<lparr>us_submitted := True\<rparr> else s1))"

section \<open>Sending\<close>

text \<open>\<^verbatim>\<open>uart_poll_out\<close> on each octet of the message.\<close>

definition sendMessage :: "(u8 \<Rightarrow> 'w \<Rightarrow> 'w) \<Rightarrow> bytes \<Rightarrow> 'w \<Rightarrow> (int \<times> 'w) option" where
  "sendMessage poll_out msg w = do {
     sz \<leftarrow> hdr_size msg; octets \<leftarrow> rd_slice msg 0 (unat sz); Some (0, fold poll_out octets w) }"

text \<open>The first pad octet of the caller's buffer is overwritten before anything is checked.\<close>

definition gb_xport_send ::
  "(u8 \<Rightarrow> 'w \<Rightarrow> 'w) \<Rightarrow> nat \<Rightarrow> bytes option \<Rightarrow> nat \<Rightarrow> 'w \<Rightarrow> (int \<times> bytes option \<times> 'w) option" where
  "gb_xport_send poll_out cport buf len w =
     (case buf of
        None \<Rightarrow> Some (- EINVAL, None, w)
      | Some b \<Rightarrow> do {
          msg \<leftarrow> wr8 b 6 (word_of_nat cport);
          sz \<leftarrow> hdr_size msg;
          if unat sz \<noteq> len \<or> len < HDR_SIZE then Some (- EINVAL, Some msg, w)
          else do { (r, w1) \<leftarrow> sendMessage poll_out msg w; Some (r, Some msg, w1) } })"

section \<open>Start-up\<close>

record 'w uart_api =
  device_get_binding :: "'w \<Rightarrow> nat option \<times> 'w"
  uart_irq_rx_disable :: "nat \<Rightarrow> 'w \<Rightarrow> 'w"
  uart_irq_tx_disable :: "nat \<Rightarrow> 'w \<Rightarrow> 'w"
  uart_irq_callback_set :: "nat \<Rightarrow> 'w \<Rightarrow> 'w"
  uart_irq_rx_ready :: "nat \<Rightarrow> 'w \<Rightarrow> bool \<times> 'w"
  uart_fifo_read :: "nat \<Rightarrow> 'w \<Rightarrow> 'w"
  uart_irq_rx_enable :: "nat \<Rightarrow> 'w \<Rightarrow> 'w"

text \<open>The loop that drains the device: \<open>None\<close> when the device never runs dry.\<close>

partial_function (option) drain_loop :: "'w uart_api \<Rightarrow> nat \<Rightarrow> 'w \<Rightarrow> 'w option" where
  "drain_loop api dev w =
     (let (ready, w1) = uart_irq_rx_ready api dev w in
      if ready then drain_loop api dev (uart_fifo_read api dev w1) else Some w1)"

text \<open>The error code, the bound device and the new state.\<close>

definition gb_xport_uart_init :: "'w uart_api \<Rightarrow> 'w \<Rightarrow> (int \<times> nat option \<times> 'w) option" where
  "gb_xport_uart_init api w =
     (let (uart_dev, w1) = device_get_binding api w in
      case uart_dev of
        None \<Rightarrow> Some (- ENODEV, None, w1)
      | Some dev \<Rightarrow> do {
          w2 \<leftarrow> drain_loop api dev
            (uart_irq_callback_set api dev (uart_irq_tx_disable api dev (uart_irq_rx_disable api dev w1)));
          Some (0, Some dev, uart_irq_rx_enable api dev w2) })"

text \<open>Whether there is a backend, and the new state.\<close>

definition gb_transport_backend_init_uart :: "'w uart_api \<Rightarrow> nat \<Rightarrow> 'w \<Rightarrow> (bool \<times> 'w) option" where
  "gb_transport_backend_init_uart api num_cports w =
     (if 4095 \<le> num_cports then Some (False, w)
      else do { (r, dev, w1) \<leftarrow> gb_xport_uart_init api w; Some (0 \<le> r, w1) })"

section \<open>What the ring promises\<close>

text \<open>A ring holds at most \<open>UART_RB_SIZE\<close> octets, its \<open>content\<close>, and is first in, first out.\<close>

definition ring_ok :: "'r ring_api \<Rightarrow> ('r \<Rightarrow> bytes) \<Rightarrow> bool" where
  "ring_ok api content \<longleftrightarrow>
     (\<forall>r. length (content r) \<le> UART_RB_SIZE \<and> ring_buf_space_get api r = UART_RB_SIZE - length (content r)) \<and>
     (\<forall>r n. \<exists>r'. ring_buf_get api r n = (take n (content r), r') \<and> content r' = drop n (content r)) \<and>
     (\<forall>r b. length (content r) < UART_RB_SIZE \<longrightarrow>
        (\<exists>r'. ring_buf_put api r b = (1, r') \<and> content r' = content r @ [b]))"

lemma ring_okD:
  assumes "ring_ok api content"
  shows "UART_RB_SIZE - ring_buf_space_get api r = length (content r)"
    and "ring_buf_space_get api r = 0 \<longleftrightarrow> length (content r) = UART_RB_SIZE"
proof -
  have "length (content r) \<le> UART_RB_SIZE" "ring_buf_space_get api r = UART_RB_SIZE - length (content r)"
    using assms by (auto simp: ring_ok_def)
  then show "UART_RB_SIZE - ring_buf_space_get api r = length (content r)"
    "ring_buf_space_get api r = 0 \<longleftrightarrow> length (content r) = UART_RB_SIZE" by auto
qed

lemma ring_get:
  assumes "ring_ok api content"
  obtains r' where "ring_buf_get api r n = (take n (content r), r')" and "content r' = drop n (content r)"
  using assms unfolding ring_ok_def by blast

lemma ring_put:
  assumes "ring_ok api content" and "length (content r) < UART_RB_SIZE"
  obtains r' where "ring_buf_put api r b = (1, r')" and "content r' = content r @ [b]"
  using assms unfolding ring_ok_def by blast

section \<open>Messages on the line\<close>

text \<open>A message as it is on the line: the low octet of its cport in the first pad octet.\<close>

definition uart_frame :: "nat \<Rightarrow> bytes \<Rightarrow> bytes" where
  "uart_frame p m = m[6 := word_of_nat p]"

definition uart_good :: "nat \<Rightarrow> bytes \<Rightarrow> bool" where
  "uart_good p m \<longleftrightarrow> sendable m \<and> length m \<le> GB_MTU \<and> m ! 7 = 0 \<and> p < 256"

lemma uart_good_frame:
  assumes "uart_good p m"
  defines "f \<equiv> uart_frame p m"
  shows "length f = length m" and "HDR_SIZE \<le> length f" and "hdr_size f = Some (word_of_nat (length f))"
    and "unat (word_of_nat (length f) :: u16) = length f" and "length f \<le> GB_MTU" and "rd16 f 6 = Some (word_of_nat p)"
proof -
  have m: "HDR_SIZE \<le> length m" "hdr_size m = Some (word_of_nat (length m))" "length m < 65536" "length m \<le> GB_MTU"
    "m ! 7 = 0" "p < 256" using assms(1) sendableD[of m] by (simp_all add: uart_good_def)
  show l: "length f = length m" by (simp add: f_def uart_frame_def)
  show "HDR_SIZE \<le> length f" "unat (word_of_nat (length f) :: u16) = length f" "length f \<le> GB_MTU" using m l by simp_all
  have "hdr_size f = hdr_size m" using m(1) by (simp add: f_def uart_frame_def rd16_def rd8_def)
  then show "hdr_size f = Some (word_of_nat (length f))" using m(2) l by simp
  have "rd16 f 6 = Some (le16 (word_of_nat p) 0)" using m(1,5) by (simp add: f_def uart_frame_def rd16_def rd8_def)
  also have "le16 (word_of_nat p) 0 = word_of_nat p"
    using m(6) by (simp add: le16_def)
  finally show "rd16 f 6 = Some (word_of_nat p)" .
qed

text \<open>The work item from its start to a message, when the octets are there.\<close>

definition uart_receive :: "'r ring_api \<Rightarrow> 'r \<Rightarrow> ((nat \<times> bytes) \<times> 'r) option" where
  "uart_receive api ring = do {
     (ph, r1) \<leftarrow> uart_work_header api True ring;
     (case ph of
        Work_payload data n \<Rightarrow> do { (m, ph2, r2) \<leftarrow> uart_work_payload api True data n r1; pm \<leftarrow> m; Some (pm, r2) }
      | _ \<Rightarrow> None) }"

lemma uart_header_taken:
  assumes r: "ring_ok api content" and g: "uart_good p m" and c: "HDR_SIZE \<le> length (content ring)"
    "take 8 (content ring) = take 8 (uart_frame p m)"
  shows "\<exists>r'. uart_work_header api True ring
      = Some (Work_payload (take 8 (uart_frame p m)) (length (uart_frame p m) - 8), r')
    \<and> content r' = drop 8 (content ring)"
proof -
  let ?f = "uart_frame p m"
  note f = uart_good_frame[OF g]
  from ring_get[OF r, of ring 8] obtain r' where r': "ring_buf_get api ring 8 = (take 8 (content ring), r')"
    "content r' = drop 8 (content ring)" .
  have "hdr_size (take 8 ?f) = Some (word_of_nat (length ?f))" using f(3) by (simp add: rd16_take)
  then show ?thesis
    using r' c f ring_okD(1)[OF r, of ring]
    by (intro exI[of _ r']) (simp add: uart_work_header_def Let_def GB_MAX_PAYLOAD_SIZE_def)
qed

lemma uart_header_frame:
  assumes r: "ring_ok api content" and g: "uart_good p m" and c: "content ring = uart_frame p m @ rest"
  shows "\<exists>r'. uart_work_header api True ring
      = Some (Work_payload (take 8 (uart_frame p m)) (length (uart_frame p m) - 8), r')
    \<and> content r' = drop 8 (uart_frame p m) @ rest"
  using uart_header_taken[OF r g, of ring] c uart_good_frame(2)[OF g] by simp

lemma uart_payload_frame:
  assumes r: "ring_ok api content" and g: "uart_good p m" and c: "content ring = drop 8 (uart_frame p m) @ rest"
  shows "\<exists>r'. uart_work_payload api True (take 8 (uart_frame p m)) (length (uart_frame p m) - 8) ring
      = Some (Some (p, uart_frame p m), Work_idle, r') \<and> content r' = rest"
proof -
  let ?f = "uart_frame p m"
  note f = uart_good_frame[OF g]
  have p: "p < 65536" using g by (simp add: uart_good_def)
  from ring_get[OF r, of ring "length ?f - 8"] obtain r' where
    r': "ring_buf_get api ring (length ?f - 8) = (take (length ?f - 8) (content ring), r')"
    "content r' = drop (length ?f - 8) (content ring)" .
  have "rd16 (take 8 ?f) 6 = Some (word_of_nat p)" using f(6) by (simp add: rd16_take)
  then show ?thesis
    using r' c f(2) p ring_okD(1)[OF r, of ring]
    by (intro exI[of _ r']) (simp add: uart_work_payload_def)
qed

lemma sends_octets:
  assumes "\<And>b w. out (poll_out b w) = out w @ [b]"
  shows "out (fold poll_out xs w) = out w @ xs"
  using assms by (induction xs arbitrary: w) simp_all

lemma uart_send_frame:
  assumes out: "\<And>b w. out (poll_out b w) = out w @ [b]" and s: "sendable m"
  shows "\<exists>w'. gb_xport_send poll_out p (Some m) (length m) w = Some (0, Some (uart_frame p m), w')
    \<and> out w' = out w @ uart_frame p m"
proof -
  let ?f = "uart_frame p m"
  note m = sendableD[OF s]
  have f: "wr8 m 6 (word_of_nat p) = Some ?f" using m(1) by (simp add: wr8_def uart_frame_def)
  have "hdr_size ?f = hdr_size m" using m(1) by (simp add: uart_frame_def rd16_def rd8_def)
  moreover have "length ?f = length m" by (simp add: uart_frame_def)
  ultimately show ?thesis
    using f m sends_octets[where out = out and poll_out = poll_out, OF out]
    by (simp add: gb_xport_send_def sendMessage_def rd_slice_def)
qed

interpretation uart: link uart_good uart_frame uart_frame "\<lambda>r. ring_ok api content" content "uart_receive api"
  "\<lambda>w. \<forall>b w. out (poll_out b w) = out w @ [b]" out
  "\<lambda>p m w. map_option (\<lambda>(r, b, w'). (r, w')) (gb_xport_send poll_out p (Some m) (length m) w)"
proof
  fix ring p m rest
  assume r: "ring_ok api content" and g: "uart_good p m" and c: "content ring = uart_frame p m @ rest"
  from uart_header_frame[OF r g c] obtain r1 where
    r1: "uart_work_header api True ring = Some (Work_payload (take 8 (uart_frame p m)) (length (uart_frame p m) - 8), r1)"
      "content r1 = drop 8 (uart_frame p m) @ rest" by blast
  from uart_payload_frame[OF r g r1(2)] r1(1) r
  show "\<exists>r'. uart_receive api ring = Some ((p, uart_frame p m), r') \<and> ring_ok api content \<and> content r' = rest"
    by (auto simp: uart_receive_def)
next
  fix w p m
  assume out: "\<forall>b w. out (poll_out b w) = out w @ [b]" and "uart_good p m"
  then have "sendable m" by (simp add: uart_good_def)
  with uart_send_frame[where out = out and poll_out = poll_out, of m p w] out
  show "\<exists>w'. map_option (\<lambda>(r, b, w'). (r, w')) (gb_xport_send poll_out p (Some m) (length m) w) = Some (0, w')
      \<and> (\<forall>b w. out (poll_out b w) = out w @ [b]) \<and> out w' = out w @ uart_frame p m" by auto
qed

section \<open>Interrupts and work in any order\<close>

lemma isr_loop_room:
  assumes r: "ring_ok api content"
  shows "length (content ring) + length bs \<le> UART_RB_SIZE \<Longrightarrow>
    \<exists>ring'. uart_isr_loop api (map Some bs) ring = (True, ring') \<and> content ring' = content ring @ bs"
proof (induction bs arbitrary: ring)
  case (Cons b bs)
  then have room: "length (content ring) < UART_RB_SIZE" by simp
  from ring_put[OF r this] obtain r1 where r1: "ring_buf_put api ring b = (1, r1)" "content r1 = content ring @ [b]" .
  have "uart_isr_byte api b ring = (True, r1)"
    using r1(1) room ring_okD(2)[OF r, of ring] by (simp add: uart_isr_byte_def)
  moreover from Cons.IH[of r1] r1(2) Cons.prems obtain r2 where
    "uart_isr_loop api (map Some bs) r1 = (True, r2)" "content r2 = content ring @ b # bs" by auto
  ultimately show ?case by simp
qed simp

lemma isr_room:
  assumes r: "ring_ok api content" and "length (content (us_ring s)) + length bs \<le> UART_RB_SIZE"
  shows "\<exists>r'. gb_xport_uart_isr api (map Some bs) s
      = (True, s\<lparr>us_ring := r', us_submitted := us_submitted s \<or> HDR_SIZE \<le> length (content r')\<rparr>)
    \<and> content r' = content (us_ring s) @ bs"
  using isr_loop_room[OF assms] ring_okD(1)[OF r] by (cases s) (auto simp: gb_xport_uart_isr_def Let_def)

text \<open>
  What is on the line, the state, and what has been handed to the core. An interrupt takes any
  number of octets from the line, as long as the ring has room for them.
\<close>

inductive uart_run ::
  "'r ring_api \<Rightarrow> ('r \<Rightarrow> bytes) \<Rightarrow> bytes \<Rightarrow> bytes \<Rightarrow> 'r uart_state \<Rightarrow> (nat \<times> bytes) list \<Rightarrow> bool"
  for api content line where
  start: "us_phase s = Work_idle \<Longrightarrow> content (us_ring s) = [] \<Longrightarrow> uart_run api content line line s []"
| interrupt: "uart_run api content line (bs @ wire) s ms \<Longrightarrow>
     length (content (us_ring s)) + length bs \<le> UART_RB_SIZE \<Longrightarrow>
     gb_xport_uart_isr api (map Some bs) s = (True, s') \<Longrightarrow> uart_run api content line wire s' ms"
| work: "uart_run api content line wire s ms \<Longrightarrow> uart_work_step api True s = Some (m, s') \<Longrightarrow>
     uart_run api content line wire s' (ms @ (case m of None \<Rightarrow> [] | Some x \<Rightarrow> [x]))"

text \<open>The octets of the line are the messages handed over, the header taken out, the ring and the rest.\<close>

definition uart_split ::
  "('r \<Rightarrow> bytes) \<Rightarrow> (nat \<times> bytes) list \<Rightarrow> bytes \<Rightarrow> 'r uart_state \<Rightarrow> (nat \<times> bytes) list \<Rightarrow> bool" where
  "uart_split content all wire s ms \<longleftrightarrow>
     (\<exists>sofar todo. all = sofar @ todo \<and> ms = map (\<lambda>(p, m). (p, uart_frame p m)) sofar \<and>
        (case us_phase s of
           Work_payload data n \<Rightarrow> (\<exists>p m tl. todo = (p, m) # tl \<and> data = take 8 (uart_frame p m)
              \<and> n = length (uart_frame p m) - 8
              \<and> content (us_ring s) @ wire = drop 8 (uart_frame p m) @ frames uart_frame tl)
         | _ \<Rightarrow> content (us_ring s) @ wire = frames uart_frame todo))"

lemma uart_run_split:
  assumes r: "ring_ok api content" and good: "\<And>p m. (p, m) \<in> set all \<Longrightarrow> uart_good p m"
    and "uart_run api content (frames uart_frame all) wire s ms"
  shows "uart_split content all wire s ms"
  using assms(3)
proof (induction rule: uart_run.induct)
  case (start s)
  then show ?case by (auto simp: uart_split_def intro!: exI[of _ "[]"])
next
  case (interrupt bs wire s ms s')
  from isr_room[OF r interrupt.hyps(2)] interrupt.hyps(3) have
    p: "us_phase s' = us_phase s" and "content (us_ring s') = content (us_ring s) @ bs" by auto
  then have e: "content (us_ring s') @ wire = content (us_ring s) @ bs @ wire" by simp
  show ?case using interrupt.IH unfolding uart_split_def p e .
next
  case (work wire s ms m s')
  from work.IH obtain sofar todo where d: "all = sofar @ todo" "ms = map (\<lambda>(p, m). (p, uart_frame p m)) sofar"
    and ph: "case us_phase s of
           Work_payload data n \<Rightarrow> (\<exists>p m tl. todo = (p, m) # tl \<and> data = take 8 (uart_frame p m)
              \<and> n = length (uart_frame p m) - 8
              \<and> content (us_ring s) @ wire = drop 8 (uart_frame p m) @ frames uart_frame tl)
         | _ \<Rightarrow> content (us_ring s) @ wire = frames uart_frame todo"
    unfolding uart_split_def by blast
  show ?case
  proof (cases "us_phase s")
    case Work_idle
    with work.hyps(2) have "m = None" "us_ring s' = us_ring s" "us_phase s' = Work_idle \<or> us_phase s' = Work_header"
      by (auto simp: uart_work_step_def split: if_splits)
    then show ?thesis using d ph Work_idle
      unfolding uart_split_def by (intro exI[of _ sofar] exI[of _ todo]) auto
  next
    case Work_header
    then have e: "content (us_ring s) @ wire = frames uart_frame todo" using ph by simp
    show ?thesis
    proof (cases "length (content (us_ring s)) < HDR_SIZE")
      case True
      with work.hyps(2) Work_header ring_okD(1)[OF r, of "us_ring s"] have "m = None" "s' = s"
        by (auto simp: uart_work_step_def uart_work_header_def)
      then show ?thesis using work.IH by simp
    next
      case False
      then have "frames uart_frame todo \<noteq> []" using e by auto
      then obtain q x tl where t: "todo = (q, x) # tl" by (cases todo) auto
      have g: "uart_good q x" using good d(1) t by auto
      have "take 8 (content (us_ring s)) = take 8 (uart_frame q x @ frames uart_frame tl)"
        using e t False by (metis frames_simps(2) linorder_not_less take_append take_all_iff append_Nil2 diff_is_0_eq take0)
      then have "take 8 (content (us_ring s)) = take 8 (uart_frame q x)" using uart_good_frame(2)[OF g] by simp
      from uart_header_taken[OF r g _ this] False obtain r' where
        r': "uart_work_header api True (us_ring s)
          = Some (Work_payload (take 8 (uart_frame q x)) (length (uart_frame q x) - 8), r')"
        "content r' = drop 8 (content (us_ring s))" by auto
      have "content r' @ wire = drop 8 (content (us_ring s) @ wire)" using r'(2) False by simp
      also have "\<dots> = drop 8 (uart_frame q x) @ frames uart_frame tl" using e t uart_good_frame(2)[OF g] by simp
      finally have "content r' @ wire = drop 8 (uart_frame q x) @ frames uart_frame tl" .
      moreover have "m = None" "us_phase s' = Work_payload (take 8 (uart_frame q x)) (length (uart_frame q x) - 8)"
        "us_ring s' = r'" using work.hyps(2) Work_header r'(1) by (auto simp: uart_work_step_def)
      ultimately show ?thesis using d t unfolding uart_split_def by (intro exI[of _ sofar] exI[of _ todo]) auto
    qed
  next
    case (Work_payload data n)
    with ph obtain q x tl where t: "todo = (q, x) # tl" "data = take 8 (uart_frame q x)" "n = length (uart_frame q x) - 8"
      and e: "content (us_ring s) @ wire = drop 8 (uart_frame q x) @ frames uart_frame tl" by auto
    have g: "uart_good q x" using good d(1) t by auto
    show ?thesis
    proof (cases "length (content (us_ring s)) < n")
      case True
      with work.hyps(2) Work_payload ring_okD(1)[OF r, of "us_ring s"] have n: "m = None" and s': "us_phase s' = us_phase s"
        "us_ring s' = us_ring s" by (auto simp: uart_work_step_def uart_work_payload_def)
      have "uart_split content all wire s' ms" using work.IH unfolding uart_split_def s' .
      then show ?thesis using n by simp
    next
      case False
      have "take n (content (us_ring s) @ wire) = drop 8 (uart_frame q x)" using e t(3) by simp
      then have "take n (content (us_ring s)) = drop 8 (uart_frame q x)" using False by simp
      then have "content (us_ring s) = drop 8 (uart_frame q x) @ drop n (content (us_ring s))"
        by (metis append_take_drop_id)
      with e obtain rest where rest: "content (us_ring s) = drop 8 (uart_frame q x) @ rest" "rest @ wire = frames uart_frame tl"
        by (metis append.assoc same_append_eq)
      from uart_payload_frame[OF r g rest(1)] obtain r' where
        "uart_work_payload api True data n (us_ring s) = Some (Some (q, uart_frame q x), Work_idle, r')" "content r' = rest"
        using t(2,3) by blast
      with work.hyps(2) Work_payload have "m = Some (q, uart_frame q x)" "us_phase s' = Work_idle" "content (us_ring s') = rest"
        by (auto simp: uart_work_step_def)
      then show ?thesis using d t(1) rest(2)
        unfolding uart_split_def by (intro exI[of _ "sofar @ [(q, x)]"] exI[of _ tl]) auto
    qed
  qed
qed

text \<open>A ring for examples: the first \<open>UART_RB_SIZE\<close> octets of a list.\<close>

definition ring_content :: "bytes \<Rightarrow> bytes" where
  "ring_content r = take UART_RB_SIZE r"

definition sample_ring :: "bytes ring_api" where
  "sample_ring = \<lparr>ring_buf_space_get = (\<lambda>r. UART_RB_SIZE - length (ring_content r)),
     ring_buf_get = (\<lambda>r n. (take n (ring_content r), drop n (ring_content r))),
     ring_buf_put = (\<lambda>r b. if length r < UART_RB_SIZE then (1, r @ [b]) else (0, r))\<rparr>"

lemma sample_ring_ok: "ring_ok sample_ring ring_content"
  by (auto simp: ring_ok_def sample_ring_def ring_content_def min_def split: if_splits)

definition sample_line :: "(nat \<times> bytes) list" where
  "sample_line = [(1, hdr_bytes 9 5 2 0 @ [7]), (2, hdr_bytes 8 6 0 0)]"

definition sample_uart :: "bytes uart_state" where
  "sample_uart = \<lparr>us_ring = [], us_phase = Work_idle, us_submitted = False\<rparr>"

lemma sample_line_good: "(p, m) \<in> set sample_line \<Longrightarrow> uart_good p m"
proof -
  have "sendable (hdr_bytes 9 5 2 0 @ [7])" "sendable (hdr_bytes 8 6 0 0)" by (simp_all add: sendable_def)
  moreover have "(hdr_bytes 9 5 2 0 @ [7]) ! 7 = 0" "hdr_bytes 8 6 0 0 ! 7 = 0"
    by (simp_all add: hdr_bytes_def bytes16_def)
  ultimately show "(p, m) \<in> set sample_line \<Longrightarrow> uart_good p m"
    by (auto simp: sample_line_def uart_good_def GB_MTU_def)
qed

lemma sample_line_room: "length (ring_content (us_ring sample_uart)) + length (frames uart_frame sample_line) \<le> UART_RB_SIZE"
  by (simp add: sample_uart_def ring_content_def sample_line_def uart_frame_def UART_RB_SIZE_def GB_MTU_def)

text \<open>
  C17. However interrupts and the work item take turns, as long as the ring does not overflow the
  messages handed to the core are at all times an initial piece of those on the line, complete, in
  order and with the cports they were sent for.
\<close>

theorem uart_hands_over_in_order:
  assumes "ring_ok api content" and "\<And>p m. (p, m) \<in> set all \<Longrightarrow> uart_good p m"
    and "uart_run api content (frames uart_frame all) wire s ms"
  shows "\<exists>todo. map (\<lambda>(p, m). (p, uart_frame p m)) all = ms @ todo"
  using uart_run_split[OF assms] by (auto simp: uart_split_def)

theorem uart_hands_over_in_order_witness:
  "\<exists>s todo. uart_run sample_ring ring_content (frames uart_frame sample_line) [] s [] \<and>
     map (\<lambda>(p, m). (p, uart_frame p m)) sample_line = [] @ todo"
proof -
  have "uart_run sample_ring ring_content (frames uart_frame sample_line) (frames uart_frame sample_line @ []) sample_uart []"
    using uart_run.start[of sample_uart ring_content sample_ring "frames uart_frame sample_line"]
    by (simp add: sample_uart_def ring_content_def)
  moreover from isr_room[OF sample_ring_ok sample_line_room] obtain s where
    "gb_xport_uart_isr sample_ring (map Some (frames uart_frame sample_line)) sample_uart = (True, s)" by blast
  ultimately have r: "uart_run sample_ring ring_content (frames uart_frame sample_line) [] s []"
    using uart_run.interrupt[where content = ring_content, OF _ sample_line_room] by blast
  from uart_hands_over_in_order[OF sample_ring_ok sample_line_good r] r show ?thesis by blast
qed

text \<open>
  C20. A message can get stuck: when two messages arrive in one interrupt the work item is submitted
  once and hands over the first. The second stays in the ring; the work item is idle, not submitted
  and stays so until another interrupt comes.
\<close>

theorem uart_second_message_waits:
  assumes r: "ring_ok api content" and s: "us_phase s = Work_idle" "content (us_ring s) = []"
    and g: "uart_good p m" "uart_good q x" and room: "length m + length x \<le> UART_RB_SIZE"
  shows "\<exists>s1 s2 s3 s4. gb_xport_uart_isr api (map Some (frames uart_frame [(p, m), (q, x)])) s = (True, s1)
    \<and> uart_work_step api True s1 = Some (None, s2) \<and> uart_work_step api True s2 = Some (None, s3)
    \<and> uart_work_step api True s3 = Some (Some (p, uart_frame p m), s4)
    \<and> content (us_ring s4) = uart_frame q x \<and> us_phase s4 = Work_idle \<and> \<not> us_submitted s4
    \<and> uart_work_step api True s4 = Some (None, s4)"
proof -
  let ?bs = "frames uart_frame [(p, m), (q, x)]"
  have "length (content (us_ring s)) + length ?bs \<le> UART_RB_SIZE"
    using s(2) room uart_good_frame(1)[OF g(1)] uart_good_frame(1)[OF g(2)] by simp
  from isr_room[OF r this] obtain r1 where r1: "gb_xport_uart_isr api (map Some ?bs) s
      = (True, s\<lparr>us_ring := r1, us_submitted := us_submitted s \<or> HDR_SIZE \<le> length (content r1)\<rparr>)"
    "content r1 = uart_frame p m @ uart_frame q x" using s(2) by auto
  have "HDR_SIZE \<le> length (content r1)" using r1(2) uart_good_frame(2)[OF g(1)] by simp
  from uart_header_frame[OF r g(1) r1(2)] obtain r2 where r2: "uart_work_header api True r1
      = Some (Work_payload (take 8 (uart_frame p m)) (length (uart_frame p m) - 8), r2)"
    "content r2 = drop 8 (uart_frame p m) @ uart_frame q x" by blast
  from uart_payload_frame[OF r g(1) r2(2)] obtain r3 where r3: "uart_work_payload api True (take 8 (uart_frame p m))
      (length (uart_frame p m) - 8) r2 = Some (Some (p, uart_frame p m), Work_idle, r3)" "content r3 = uart_frame q x"
    by blast
  let ?s1 = "s\<lparr>us_ring := r1, us_submitted := True\<rparr>"
  let ?s2 = "?s1\<lparr>us_phase := Work_header, us_submitted := False\<rparr>"
  let ?s3 = "?s2\<lparr>us_ring := r2, us_phase := Work_payload (take 8 (uart_frame p m)) (length (uart_frame p m) - 8)\<rparr>"
  let ?s4 = "?s3\<lparr>us_ring := r3, us_phase := Work_idle\<rparr>"
  have "gb_xport_uart_isr api (map Some ?bs) s = (True, ?s1)"
    using r1(1) \<open>HDR_SIZE \<le> length (content r1)\<close> by simp
  moreover have "uart_work_step api True ?s1 = Some (None, ?s2)" using s(1) by (simp add: uart_work_step_def)
  moreover have "uart_work_step api True ?s2 = Some (None, ?s3)" using r2(1) by (simp add: uart_work_step_def)
  moreover have "uart_work_step api True ?s3 = Some (Some (p, uart_frame p m), ?s4)"
    using r3(1) by (simp add: uart_work_step_def)
  moreover have "uart_work_step api True ?s4 = Some (None, ?s4)" by (simp add: uart_work_step_def)
  ultimately show ?thesis using r3(2)
    by (intro exI[of _ ?s1] exI[of _ ?s2] exI[of _ ?s3] exI[of _ ?s4]) simp
qed

theorem uart_second_message_waits_witness:
  "\<exists>s4. ring_content (us_ring s4) = uart_frame 2 (hdr_bytes 8 6 0 0) \<and> us_phase s4 = Work_idle
    \<and> uart_work_step sample_ring True s4 = Some (None, s4)"
proof -
  have "uart_good 1 (hdr_bytes 9 5 2 0 @ [7])" "uart_good 2 (hdr_bytes 8 6 0 0)"
    by (rule sample_line_good, simp add: sample_line_def)+
  from uart_second_message_waits[OF sample_ring_ok _ _ this, of sample_uart]
  show ?thesis by (auto simp: sample_uart_def ring_content_def UART_RB_SIZE_def GB_MTU_def)
qed

end
