(* ===== verification/Gb_Tcpip.thy ===== *)
theory Gb_Tcpip
  imports Gb_Serial Gb_Tcp
begin

text \<open>
  The socket transport with one port per cport, \<^verbatim>\<open>platform/transport-tcpip.c\<close>: a list of contexts
  says which descriptor listens for or is connected to which cport, and a thread polls them all. A
  message on a connection has no cport of its own. The system calls are parameters; a failed one
  yields its error number. The socket options, those of TLS included, are one call. The mutex makes
  each function on the list one step.
\<close>

unbundle bit_operations_syntax

abbreviation (input) E2BIG :: int where "E2BIG \<equiv> 7"

section \<open>The list of contexts\<close>

text \<open>\<^verbatim>\<open>enum fd_context_type\<close>, whose values are the bits of a mask.\<close>

definition FD_CONTEXT_SERVER :: u8 where "FD_CONTEXT_SERVER = 1"
definition FD_CONTEXT_CLIENT :: u8 where "FD_CONTEXT_CLIENT = 2"
definition FD_CONTEXT_ANY :: u8 where "FD_CONTEXT_ANY = 3"

record fd_context =
  fdc_fd :: int
  fdc_cport :: int
  fdc_type :: u8

record 'w posix_api =
  posix_calloc :: "'w alloc_fn"
  posix_free :: "'w \<Rightarrow> 'w"
  posix_recv :: "int \<Rightarrow> nat \<Rightarrow> 'w \<Rightarrow> (int + bytes) \<times> 'w"
  posix_send :: "int \<Rightarrow> bytes \<Rightarrow> 'w \<Rightarrow> (int + nat) \<times> 'w"
  posix_accept :: "int \<Rightarrow> 'w \<Rightarrow> (int + int) \<times> 'w"
  posix_inet_ntop :: "'w \<Rightarrow> bool"
  posix_close :: "int \<Rightarrow> 'w \<Rightarrow> 'w"
  posix_poll :: "int list \<Rightarrow> 'w \<Rightarrow> (int + bool list) \<times> 'w"
  posix_socket :: "'w \<Rightarrow> (int + int) \<times> 'w"
  posix_setsockopt :: "int \<Rightarrow> 'w \<Rightarrow> int \<times> 'w"
  posix_bind :: "int \<Rightarrow> nat \<Rightarrow> 'w \<Rightarrow> int \<times> 'w"
  posix_listen :: "int \<Rightarrow> 'w \<Rightarrow> int \<times> 'w"
  posix_pthread_create :: "'w \<Rightarrow> int \<times> 'w"

definition fd_context_new ::
  "'w posix_api \<Rightarrow> int \<Rightarrow> int \<Rightarrow> u8 \<Rightarrow> 'w \<Rightarrow> fd_context option \<times> 'w" where
  "fd_context_new api fd cport ty w =
     (if fd < 0 then (None, w)
      else if cport < 0 \<or> 4095 < cport then (None, w)
      else if \<not> (ty = FD_CONTEXT_SERVER \<or> ty = FD_CONTEXT_CLIENT) then (None, w)
      else
        let (ok, w1) = posix_calloc api w 32 in
        if \<not> ok then (None, w1)
        else (Some \<lparr>fdc_fd = fd, fdc_cport = cport, fdc_type = ty\<rparr>, w1))"

text \<open>\<^verbatim>\<open>free\<close> of a null pointer does nothing.\<close>

definition fd_context_insert ::
  "'w posix_api \<Rightarrow> int \<Rightarrow> int \<Rightarrow> u8 \<Rightarrow> fd_context list \<Rightarrow> 'w \<Rightarrow> bool \<times> fd_context list \<times> 'w" where
  "fd_context_insert api fd cport ty fds w =
     (case fd_context_new api fd cport ty w of
        (None, w1) \<Rightarrow> (False, fds, w1)
      | (Some ctx, w1) \<Rightarrow>
          if list_ex (\<lambda>cnode. fdc_fd cnode = fdc_fd ctx) fds then (False, fds, posix_free api w1)
          else (True, fds @ [ctx], w1))"

fun fd_context_remove :: "int \<Rightarrow> fd_context list \<Rightarrow> fd_context list" where
  "fd_context_remove fd [] = []"
| "fd_context_remove fd (c # cs) = (if fdc_fd c = fd then cs else c # fd_context_remove fd cs)"

definition fd_context_erase ::
  "'w posix_api \<Rightarrow> int \<Rightarrow> fd_context list \<Rightarrow> 'w \<Rightarrow> bool \<times> fd_context list \<times> 'w" where
  "fd_context_erase api fd fds w =
     (if list_ex (\<lambda>cnode. fdc_fd cnode = fd) fds
      then (True, fd_context_remove fd fds, posix_free api (posix_close api fd w))
      else (False, fds, w))"

fun fd_context_clear :: "'w posix_api \<Rightarrow> fd_context list \<Rightarrow> 'w \<Rightarrow> fd_context list \<times> 'w" where
  "fd_context_clear api [] w = ([], w)"
| "fd_context_clear api (c # cs) w = fd_context_clear api cs (posix_free api (posix_close api (fdc_fd c) w))"

definition fd_context_find :: "int \<Rightarrow> int \<Rightarrow> u8 \<Rightarrow> fd_context list \<Rightarrow> fd_context option" where
  "fd_context_find fd cport ty fds = find (\<lambda>cnode. (fd = - 1 \<or> fd = fdc_fd cnode)
     \<and> (cport = - 1 \<or> cport = fdc_cport cnode) \<and> ty AND fdc_type cnode \<noteq> 0) fds"

definition fd_to_context :: "int \<Rightarrow> fd_context list \<Rightarrow> fd_context option" where
  "fd_to_context fd fds = fd_context_find fd (- 1) FD_CONTEXT_ANY fds"

section \<open>Messages\<close>

text \<open>
  The loop of \<^verbatim>\<open>getMessage\<close>, from \<open>remaining\<close> octets down: \<open>Inl\<close> is the value it returns early.
  More octets than asked for would run over the buffer.
\<close>

function get_loop ::
  "'w posix_api \<Rightarrow> int \<Rightarrow> nat \<Rightarrow> bytes \<Rightarrow> 'w \<Rightarrow> ((int + bytes) \<times> 'w) option" where
  "get_loop api fd remaining data w =
     (if remaining = 0 then Some (Inr data, w)
      else
        (case posix_recv api fd remaining w of
           (Inl e, w1) \<Rightarrow> Some (Inl (- e), w1)
         | (Inr xs, w1) \<Rightarrow>
             if xs = [] then Some (Inl 0, w1)
             else if remaining < length xs then None
             else get_loop api fd (remaining - length xs) (data @ xs) w1))"
  by pat_completeness auto
termination
  by (relation "measure (\<lambda>(api, fd, remaining, data, w). remaining)") auto

declare get_loop.simps [simp del]

text \<open>The result and the message; \<open>Inl r\<close> with \<open>r \<le> 0\<close> is an error or the end of the connection.\<close>

definition getMessage :: "'w posix_api \<Rightarrow> int \<Rightarrow> 'w \<Rightarrow> ((int + bytes) \<times> 'w) option" where
  "getMessage api fd w =
     (let (ok, w1) = posix_calloc api w HDR_SIZE in
      if \<not> ok then Some (Inl (- ENOMEM), w1)
      else do {
        (r, w2) \<leftarrow> get_loop api fd HDR_SIZE [] w1;
        (case r of
           Inl e \<Rightarrow> Some (Inl e, w2)
         | Inr hdr \<Rightarrow> do {
             sz \<leftarrow> hdr_size hdr;
             if unat sz < HDR_SIZE then Some (Inl (- EINVAL), w2)
             else
               let psize = unat sz - HDR_SIZE in
               if GB_MAX_PAYLOAD_SIZE < psize then Some (Inl (- EINVAL), w2)
               else if psize = 0 then Some (Inr hdr, w2)
               else
                 let (ok2, w3) = posix_calloc api w2 (unat sz) in
                 if \<not> ok2 then Some (Inl (- ENOMEM), w3)
                 else get_loop api fd psize hdr w3 }) })"

function send_loop :: "'w posix_api \<Rightarrow> int \<Rightarrow> bytes \<Rightarrow> 'w \<Rightarrow> (int \<times> 'w) option" where
  "send_loop api fd octets w =
     (if octets = [] then Some (0, w)
      else
        (case posix_send api fd octets w of
           (Inl e, w1) \<Rightarrow> Some (- e, w1)
         | (Inr n, w1) \<Rightarrow>
             if n = 0 then Some (- ENOTCONN, w1)
             else if length octets < n then None
             else send_loop api fd (drop n octets) w1))"
  by pat_completeness auto
termination
  by (relation "measure (\<lambda>(api, fd, octets, w). length octets)") auto

declare send_loop.simps [simp del]

definition sendMessage_fd :: "'w posix_api \<Rightarrow> int \<Rightarrow> bytes \<Rightarrow> 'w \<Rightarrow> (int \<times> 'w) option" where
  "sendMessage_fd api fd msg w = do {
     sz \<leftarrow> hdr_size msg; octets \<leftarrow> rd_slice msg 0 (unat sz); send_loop api fd octets w }"

definition gb_xport_send_fd ::
  "'w posix_api \<Rightarrow> nat \<Rightarrow> bytes option \<Rightarrow> nat \<Rightarrow> fd_context list \<Rightarrow> 'w \<Rightarrow> (int \<times> fd_context list \<times> 'w) option" where
  "gb_xport_send_fd api cport buf len fds w =
     (case buf of
        None \<Rightarrow> Some (- EINVAL, fds, w)
      | Some msg \<Rightarrow> do {
          sz \<leftarrow> hdr_size msg;
          if unat sz \<noteq> len \<or> len < HDR_SIZE then Some (- EINVAL, fds, w)
          else
            (case fd_context_find (- 1) (int cport) FD_CONTEXT_CLIENT fds of
               None \<Rightarrow> Some (- EINVAL, fds, w)
             | Some ctx \<Rightarrow> do {
                 (r, w1) \<leftarrow> sendMessage_fd api (fdc_fd ctx) msg w;
                 if r \<noteq> 0 then
                   let (_, fds1, w2) = fd_context_erase api (fdc_fd ctx) fds w1 in Some (r, fds1, w2)
                 else Some (r, fds, w1) }) })"

section \<open>The service thread\<close>

text \<open>When the peer's address cannot be printed the new descriptor is neither kept nor closed.\<close>

definition accept_new_connection ::
  "'w posix_api \<Rightarrow> fd_context \<Rightarrow> fd_context list \<Rightarrow> 'w \<Rightarrow> fd_context list \<times> 'w" where
  "accept_new_connection api ctx fds w =
     (case posix_accept api (fdc_fd ctx) w of
        (Inl e, w1) \<Rightarrow> (fds, w1)
      | (Inr fd, w1) \<Rightarrow>
          if \<not> posix_inet_ntop api w1 then (fds, w1)
          else
            let (ok, fds1, w2) = fd_context_insert api fd (fdc_cport ctx) FD_CONTEXT_CLIENT fds w1 in
            if ok then (fds1, w2) else (fds1, posix_close api fd w2))"

definition handle_client_input ::
  "'w env \<Rightarrow> 'w posix_api \<Rightarrow> fd_context \<Rightarrow> fd_context list \<Rightarrow> 'w core \<Rightarrow> (fd_context list \<times> 'w core) option" where
  "handle_client_input E api ctx fds c = do {
     (m, w) \<leftarrow> getMessage api (fdc_fd ctx) (world c);
     let c1 = c\<lparr>world := w\<rparr>;
     let close_conn = (\<lambda>c. let (_, fds1, w1) = fd_context_erase api (fdc_fd ctx) fds (world c) in
       Some (fds1, c\<lparr>world := posix_free api w1\<rparr>));
     (case m of
        Inl r \<Rightarrow> close_conn c1
      | Inr msg \<Rightarrow> do {
          sz \<leftarrow> hdr_size msg;
          (r, c2) \<leftarrow> greybus_rx_handler E (nat (fdc_cport ctx)) (Some msg) (unat sz) c1;
          if r = 0 then Some (fds, c2\<lparr>world := posix_free api (world c2)\<rparr>) else close_conn c2 }) }"

definition prepare_pollfds :: "nat \<Rightarrow> fd_context list \<Rightarrow> int + int list" where
  "prepare_pollfds array_size fds =
     (if array_size < length fds then Inl (- E2BIG) else Inr (map fdc_fd fds))"

text \<open>The polled descriptors that are ready, one after the other.\<close>

fun service_loop ::
  "'w env \<Rightarrow> 'w posix_api \<Rightarrow> int list \<Rightarrow> fd_context list \<Rightarrow> 'w core \<Rightarrow> (fd_context list \<times> 'w core) option" where
  "service_loop E api [] fds c = Some (fds, c)"
| "service_loop E api (fd # ready) fds c =
     (case fd_to_context fd fds of
        None \<Rightarrow> service_loop E api ready fds c
      | Some ctx \<Rightarrow>
          if fdc_type ctx = FD_CONTEXT_SERVER then
            let (fds1, w) = accept_new_connection api ctx fds (world c) in
            service_loop E api ready fds1 (c\<lparr>world := w\<rparr>)
          else if fdc_type ctx = FD_CONTEXT_CLIENT then do {
            (fds1, c1) \<leftarrow> handle_client_input E api ctx fds c; service_loop E api ready fds1 c1 }
          else service_loop E api ready fds c)"

text \<open>One round: \<open>True\<close> when the thread goes on, \<open>False\<close> when it quits and clears the list.\<close>

definition service_thread ::
  "'w env \<Rightarrow> 'w posix_api \<Rightarrow> nat \<Rightarrow> fd_context list \<Rightarrow> 'w core \<Rightarrow> (bool \<times> fd_context list \<times> 'w core) option" where
  "service_thread E api array_size fds c =
     (let quit = (\<lambda>w. let (fds1, w1) = fd_context_clear api fds w in Some (False, fds1, c\<lparr>world := w1\<rparr>)) in
      case prepare_pollfds array_size fds of
        Inl e \<Rightarrow> quit (world c)
      | Inr pollfds \<Rightarrow>
          if pollfds = [] then quit (world c)
          else
            (case posix_poll api pollfds (world c) of
               (Inl e, w) \<Rightarrow> quit w
             | (Inr revents, w) \<Rightarrow> do {
                 (fds1, c1) \<leftarrow> service_loop E api (map fst (filter snd (zip pollfds revents))) fds (c\<lparr>world := w\<rparr>);
                 Some (True, fds1, c1) }))"

section \<open>Start-up\<close>

text \<open>The ports of the cports \<open>i, i + 1, \<dots>\<close>; the context is on the list before the socket is bound.\<close>

fun netsetup_loop ::
  "'w posix_api \<Rightarrow> nat \<Rightarrow> nat \<Rightarrow> fd_context list \<Rightarrow> 'w \<Rightarrow> int \<times> fd_context list \<times> 'w" where
  "netsetup_loop api 0 i fds w = (0, fds, w)"
| "netsetup_loop api (Suc n) i fds w =
     (case posix_socket api w of
        (Inl e, w1) \<Rightarrow> (- e, fds, w1)
      | (Inr fd, w1) \<Rightarrow>
          let (ok, fds1, w2) = fd_context_insert api fd (int i) FD_CONTEXT_SERVER fds w1 in
          if \<not> ok then (- EINVAL, fds1, posix_close api fd w2)
          else
            let (r3, w3) = posix_setsockopt api fd w2 in
            if r3 \<noteq> 0 then (- r3, fds1, w3)
            else
              let (r4, w4) = posix_bind api fd ((4242 + i) mod 65536) w3 in
              if r4 \<noteq> 0 then (- r4, fds1, w4)
              else
                let (r5, w5) = posix_listen api fd w4 in
                if r5 \<noteq> 0 then (- r5, fds1, w5) else netsetup_loop api n (i + 1) fds1 w5)"

text \<open>\<open>family\<close> says whether one of the two protocol families is configured.\<close>

definition netsetup ::
  "'w posix_api \<Rightarrow> bool \<Rightarrow> nat \<Rightarrow> fd_context list \<Rightarrow> 'w \<Rightarrow> int \<times> fd_context list \<times> 'w" where
  "netsetup api family num_cports fds w =
     (if \<not> family then (- EINVAL, fds, w) else netsetup_loop api num_cports 0 fds w)"

text \<open>Whether there is a backend, the list, and the new state.\<close>

definition gb_transport_backend_init_fd ::
  "'w posix_api \<Rightarrow> bool \<Rightarrow> nat \<Rightarrow> 'w \<Rightarrow> bool \<times> fd_context list \<times> 'w" where
  "gb_transport_backend_init_fd api family num_cports w =
     (if 4095 \<le> num_cports then (False, [], w)
      else
        let (r, fds, w1) = netsetup api family num_cports [] w in
        if r < 0 then let (fds1, w2) = fd_context_clear api fds w1 in (False, fds1, w2)
        else
          let (r2, w2) = posix_pthread_create api w1 in
          if r2 \<noteq> 0 then let (fds1, w3) = fd_context_clear api fds w2 in (False, fds1, w3)
          else (True, fds, w2))"

section \<open>The list stays well-formed\<close>

text \<open>With \<open>n\<close> cports: descriptors occur once and every context is for one of the cports.\<close>

definition fd_context_ok :: "nat \<Rightarrow> fd_context \<Rightarrow> bool" where
  "fd_context_ok n c \<longleftrightarrow> 0 \<le> fdc_fd c \<and> 0 \<le> fdc_cport c \<and> fdc_cport c < int n
     \<and> (fdc_type c = FD_CONTEXT_SERVER \<or> fdc_type c = FD_CONTEXT_CLIENT)"

definition fds_ok :: "nat \<Rightarrow> fd_context list \<Rightarrow> bool" where
  "fds_ok n fds \<longleftrightarrow> distinct (map fdc_fd fds) \<and> list_all (fd_context_ok n) fds"

lemma fds_ok_simps [simp]:
  "fds_ok n []" "fds_ok n (c # cs) \<longleftrightarrow> fdc_fd c \<notin> fdc_fd ` set cs \<and> fd_context_ok n c \<and> fds_ok n cs"
  by (auto simp: fds_ok_def)

lemma fds_ok_append:
  "fds_ok n (as @ bs) \<longleftrightarrow> fds_ok n as \<and> fds_ok n bs \<and> fdc_fd ` set as \<inter> fdc_fd ` set bs = {}"
  by (auto simp: fds_ok_def)

lemma context_new_ok: "fd_context_new api fd cport ty w = (Some c, w') \<Longrightarrow>
    0 \<le> fd \<and> 0 \<le> cport \<and> (ty = FD_CONTEXT_SERVER \<or> ty = FD_CONTEXT_CLIENT) \<and> fdc_fd c = fd \<and> fdc_cport c = cport \<and> fdc_type c = ty"
  by (auto simp: fd_context_new_def Let_def split: if_splits prod.splits)

lemma insert_cases:
  assumes "fd_context_insert api fd cport ty fds w = (ok, fds', w')"
  obtains (failed) "\<not> ok" "fds' = fds"
  | (inserted) c where "ok" "fds' = fds @ [c]" "\<And>n. cport < int n \<Longrightarrow> fd_context_ok n c" "fdc_fd c = fd" "fdc_cport c = cport" "fdc_type c = ty"
      "fd \<notin> fdc_fd ` set fds"
proof (cases "fd_context_new api fd cport ty w")
  case (Pair x w1)
  show thesis
  proof (cases x)
    case None
    then show thesis using assms Pair failed by (simp add: fd_context_insert_def)
  next
    case (Some c)
    note c = context_new_ok[OF Pair[unfolded Some]]
    show thesis
    proof (cases "fd \<in> fdc_fd ` set fds")
      case True
      then have "list_ex (\<lambda>cnode. fdc_fd cnode = fdc_fd c) fds" using c by (auto simp: list_ex_iff)
      then show thesis using assms Pair Some failed by (simp add: fd_context_insert_def)
    next
      case False
      then have "\<not> list_ex (\<lambda>cnode. fdc_fd cnode = fdc_fd c) fds" using c by (metis (mono_tags, lifting) image_eqI list_ex_iff)
      then show thesis using assms Pair Some c False by (intro inserted) (auto simp: fd_context_insert_def fd_context_ok_def)
    qed
  qed
qed

lemma insert_ok:
  assumes "fds_ok n fds" and "fd_context_insert api fd cport ty fds w = (ok, fds', w')" and "cport < int n"
  shows "fds_ok n fds'"
  using assms(2) by (cases rule: insert_cases) (use assms(1,3) in \<open>auto simp: fds_ok_append\<close>)

lemma remove_subset: "set (fd_context_remove fd fds) \<subseteq> set fds"
  by (induction fds) auto

lemma remove_ok: "fds_ok n fds \<Longrightarrow> fds_ok n (fd_context_remove fd fds)"
  using remove_subset by (induction fds) fastforce+

lemma erase_ok [simp]: "fds_ok n fds \<Longrightarrow> fds_ok n (fst (snd (fd_context_erase api fd fds w)))"
  by (simp add: fd_context_erase_def remove_ok)

lemma erase_okD: "snd (fd_context_erase api fd fds w) = (fds', w') \<Longrightarrow> fds_ok n fds \<Longrightarrow> fds_ok n fds'"
  by (metis erase_ok fst_conv)

lemma clear_ok [simp]: "fst (fd_context_clear api fds w) = []"
  by (induction fds arbitrary: w) simp_all

lemma clear_okD: "fd_context_clear api fds w = (fds', w') \<Longrightarrow> fds' = []"
  by (metis clear_ok fst_conv)

lemma send_ok:
  assumes "fds_ok n fds" and "gb_xport_send_fd api cport buf len fds w = Some (r, fds', w')"
  shows "fds_ok n fds'"
proof (cases buf)
  case None
  then show ?thesis using assms by (simp add: gb_xport_send_fd_def)
next
  case (Some msg)
  then show ?thesis
    using assms
    by (cases "fd_context_find (- 1) (int cport) FD_CONTEXT_CLIENT fds")
      (auto simp: gb_xport_send_fd_def bind_eq_Some_conv case_prod_beta split: if_splits dest: erase_okD)
qed

lemma accept_ok:
  assumes "fds_ok n fds" and "ctx \<in> set fds"
  shows "fds_ok n (fst (accept_new_connection api ctx fds w))"
proof -
  have "fdc_cport ctx < int n" using assms by (auto simp: fds_ok_def fd_context_ok_def list_all_iff)
  then have "fds_ok n (fst (snd (fd_context_insert api fd (fdc_cport ctx) ty fds w)))" for fd ty w
    using insert_ok[OF assms(1)] by (cases "fd_context_insert api fd (fdc_cport ctx) ty fds w") auto
  then show ?thesis using assms
    by (auto simp: accept_new_connection_def Let_def case_prod_beta split: sum.splits)
qed

lemma client_input_ok:
  assumes "fds_ok n fds" and "handle_client_input E api ctx fds c = Some (fds', c')"
  shows "fds_ok n fds'"
proof -
  have e: "fds_ok n (fst (snd (fd_context_erase api fd fds w)))" for fd w using assms(1) by simp
  obtain m w where "getMessage api (fdc_fd ctx) (world c) = Some (m, w)"
    using assms(2) by (auto simp: handle_client_input_def bind_eq_Some_conv)
  then show ?thesis
    using assms e by (cases m) (auto simp: handle_client_input_def bind_eq_Some_conv Let_def case_prod_beta split: if_splits)
qed

lemma find_context: "fd_context_find fd cport ty fds = Some ctx \<Longrightarrow> ctx \<in> set fds"
  by (auto simp: fd_context_find_def find_Some_iff)

lemma service_loop_ok:
  "fds_ok n fds \<Longrightarrow> service_loop E api ready fds c = Some (fds', c') \<Longrightarrow> fds_ok n fds'"
proof (induction ready arbitrary: fds c)
  case (Cons fd ready)
  show ?case
  proof (cases "fd_to_context fd fds")
    case (Some ctx)
    obtain f w where a: "accept_new_connection api ctx fds (world c) = (f, w)" by fastforce
    then have f: "fds_ok n f"
      using accept_ok[OF Cons.prems(1) find_context[OF Some[unfolded fd_to_context_def]], of api "world c"] by simp
    show ?thesis
      using Cons.prems Cons.IH[OF f] Cons.IH[OF client_input_ok[OF Cons.prems(1)]] Cons.IH[OF Cons.prems(1)] Some a
      by (auto simp: bind_eq_Some_conv split: if_splits)
  qed (use Cons in simp)
qed simp

lemma service_ok:
  assumes "fds_ok n fds" and "service_thread E api k fds c = Some (b, fds', c')"
  shows "fds_ok n fds'"
proof -
  have "fds_ok n (fst (fd_context_clear api fds w))" for w by simp
  then show ?thesis
    using assms service_loop_ok[OF assms(1)]
    by (fastforce simp: service_thread_def bind_eq_Some_conv Let_def case_prod_beta
        split: sum.splits if_splits prod.splits)
qed

text \<open>After a successful start-up the list holds one server for each cport, in order.\<close>

lemma netsetup_loop_ok:
  "i + k \<le> n \<Longrightarrow> fds_ok n fds \<Longrightarrow> fds_ok n (fst (snd (netsetup_loop api k i fds w)))"
proof (induction k arbitrary: i fds w)
  case (Suc k)
  show ?case
  proof (cases "posix_socket api w")
    case (Pair x w1)
    show ?thesis
    proof (cases x)
      case (Inl e)
      then show ?thesis using Suc.prems(2) Pair by simp
    next
      case (Inr fd)
      obtain ok fds1 w2 where i: "fd_context_insert api fd (int i) FD_CONTEXT_SERVER fds w1 = (ok, fds1, w2)"
        by (metis prod_cases3)
      have ok1: "fds_ok n fds1" using insert_ok[OF Suc.prems(2) i] Suc.prems(1) by simp
      show ?thesis using Pair Inr i ok1 Suc.IH[OF _ ok1] Suc.prems(1) by (simp add: Let_def case_prod_beta)
    qed
  qed
qed simp

lemma netsetup_servers:
  "(\<forall>w e w'. posix_socket api w = (Inl e, w') \<longrightarrow> e \<noteq> 0) \<Longrightarrow>
    netsetup_loop api n i fds w = (0, fds', w') \<Longrightarrow>
    \<exists>cs. fds' = fds @ cs \<and> map fdc_cport cs = map int [i ..< i + n] \<and> (\<forall>c \<in> set cs. fdc_type c = FD_CONTEXT_SERVER)"
proof (induction n arbitrary: i fds w)
  case (Suc n)
  obtain x w1 where x: "posix_socket api w = (x, w1)" by fastforce
  show ?case
  proof (cases x)
    case (Inl e)
    then show ?thesis using Suc.prems x by auto
  next
    case (Inr fd)
    obtain ok fds1 w2 where i: "fd_context_insert api fd (int i) FD_CONTEXT_SERVER fds w1 = (ok, fds1, w2)"
      by (metis prod_cases3)
    from i show ?thesis
    proof (cases rule: insert_cases)
      case failed
      then show ?thesis using Suc.prems(2) x Inr i by simp
    next
      case (inserted c)
      obtain w5 where "netsetup_loop api n (i + 1) fds1 w5 = (0, fds', w')"
        using Suc.prems(2) x Inr i inserted(1) by (auto simp: Let_def case_prod_beta split: if_splits)
      from Suc.IH[OF Suc.prems(1) this] obtain cs where "fds' = fds1 @ cs" "map fdc_cport cs = map int [i + 1 ..< i + 1 + n]"
        "\<forall>c \<in> set cs. fdc_type c = FD_CONTEXT_SERVER" by blast
      then show ?thesis using inserted by (intro exI[of _ "c # cs"]) (simp add: upt_rec[of i])
    qed
  qed
qed simp

text \<open>The list after any number of rounds of the thread and sends of the core, in any order.\<close>

inductive connections :: "'w env \<Rightarrow> 'w posix_api \<Rightarrow> nat \<Rightarrow> fd_context list \<Rightarrow> bool" for E api n where
  opened: "gb_transport_backend_init_fd api family n w = (b, fds, w') \<Longrightarrow> connections E api n fds"
| served: "connections E api n fds \<Longrightarrow> service_thread E api k fds c = Some (b, fds', c') \<Longrightarrow> connections E api n fds'"
| sends: "connections E api n fds \<Longrightarrow> gb_xport_send_fd api cport buf len fds w = Some (r, fds', w')
    \<Longrightarrow> connections E api n fds'"

lemma backend_init_ok:
  assumes "gb_transport_backend_init_fd api family n w = (b, fds, w')"
  shows "fds_ok n fds"
proof -
  have "fds_ok n (fst (snd (netsetup api family n [] w)))"
    using netsetup_loop_ok[of 0 n n "[]" api w] by (simp add: netsetup_def)
  then show ?thesis
    using assms by (auto simp: gb_transport_backend_init_fd_def Let_def case_prod_beta split: if_splits dest: clear_okD)
qed

lemma connections_ok: "connections E api n fds \<Longrightarrow> fds_ok n fds"
  by (induction rule: connections.induct) (auto intro: backend_init_ok service_ok send_ok)

section \<open>A connection\<close>

text \<open>As for the other socket transport: a receive takes octets from the front of \<open>inflow\<close>, a send appends.\<close>

definition posix_in :: "'w posix_api \<Rightarrow> int \<Rightarrow> ('w \<Rightarrow> bytes) \<Rightarrow> bool" where
  "posix_in api fd inflow \<longleftrightarrow>
     (\<forall>n w. 0 < n \<longrightarrow> inflow w \<noteq> [] \<longrightarrow> (\<exists>xs w'. posix_recv api fd n w = (Inr xs, w')
        \<and> xs \<noteq> [] \<and> length xs \<le> n \<and> inflow w = xs @ inflow w')) \<and>
     (\<forall>n w. n \<le> GB_MTU \<longrightarrow> (\<exists>w'. posix_calloc api w n = (True, w') \<and> inflow w' = inflow w))"

definition posix_out :: "'w posix_api \<Rightarrow> int \<Rightarrow> ('w \<Rightarrow> bytes) \<Rightarrow> bool" where
  "posix_out api fd outflow \<longleftrightarrow>
     (\<forall>xs w. xs \<noteq> [] \<longrightarrow> (\<exists>n w'. posix_send api fd xs w = (Inr n, w')
        \<and> 0 < n \<and> n \<le> length xs \<and> outflow w' = outflow w @ take n xs))"

lemma posix_in_recv:
  assumes "posix_in api fd inflow" and "0 < n" and "inflow w \<noteq> []"
  obtains xs w' where "posix_recv api fd n w = (Inr xs, w')" and "xs \<noteq> []" and "length xs \<le> n"
    and "inflow w = xs @ inflow w'"
  using assms unfolding posix_in_def by blast

lemma posix_in_calloc:
  assumes "posix_in api fd inflow" and "n \<le> GB_MTU"
  obtains w' where "posix_calloc api w n = (True, w')" and "inflow w' = inflow w"
  using assms unfolding posix_in_def by blast

lemma posix_out_send:
  assumes "posix_out api fd outflow" and "xs \<noteq> []"
  obtains n w' where "posix_send api fd xs w = (Inr n, w')" and "0 < n" and "n \<le> length xs"
    and "outflow w' = outflow w @ take n xs"
  using assms unfolding posix_out_def by blast

lemma get_loop_stream:
  assumes s: "posix_in api fd inflow"
  shows "inflow w = xs @ rest \<Longrightarrow>
    \<exists>w'. get_loop api fd (length xs) data w = Some (Inr (data @ xs), w') \<and> inflow w' = rest"
proof (induction "length xs" arbitrary: xs data w rule: less_induct)
  case less
  show ?case
  proof (cases "xs = []")
    case True
    then show ?thesis using less.prems by (simp add: get_loop.simps)
  next
    case False
    then have n: "0 < length xs" "inflow w \<noteq> []" using less.prems by auto
    from posix_in_recv[OF s n] obtain ys w1 where ys: "posix_recv api fd (length xs) w = (Inr ys, w1)"
      "ys \<noteq> []" "length ys \<le> length xs" "inflow w = ys @ inflow w1" .
    have e: "ys @ inflow w1 = xs @ rest" using ys(4) less.prems by simp
    then obtain zs where zs: "xs = ys @ zs" "inflow w1 = zs @ rest"
      using ys(3) by (auto simp: append_eq_append_conv2)
    have "length zs < length xs" using zs(1) ys(2) by simp
    from less.hyps[OF this zs(2), of "data @ ys"] obtain w2 where
      "get_loop api fd (length zs) (data @ ys) w1 = Some (Inr ((data @ ys) @ zs), w2)" "inflow w2 = rest" by blast
    then show ?thesis using False ys zs(1) by (subst get_loop.simps) simp
  qed
qed

lemma send_loop_stream:
  assumes s: "posix_out api fd outflow"
  shows "\<exists>w'. send_loop api fd xs w = Some (0, w') \<and> outflow w' = outflow w @ xs"
proof (induction "length xs" arbitrary: xs w rule: less_induct)
  case less
  show ?case
  proof (cases "xs = []")
    case True
    then show ?thesis by (simp add: send_loop.simps)
  next
    case False
    from posix_out_send[OF s False, of w] obtain n w1 where n: "posix_send api fd xs w = (Inr n, w1)"
      "0 < n" "n \<le> length xs" "outflow w1 = outflow w @ take n xs" .
    have "length (drop n xs) < length xs" using n(2) False by simp
    from less.hyps[OF this] obtain w2 where "send_loop api fd (drop n xs) w1 = Some (0, w2)"
      "outflow w2 = outflow w1 @ drop n xs" by blast
    then show ?thesis using False n by (subst send_loop.simps) simp
  qed
qed

text \<open>
  Messages of cport \<open>q\<close> travel as they are, at most \<open>GB_MTU\<close> octets long. The state of the sender is
  the list of contexts and the world, that of the receiver the world.
\<close>

definition fd_good :: "nat \<Rightarrow> nat \<Rightarrow> bytes \<Rightarrow> bool" where
  "fd_good q p m \<longleftrightarrow> p = q \<and> sendable m \<and> length m \<le> GB_MTU"

definition fd_receive :: "'w posix_api \<Rightarrow> int \<Rightarrow> nat \<Rightarrow> 'w \<Rightarrow> ((nat \<times> bytes) \<times> 'w) option" where
  "fd_receive api fd q w = do {
     (r, w1) \<leftarrow> getMessage api fd w; (case r of Inl e \<Rightarrow> None | Inr m \<Rightarrow> Some ((q, m), w1)) }"

definition fd_transmit ::
  "'w posix_api \<Rightarrow> nat \<Rightarrow> bytes \<Rightarrow> fd_context list \<times> 'w \<Rightarrow> (int \<times> fd_context list \<times> 'w) option" where
  "fd_transmit api p m t = gb_xport_send_fd api p (Some m) (length m) (fst t) (snd t)"

definition fd_connected ::
  "'w posix_api \<Rightarrow> nat \<Rightarrow> ('w \<Rightarrow> bytes) \<Rightarrow> fd_context list \<times> 'w \<Rightarrow> bool" where
  "fd_connected api q outflow t \<longleftrightarrow> (\<exists>ctx. fd_context_find (- 1) (int q) FD_CONTEXT_CLIENT (fst t) = Some ctx
     \<and> posix_out api (fdc_fd ctx) outflow)"

lemma getMessage_frame:
  assumes s: "posix_in api fd inflow" and g: "fd_good q p m" and i: "inflow w = m @ rest"
  shows "\<exists>w'. getMessage api fd w = Some (Inr m, w') \<and> inflow w' = rest"
proof -
  have m: "HDR_SIZE \<le> length m" "hdr_size m = Some (word_of_nat (length m))" "length m \<le> GB_MTU"
    "unat (word_of_nat (length m) :: u16) = length m"
    using g sendableD[of m] by (simp_all add: fd_good_def)
  let ?h = "take 8 m"
  have h: "length ?h = 8" "hdr_size ?h = Some (word_of_nat (length m))" using m(1,2) by (simp_all add: rd16_take)
  from posix_in_calloc[OF s, of HDR_SIZE w] obtain w1 where w1: "posix_calloc api w 8 = (True, w1)" "inflow w1 = inflow w"
    by (auto simp: GB_MTU_def)
  have "inflow w1 = ?h @ drop 8 m @ rest" using w1(2) i by simp
  from get_loop_stream[OF s this, of "[]"] h(1) obtain w2 where
    w2: "get_loop api fd 8 [] w1 = Some (Inr ?h, w2)" "inflow w2 = drop 8 m @ rest" by auto
  show ?thesis
  proof (cases "length m = 8")
    case True
    then show ?thesis using w1(1) w2 h m by (simp add: getMessage_def)
  next
    case False
    from posix_in_calloc[OF s m(3), of w2] obtain w3 where
      w3: "posix_calloc api w2 (length m) = (True, w3)" "inflow w3 = drop 8 m @ rest" using w2(2) by metis
    from get_loop_stream[OF s w3(2), of ?h] obtain w4 where
      "get_loop api fd (length m - 8) ?h w3 = Some (Inr m, w4)" "inflow w4 = rest" by auto
    then show ?thesis using w1(1) w2(1) w3(1) h m False
      by (simp add: getMessage_def Let_def GB_MAX_PAYLOAD_SIZE_def)
  qed
qed

lemma fd_transmit_frame:
  assumes c: "fd_connected api q outflow t" and g: "fd_good q p m"
  shows "\<exists>w'. fd_transmit api p m t = Some (0, fst t, w') \<and> outflow w' = outflow (snd t) @ m"
proof -
  from c obtain ctx where ctx: "fd_context_find (- 1) (int q) FD_CONTEXT_CLIENT (fst t) = Some ctx"
    "posix_out api (fdc_fd ctx) outflow" by (auto simp: fd_connected_def)
  from send_loop_stream[OF ctx(2), of m "snd t"] obtain w' where
    w': "send_loop api (fdc_fd ctx) m (snd t) = Some (0, w')" "outflow w' = outflow (snd t) @ m" by blast
  have "p = q" "sendable m" using g by (simp_all add: fd_good_def)
  then show ?thesis using ctx(1) w' sendableD[of m]
    by (simp add: fd_transmit_def gb_xport_send_fd_def sendMessage_fd_def rd_slice_def)
qed

interpretation fd: link "fd_good q" "\<lambda>p m. m" "\<lambda>p m. m" "\<lambda>w. posix_in api fd inflow" inflow "fd_receive api fd q"
  "fd_connected api' q outflow" "\<lambda>t. outflow (snd t)" "fd_transmit api'"
proof
  fix w p m rest
  assume i: "posix_in api fd inflow" and g: "fd_good q p m" and "inflow w = m @ rest"
  from getMessage_frame[OF this] i g
  show "\<exists>w'. fd_receive api fd q w = Some ((p, m), w') \<and> posix_in api fd inflow \<and> inflow w' = rest"
    by (auto simp: fd_receive_def fd_good_def)
next
  fix t :: "fd_context list \<times> _" and p m
  assume c: "fd_connected api' q outflow t" and "fd_good q p m"
  from fd_transmit_frame[OF this] obtain w' where
    "fd_transmit api' p m t = Some (0, fst t, w')" "outflow w' = outflow (snd t) @ m" by blast
  then show "\<exists>t'. fd_transmit api' p m t = Some (0, t') \<and> fd_connected api' q outflow t'
      \<and> outflow (snd t') = outflow (snd t) @ m"
    using c by (intro exI[of _ "(fst t, w')"]) (simp add: fd_connected_def)
qed

text \<open>Sockets for examples: the world is the octets to come and those sent, three at a time.\<close>

definition sample_posix :: "(bytes \<times> bytes) posix_api" where
  "sample_posix = \<lparr>posix_calloc = (\<lambda>w n. (True, w)), posix_free = (\<lambda>w. w),
     posix_recv = (\<lambda>fd n w. (Inr (take (min n 3) (fst w)), drop (min n 3) (fst w), snd w)),
     posix_send = (\<lambda>fd xs w. (Inr (length (take 3 xs)), fst w, snd w @ take 3 xs)),
     posix_accept = (\<lambda>fd w. (Inr (fd + 1), w)), posix_inet_ntop = (\<lambda>w. True), posix_close = (\<lambda>fd w. w),
     posix_poll = (\<lambda>fds w. (Inr (map (\<lambda>fd. True) fds), w)), posix_socket = (\<lambda>w. (Inr 3, w)),
     posix_setsockopt = (\<lambda>fd w. (0, w)), posix_bind = (\<lambda>fd p w. (0, w)), posix_listen = (\<lambda>fd w. (0, w)),
     posix_pthread_create = (\<lambda>w. (0, w))\<rparr>"

lemma sample_posix_streams: "posix_in sample_posix fd fst" "posix_out sample_posix fd snd"
proof -
  have "\<exists>xs w'. posix_recv sample_posix fd n w = (Inr xs, w') \<and> xs \<noteq> [] \<and> length xs \<le> n \<and> fst w = xs @ fst w'"
    if "0 < n" "fst w \<noteq> []" for n w
    using that
    by (intro exI[of _ "take (min n 3) (fst w)"] exI[of _ "(drop (min n 3) (fst w), snd w)"]) (auto simp: sample_posix_def)
  then show "posix_in sample_posix fd fst" by (auto simp: posix_in_def sample_posix_def)
  have "\<exists>n w'. posix_send sample_posix fd xs w = (Inr n, w') \<and> 0 < n \<and> n \<le> length xs \<and> snd w' = snd w @ take n xs"
    if "xs \<noteq> []" for xs w
    using that by (intro exI[of _ "length (take 3 xs)"]) (auto simp: sample_posix_def Suc_le_eq min_def)
  then show "posix_out sample_posix fd snd" by (simp add: posix_out_def)
qed

text \<open>
  C18. The list of contexts stays well-formed: after the start-up for \<open>n\<close> cports and any rounds of the
  thread and sends, in any order and whatever the system calls return, no descriptor is listed
  twice, every descriptor is valid, and every context is a server or a client of one of the \<open>n\<close> cports.
\<close>

theorem contexts_well_formed:
  assumes "connections E api n fds"
  shows "distinct (map fdc_fd fds) \<and> list_all (\<lambda>c. 0 \<le> fdc_fd c \<and> 0 \<le> fdc_cport c \<and> fdc_cport c < int n
    \<and> (fdc_type c = FD_CONTEXT_SERVER \<or> fdc_type c = FD_CONTEXT_CLIENT)) fds"
  using connections_ok[OF assms] by (simp add: fds_ok_def fd_context_ok_def[abs_def])

theorem contexts_well_formed_witness:
  "\<exists>fds. connections sock_env sample_posix 1 fds \<and> length fds = 2 \<and> distinct (map fdc_fd fds)"
proof -
  have "gb_transport_backend_init_fd sample_posix True 1 ([], [])
      = (True, [\<lparr>fdc_fd = 3, fdc_cport = 0, fdc_type = FD_CONTEXT_SERVER\<rparr>], [], [])"
    by (simp add: gb_transport_backend_init_fd_def netsetup_def sample_posix_def fd_context_insert_def fd_context_new_def)
  from connections.opened[OF this] have o: "connections sock_env sample_posix 1
      [\<lparr>fdc_fd = 3, fdc_cport = 0, fdc_type = FD_CONTEXT_SERVER\<rparr>]" by simp
  have "service_thread sock_env sample_posix 4 [\<lparr>fdc_fd = 3, fdc_cport = 0, fdc_type = FD_CONTEXT_SERVER\<rparr>] (sock_core [])
      = Some (True, [\<lparr>fdc_fd = 3, fdc_cport = 0, fdc_type = FD_CONTEXT_SERVER\<rparr>,
          \<lparr>fdc_fd = 4, fdc_cport = 0, fdc_type = FD_CONTEXT_CLIENT\<rparr>], sock_core [])"
    by (simp add: service_thread_def prepare_pollfds_def sample_posix_def fd_to_context_def fd_context_find_def
        accept_new_connection_def fd_context_insert_def fd_context_new_def FD_CONTEXT_SERVER_def FD_CONTEXT_CLIENT_def
        FD_CONTEXT_ANY_def sock_core_def)
  from connections.served[OF o this] contexts_well_formed[OF connections.served[OF o this]] show ?thesis
    by (intro exI[of _ "[\<lparr>fdc_fd = 3, fdc_cport = 0, fdc_type = FD_CONTEXT_SERVER\<rparr>,
          \<lparr>fdc_fd = 4, fdc_cport = 0, fdc_type = FD_CONTEXT_CLIENT\<rparr>]"]) simp
qed

text \<open>
  C19. What the core sends on a cport with a client arrives at the other end of the connection: each
  send succeeds and keeps the list of contexts, and a receiver on the other end gets exactly these
  messages in order, however the stream is cut into pieces.
\<close>

theorem connection_delivers:
  assumes "fd_connected api q outflow t" and "outflow (snd t) = []"
    and "\<And>m. m \<in> set ms \<Longrightarrow> sendable m \<and> length m \<le> GB_MTU" and "posix_in api' fd inflow"
  shows "\<exists>t'. send_all (fd_transmit api) (map (Pair q) ms) t = Some (replicate (length ms) 0, t') \<and>
    (\<forall>v rest. inflow v = outflow (snd t') @ rest \<longrightarrow>
      (\<exists>v'. receive_n (fd_receive api' fd q) (length ms) v = Some (map (Pair q) ms, v') \<and> inflow v' = rest))"
proof -
  have "fd_good q p m" if "(p, m) \<in> set (map (Pair q) ms)" for p m
    using that assms(3) by (auto simp: fd_good_def)
  from fd.delivers[where ms = "map (Pair q) ms" and api = api' and fd = fd and inflow = inflow, OF assms(1,2) this] assms(4) show ?thesis
    by (simp add: comp_def)
qed

theorem connection_delivers_witness:
  "\<exists>t'. send_all (fd_transmit sample_posix) [(0, hdr_bytes 9 5 2 0 @ [7])]
      ([\<lparr>fdc_fd = 4, fdc_cport = 0, fdc_type = FD_CONTEXT_CLIENT\<rparr>], ([], [])) = Some ([0], t')
    \<and> (\<exists>v'. receive_n (fd_receive sample_posix 5 0) 1 (snd (snd t'), []) = Some ([(0, hdr_bytes 9 5 2 0 @ [7])], v'))"
proof -
  let ?t = "([\<lparr>fdc_fd = 4, fdc_cport = 0, fdc_type = FD_CONTEXT_CLIENT\<rparr>], ([], []))"
  let ?m = "hdr_bytes 9 5 2 0 @ [7]"
  have "fd_connected sample_posix 0 snd ?t"
    using sample_posix_streams(2)[of 4] by (simp add: fd_connected_def fd_context_find_def FD_CONTEXT_CLIENT_def)
  moreover have "sendable m \<and> length m \<le> GB_MTU" if "m \<in> set [?m]" for m
    using that by (simp add: sendable_def GB_MTU_def)
  ultimately have "\<exists>t'. send_all (fd_transmit sample_posix) (map (Pair 0) [?m]) ?t = Some (replicate (length [?m]) 0, t') \<and>
    (\<forall>v rest. fst v = snd (snd t') @ rest \<longrightarrow>
      (\<exists>v'. receive_n (fd_receive sample_posix 5 0) (length [?m]) v = Some (map (Pair 0) [?m], v') \<and> fst v' = rest))"
    by (intro connection_delivers[OF _ _ _ sample_posix_streams(1)]) auto
  then obtain t' where
    t': "send_all (fd_transmit sample_posix) (map (Pair 0) [?m]) ?t = Some (replicate (length [?m]) 0, t')"
    "\<And>v rest. fst v = snd (snd t') @ rest \<Longrightarrow> \<exists>v'. receive_n (fd_receive sample_posix 5 0) (length [?m]) v
      = Some (map (Pair 0) [?m], v') \<and> fst v' = rest" by blast
  from t'(1) t'(2)[of "(snd (snd t'), [])" "[]"] show ?thesis by (intro exI[of _ t']) auto
qed

end
