(* ===== verification/Gb_Spi.thy ===== *)
theory Gb_Spi
  imports Gb_I2c
begin

text \<open>
  The SPI protocol, \<^verbatim>\<open>subsys/greybus/spi.c\<close> with the structures of \<^verbatim>\<open>spi-gb.h\<close>, and its platform part
  \<^verbatim>\<open>platform/spi.c\<close>, which pairs the controllers with the devices that know their configuration. A
  transfer request is a list of descriptors and the data of the writes; the handler builds the two
  buffer lists of \<^verbatim>\<open>spi_transceive\<close>. The bus is a parameter: the result, the octets it puts into each
  receive buffer, the new state.
\<close>

unbundle bit_operations_syntax

section \<open>The platform part\<close>

record spi_devpair =
  dp_a :: nat
  dp_b :: nat

fun gb_spidev_from_zephyr_spidev :: "nat option \<Rightarrow> spi_devpair list \<Rightarrow> nat option" where
  "gb_spidev_from_zephyr_spidev dev [] = None"
| "gb_spidev_from_zephyr_spidev dev (p # ps) =
     (if Some (dp_a p) = dev then Some (dp_b p) else gb_spidev_from_zephyr_spidev dev ps)"

text \<open>\<open>mem\<close> says whether \<^verbatim>\<open>realloc\<close> succeeds.\<close>

definition gb_add_spipair :: "bool \<Rightarrow> nat option \<Rightarrow> nat option \<Rightarrow> spi_devpair list \<Rightarrow> int \<times> spi_devpair list" where
  "gb_add_spipair mem a b ps =
     (case (a, b) of
        (Some a, Some b) \<Rightarrow>
          if list_ex (\<lambda>p. dp_a p = a \<or> dp_b p = b) ps then (- EALREADY, ps)
          else if \<not> mem then (- ENOMEM, ps)
          else (0, ps @ [\<lparr>dp_a = a, dp_b = b\<rparr>])
      | _ \<Rightarrow> (- EINVAL, ps))"

record gb_spi_master_config_response =
  smc_bpw_mask :: u32
  smc_min_speed_hz :: u32
  smc_max_speed_hz :: u32
  smc_mode :: u16
  smc_flags :: u16
  smc_num_chipselect :: u8

record gb_spi_device_config_response =
  sdc_mode :: u16
  sdc_bpw :: u8
  sdc_max_speed_hz :: u32
  sdc_device_type :: u8
  sdc_name :: bytes

record spi_cs_control =
  cs_port :: "nat option"
  cs_pin :: nat
  cs_delay :: u32

text \<open>The arrays have \<open>num_peripherals\<close> elements each.\<close>

record greybus_spi_control_config =
  scc_id :: nat
  scc_controller :: "nat option"
  scc_ctrl_rsp :: gb_spi_master_config_response
  scc_periph_rsp :: "gb_spi_device_config_response list"
  scc_cs_control :: "spi_cs_control list"

text \<open>
  \<open>asserts\<close> says whether assertions are compiled in; \<open>bus\<close> is the result of \<^verbatim>\<open>device_get_binding\<close>,
  the two flags are those of the two allocations.
\<close>

definition greybus_spi_control_init ::
  "bool \<Rightarrow> nat option \<Rightarrow> bool \<Rightarrow> bool \<Rightarrow> nat \<Rightarrow> greybus_spi_control_config \<Rightarrow> spi_devpair list \<Rightarrow> dev_map \<Rightarrow>
    (int \<times> spi_devpair list \<times> dev_map) option" where
  "greybus_spi_control_init asserts bus mem1 mem2 dev config ps m =
     (if scc_controller config = None then Some (- ENODEV, ps, m)
      else
        let (r, ps1) = gb_add_spipair mem1 (scc_controller config) (Some dev) ps in
        if asserts \<and> r \<noteq> 0 then None
        else if bus = None then Some (- ENODEV, ps1, m)
        else
          let (r, m1) = gb_add_cport_device_mapping mem2 (scc_id config) (scc_controller config) m in
          Some (if r < 0 then r else 0, ps1, m1))"

definition gb_plat_api_controller_config_response ::
  "greybus_spi_control_config \<Rightarrow> gb_spi_master_config_response" where
  "gb_plat_api_controller_config_response config = scc_ctrl_rsp config"

definition gb_plat_api_num_peripherals :: "greybus_spi_control_config \<Rightarrow> nat" where
  "gb_plat_api_num_peripherals config = length (scc_periph_rsp config)"

text \<open>\<open>Inl\<close> is an error; nothing is copied then.\<close>

definition gb_plat_api_peripheral_config_response ::
  "greybus_spi_control_config \<Rightarrow> u8 \<Rightarrow> int + gb_spi_device_config_response" where
  "gb_plat_api_peripheral_config_response config chip_select =
     (if gb_plat_api_num_peripherals config \<le> unat chip_select then Inl (- EINVAL)
      else Inr (scc_periph_rsp config ! unat chip_select))"

definition gb_plat_api_get_cs_control :: "greybus_spi_control_config \<Rightarrow> u8 \<Rightarrow> int + spi_cs_control" where
  "gb_plat_api_get_cs_control config chip_select =
     (if gb_plat_api_num_peripherals config \<le> unat chip_select then Inl (- EINVAL)
      else if cs_port (scc_cs_control config ! unat chip_select) = None then Inl (- ENODEV)
      else Inr (scc_cs_control config ! unat chip_select))"

section \<open>Configuration requests\<close>

text \<open>Zephyr's \<^verbatim>\<open>struct spi_config\<close>: the operation word as its flags and its word size.\<close>

datatype spi_flag = SPI_MODE_CPHA | SPI_MODE_CPOL | SPI_CS_ACTIVE_HIGH | SPI_TRANSFER_LSB | SPI_MODE_LOOP

record spi_config =
  sc_frequency :: u32
  sc_slave :: u8
  sc_word_size :: u8
  sc_flags :: "spi_flag list"
  sc_cs :: "spi_cs_control option"

text \<open>
  The device numbers of \<open>spi_devices\<close> stand for the instances of the platform part. A receive buffer
  is its length, a transmit buffer its octets; the null buffer has none.
\<close>

record 'w spi_api =
  spi_alloc :: "'w alloc_fn"
  spi_malloc :: "'w alloc_fn"
  spi_free :: "'w \<Rightarrow> 'w"
  spi_asserts :: bool
  spi_cports :: dev_map
  spi_pairs :: "spi_devpair list"
  spi_devices :: "nat \<Rightarrow> greybus_spi_control_config option"
  spi_transceive :: "nat option \<Rightarrow> spi_config \<Rightarrow> bytes list \<Rightarrow> nat list option \<Rightarrow> 'w \<Rightarrow> int \<times> bytes list \<times> 'w"

definition gb_spi_protocol_version :: "'w spi_api \<Rightarrow> 'w handler" where
  "gb_spi_protocol_version api bnd w op = do {
     (ok, op1, w1) \<leftarrow> gb_operation_alloc_response (spi_alloc api) w op 2;
     if \<not> ok then Some (GB_OP_NO_MEMORY, op1, w1)
     else do { op2 \<leftarrow> resp8 op1 0 0; op3 \<leftarrow> resp8 op2 1 1; Some (GB_OP_SUCCESS, op3, w1) } }"

definition device_spi_get_master_config ::
  "'w spi_api \<Rightarrow> nat option \<Rightarrow> (int + gb_spi_master_config_response) option" where
  "device_spi_get_master_config api dev =
     (case gb_spidev_from_zephyr_spidev dev (spi_pairs api) of
        None \<Rightarrow> Some (Inl (- ENODEV))
      | Some gb_spidev \<Rightarrow> do {
          config \<leftarrow> spi_devices api gb_spidev;
          Some (Inr (gb_plat_api_controller_config_response config)) })"

text \<open>The packed structure, little-endian.\<close>

definition write_master_config :: "gb_spi_master_config_response \<Rightarrow> gb_operation \<Rightarrow> gb_operation option" where
  "write_master_config r op = do {
     op1 \<leftarrow> resp32 op 0 (smc_bpw_mask r); op2 \<leftarrow> resp32 op1 4 (smc_min_speed_hz r);
     op3 \<leftarrow> resp32 op2 8 (smc_max_speed_hz r); op4 \<leftarrow> resp16 op3 12 (smc_mode r);
     op5 \<leftarrow> resp16 op4 14 (smc_flags r); resp8 op5 16 (smc_num_chipselect r) }"

definition gb_spi_protocol_master_config :: "'w spi_api \<Rightarrow> 'w handler" where
  "gb_spi_protocol_master_config api bnd w op = do {
     (ok, op1, w1) \<leftarrow> gb_operation_alloc_response (spi_alloc api) w op 17;
     if \<not> ok then Some (GB_OP_NO_MEMORY, op1, w1)
     else do {
       r \<leftarrow> device_spi_get_master_config api (gb_cport_to_device (op_cport op) (spi_cports api));
       (case r of
          Inl ret \<Rightarrow> Some (gb_errno_to_op_result ret, op1, w1)
        | Inr config \<Rightarrow> do { op2 \<leftarrow> write_master_config config op1; Some (GB_OP_SUCCESS, op2, w1) }) } }"

text \<open>
  A controller without platform device is a null pointer here. The error of the platform part is
  seen by an assertion only: without it the response stays as it is, all zero (\<open>None\<close> inside).
\<close>

definition device_spi_get_device_config ::
  "'w spi_api \<Rightarrow> nat option \<Rightarrow> u8 \<Rightarrow> gb_spi_device_config_response option option" where
  "device_spi_get_device_config api dev cs = do {
     gb_spidev \<leftarrow> gb_spidev_from_zephyr_spidev dev (spi_pairs api);
     config \<leftarrow> spi_devices api gb_spidev;
     (case gb_plat_api_peripheral_config_response config cs of
        Inl e \<Rightarrow> if spi_asserts api then None else Some None
      | Inr rsp \<Rightarrow> Some (Some rsp)) }"

definition write_device_config :: "gb_spi_device_config_response \<Rightarrow> gb_operation \<Rightarrow> gb_operation option" where
  "write_device_config r op = do {
     op1 \<leftarrow> resp16 op 0 (sdc_mode r); op2 \<leftarrow> resp8 op1 2 (sdc_bpw r);
     op3 \<leftarrow> resp32 op2 3 (sdc_max_speed_hz r); op4 \<leftarrow> resp8 op3 7 (sdc_device_type r);
     resp_slice op4 8 (sdc_name r) }"

definition gb_spi_protocol_device_config :: "'w spi_api \<Rightarrow> 'w handler" where
  "gb_spi_protocol_device_config api bnd w op = do {
     request_size \<leftarrow> payload_size op;
     if request_size < 1 then Some (GB_OP_INVALID, op, w)
     else do {
       cs \<leftarrow> req8 op 0;
       (ok, op1, w1) \<leftarrow> gb_operation_alloc_response (spi_alloc api) w op 40;
       if \<not> ok then Some (GB_OP_NO_MEMORY, op1, w1)
       else do {
         r \<leftarrow> device_spi_get_device_config api (gb_cport_to_device (op_cport op) (spi_cports api)) cs;
         (case r of
            None \<Rightarrow> Some (GB_OP_SUCCESS, op1, w1)
          | Some rsp \<Rightarrow> do { op2 \<leftarrow> write_device_config rsp op1; Some (GB_OP_SUCCESS, op2, w1) }) } } }"

section \<open>Transfers\<close>

definition GB_SPI_XFER_READ :: u8 where "GB_SPI_XFER_READ = 0x01"
definition GB_SPI_XFER_WRITE :: u8 where "GB_SPI_XFER_WRITE = 0x02"

record gb_spi_transfer_desc =
  sd_speed_hz :: u32
  sd_len :: u32
  sd_delay_usecs :: u16
  sd_cs_change :: u8
  sd_bits_per_word :: u8
  sd_rdwr :: u8

text \<open>\<^verbatim>\<open>request->transfers[i]\<close>: thirteen octets behind chip select, mode and count.\<close>

definition spi_desc :: "gb_operation \<Rightarrow> nat \<Rightarrow> gb_spi_transfer_desc option" where
  "spi_desc op i = do {
     speed \<leftarrow> req32 op (4 + 13 * i); len \<leftarrow> req32 op (8 + 13 * i); delay \<leftarrow> req16 op (12 + 13 * i);
     cs_change \<leftarrow> req8 op (14 + 13 * i); bits \<leftarrow> req8 op (15 + 13 * i); rdwr \<leftarrow> req8 op (16 + 13 * i);
     Some \<lparr>sd_speed_hz = speed, sd_len = len, sd_delay_usecs = delay, sd_cs_change = cs_change,
       sd_bits_per_word = bits, sd_rdwr = rdwr\<rparr> }"

text \<open>
  The loop that checks the descriptors and adds up the reads, in 32 bits: it runs before the size
  of the request has been compared with their number. \<open>Inl\<close> is an early return.
\<close>

fun spi_scan :: "gb_operation \<Rightarrow> u8 \<Rightarrow> nat \<Rightarrow> nat \<Rightarrow> u32 \<Rightarrow> (u8 + u32) option" where
  "spi_scan op bits i 0 rsize = Some (Inr rsize)"
| "spi_scan op bits i (Suc n) rsize = do {
     d \<leftarrow> spi_desc op i;
     let reads = sd_rdwr d AND GB_SPI_XFER_READ \<noteq> 0;
     if reads \<and> sd_len d = 0 then Some (Inl GB_OP_INVALID)
     else if sd_bits_per_word d \<noteq> bits then Some (Inl GB_OP_INVALID)
     else if sd_cs_change d \<noteq> 0 then Some (Inl GB_OP_INVALID)
     else spi_scan op bits (i + 1) n (if reads then rsize + sd_len d else rsize) }"

fun spi_descs :: "gb_operation \<Rightarrow> nat \<Rightarrow> nat \<Rightarrow> gb_spi_transfer_desc list option" where
  "spi_descs op i 0 = Some []"
| "spi_descs op i (Suc n) = do { d \<leftarrow> spi_desc op i; ds \<leftarrow> spi_descs op (i + 1) n; Some (d # ds) }"

text \<open>
  A buffer: an offset in the request or in the response, and a length; \<open>None\<close> is the null buffer. The
  loop fills both at every index; \<open>None\<close> is its exit on a \<^verbatim>\<open>rdwr\<close> that is neither of the three.
\<close>

type_synonym spi_buf = "(nat \<times> nat) option"

fun spi_bufs :: "nat \<Rightarrow> nat \<Rightarrow> gb_spi_transfer_desc list \<Rightarrow> (spi_buf \<times> spi_buf) list option" where
  "spi_bufs write_data read_data [] = Some []"
| "spi_bufs write_data read_data (d # ds) =
     (let n = unat (sd_len d) in
      if sd_rdwr d = GB_SPI_XFER_WRITE then
        map_option (Cons (Some (write_data, n), None)) (spi_bufs (write_data + n) read_data ds)
      else if sd_rdwr d = GB_SPI_XFER_READ then
        map_option (Cons (None, Some (read_data, n))) (spi_bufs write_data (read_data + n) ds)
      else if sd_rdwr d = GB_SPI_XFER_WRITE OR GB_SPI_XFER_READ then
        map_option (Cons (Some (write_data, n), Some (read_data, n))) (spi_bufs (write_data + n) (read_data + n) ds)
      else None)"

text \<open>\<^verbatim>\<open>count\<close> of a buffer set: how many buffers were filled, not the index behind the last.\<close>

definition spi_count :: "spi_buf list \<Rightarrow> nat" where
  "spi_count bs = length (filter (\<lambda>b. b \<noteq> None) bs)"

definition spi_set :: "spi_buf list \<Rightarrow> spi_buf list" where
  "spi_set bs = take (spi_count bs) bs"

text \<open>What the bus reads and writes through the sets.\<close>

fun spi_load :: "gb_operation \<Rightarrow> spi_buf list \<Rightarrow> bytes list option" where
  "spi_load op [] = Some []"
| "spi_load op (b # bs) = do {
     xs \<leftarrow> (case b of None \<Rightarrow> Some [] | Some (off, n) \<Rightarrow> req_slice op off n);
     yss \<leftarrow> spi_load op bs; Some (xs # yss) }"

definition spi_len :: "spi_buf \<Rightarrow> nat" where
  "spi_len b = (case b of None \<Rightarrow> 0 | Some (off, n) \<Rightarrow> n)"

fun spi_store :: "(spi_buf \<times> bytes) list \<Rightarrow> gb_operation \<Rightarrow> gb_operation option" where
  "spi_store [] op = Some op"
| "spi_store ((b, xs) # bs) op = do {
     op1 \<leftarrow> (case b of None \<Rightarrow> Some op | Some (off, n) \<Rightarrow> resp_slice op off (take n xs));
     spi_store bs op1 }"

text \<open>Flags of the mode octet that the code looks at without an effect are left out.\<close>

definition spi_mode_flags :: "u8 \<Rightarrow> spi_flag list" where
  "spi_mode_flags mode =
     (if mode AND 0x01 \<noteq> 0 then [SPI_MODE_CPHA] else []) @ (if mode AND 0x02 \<noteq> 0 then [SPI_MODE_CPOL] else [])
     @ (if mode AND 0x04 \<noteq> 0 then [SPI_CS_ACTIVE_HIGH] else []) @ (if mode AND 0x08 \<noteq> 0 then [SPI_TRANSFER_LSB] else [])
     @ (if mode AND 0x20 \<noteq> 0 then [SPI_MODE_LOOP] else [])"

text \<open>Without a line for the chip select the field of the configuration is not set (\<open>None\<close>).\<close>

definition request_to_spi_config ::
  "'w spi_api \<Rightarrow> u8 \<Rightarrow> u8 \<Rightarrow> u32 \<Rightarrow> u8 \<Rightarrow> nat option \<Rightarrow> (int + spi_config) option" where
  "request_to_spi_config api chip_select mode freq bits_per_word spi_dev =
     (case gb_spidev_from_zephyr_spidev spi_dev (spi_pairs api) of
        None \<Rightarrow> Some (Inl (- ENODEV))
      | Some gb_spidev \<Rightarrow> do {
          config \<leftarrow> spi_devices api gb_spidev;
          let cs = (case gb_plat_api_get_cs_control config chip_select of Inl e \<Rightarrow> None | Inr ctrl \<Rightarrow> Some ctrl);
          Some (Inr \<lparr>sc_frequency = freq, sc_slave = chip_select, sc_word_size = bits_per_word,
            sc_flags = spi_mode_flags mode, sc_cs = cs\<rparr>) })"

text \<open>The part behind the allocations.\<close>

definition spi_run :: "'w spi_api \<Rightarrow> gb_bundle \<Rightarrow> 'w \<Rightarrow> gb_operation \<Rightarrow> gb_spi_transfer_desc list \<Rightarrow> u32 \<Rightarrow>
    (u8 \<times> gb_operation \<times> 'w) option" where
  "spi_run api bnd w op ds rsize =
     (case spi_bufs (4 + 13 * length ds) 0 ds of
        None \<Rightarrow> Some (GB_OP_INVALID, op, spi_free api w)
      | Some bufs \<Rightarrow> do {
          chip_select \<leftarrow> req8 op 0; mode \<leftarrow> req8 op 1;
          dev \<leftarrow> bundle_dev bnd (cport_idx (op_cport op) bnd);
          config \<leftarrow> request_to_spi_config api chip_select mode (sd_speed_hz (ds ! 0)) (sd_bits_per_word (ds ! 0)) dev;
          (case config of
             Inl ret \<Rightarrow> Some (gb_errno_to_op_result (- ret), op, spi_free api w)
           | Inr cfg \<Rightarrow> do {
               txs \<leftarrow> spi_load op (spi_set (map fst bufs));
               let rx = spi_set (map snd bufs);
               let (ret, octets, w1) =
                 spi_transceive api dev cfg txs (if rsize = 0 then None else Some (map spi_len rx)) w;
               op1 \<leftarrow> (if rsize = 0 then Some op else spi_store (zip rx octets) op);
               Some (gb_errno_to_op_result (- ret), op1, spi_free api w1) }) })"

definition gb_spi_protocol_transfer :: "'w spi_api \<Rightarrow> 'w handler" where
  "gb_spi_protocol_transfer api bnd w op = do {
     request_size \<leftarrow> payload_size op;
     if request_size < 4 then Some (GB_OP_INVALID, op, w)
     else do {
       count \<leftarrow> req16 op 2;
       let op_count = unat count;
       if op_count = 0 then Some (GB_OP_SUCCESS, op, w)
       else do {
         bits \<leftarrow> req8 op 15;
         r \<leftarrow> spi_scan op bits 0 op_count 0;
         (case r of
            Inl e \<Rightarrow> Some (e, op, w)
          | Inr rsize \<Rightarrow>
              let (ok, w1) = spi_malloc api w (op_count * 16) in
              if \<not> ok then Some (GB_OP_NO_MEMORY, op, spi_free api w1)
              else if request_size < 4 + 13 * op_count then Some (GB_OP_INVALID, op, spi_free api w1)
              else do {
                (ok2, op1, w2) \<leftarrow> gb_operation_alloc_response (spi_alloc api) w1 op (unat rsize);
                if \<not> ok2 then Some (GB_OP_NO_MEMORY, op1, spi_free api w2)
                else do {
                  ds \<leftarrow> spi_descs op 0 op_count;
                  spi_run api bnd w2 op1 ds rsize } }) } } }"

definition spi_handler :: "'w spi_api \<Rightarrow> nat \<Rightarrow> 'w handler" where
  "spi_handler api n =
     (if n = 1 then gb_spi_protocol_version api
      else if n = 2 then gb_spi_protocol_master_config api
      else if n = 3 then gb_spi_protocol_device_config api
      else if n = 4 then gb_spi_protocol_transfer api
      else (\<lambda>bnd w op. None))"

definition gb_spi_init :: "dev_map \<Rightarrow> nat \<Rightarrow> gb_bundle \<Rightarrow> (int \<times> gb_bundle) option" where
  "gb_spi_init m cport bnd =
     (let i = cport_idx cport bnd; dev = gb_cport_to_device cport m in
      if length (bnd_dev bnd) \<le> i then None
      else Some (if dev = None then - EIO else 0, bnd\<lparr>bnd_dev := (bnd_dev bnd)[i := dev]\<rparr>))"

section \<open>The handlers keep to the interface\<close>

lemma write_config_kept:
  "write_master_config r op = Some op' \<Longrightarrow> kept op op'"
  "write_device_config rd op = Some op' \<Longrightarrow> kept op op'"
  unfolding write_master_config_def write_device_config_def bind_eq_Some_conv
  by (elim exE conjE, meson kept_writes kept_trans)+

lemma wp_spi_atoms:
  "wp True (write_master_config rm op) P \<longleftrightarrow> (\<forall>x. write_master_config rm op = Some x \<longrightarrow> P x)"
  "wp True (write_device_config rd op) Q \<longleftrightarrow> (\<forall>x. write_device_config rd op = Some x \<longrightarrow> Q x)"
  "wp True (device_spi_get_master_config api dev) R \<longleftrightarrow> (\<forall>x. device_spi_get_master_config api dev = Some x \<longrightarrow> R x)"
  "wp True (device_spi_get_device_config api dev cs) S \<longleftrightarrow> (\<forall>x. device_spi_get_device_config api dev cs = Some x \<longrightarrow> S x)"
  by (simp_all add: wp_True_iff)

text \<open>
  The transfer is not among these: the sum of its reads can wrap around, and the block allocated
  for the response is then too short for a header.
\<close>

lemma spi_kept:
  assumes "n \<noteq> 4"
  shows "handler_kept (spi_handler api n)"
  using assms
  by (intro handler_keptI)
     (auto simp: spi_handler_def gb_spi_protocol_version_def gb_spi_protocol_master_config_def
        gb_spi_protocol_device_config_def wp_atoms wp_spi_atoms split: sum.splits option.splits
        dest!: kept_writes kept_alloc write_config_kept intro: kept_trans)

interpretation spi: gb_handler_echo "\<lambda>n. if n = 4 then (\<lambda>bnd w op. None) else spi_handler api n"
  by unfold_locales (auto dest!: handler_keptD[OF spi_kept] simp: kept_def split: if_splits)

section \<open>What the bus sees\<close>

text \<open>A transfer in the abstract, and its encoding as a request.\<close>

datatype spi_xfer = Spi_write bytes | Spi_read nat | Spi_both bytes

definition xfer_tx :: "spi_xfer \<Rightarrow> bytes" where
  "xfer_tx x = (case x of Spi_write xs \<Rightarrow> xs | Spi_read n \<Rightarrow> [] | Spi_both xs \<Rightarrow> xs)"

definition xfer_rx :: "spi_xfer \<Rightarrow> nat" where
  "xfer_rx x = (case x of Spi_write xs \<Rightarrow> 0 | Spi_read n \<Rightarrow> n | Spi_both xs \<Rightarrow> length xs)"

definition xfer_len :: "spi_xfer \<Rightarrow> nat" where
  "xfer_len x = (case x of Spi_write xs \<Rightarrow> length xs | Spi_read n \<Rightarrow> n | Spi_both xs \<Rightarrow> length xs)"

definition xfer_rdwr :: "spi_xfer \<Rightarrow> u8" where
  "xfer_rdwr x = (case x of Spi_write xs \<Rightarrow> 2 | Spi_read n \<Rightarrow> 1 | Spi_both xs \<Rightarrow> 3)"

definition spi_encode_desc :: "u32 \<Rightarrow> u8 \<Rightarrow> spi_xfer \<Rightarrow> bytes" where
  "spi_encode_desc speed bits x =
     bytes32 speed @ bytes32 (word_of_nat (xfer_len x)) @ bytes16 0 @ [0, bits, xfer_rdwr x]"

definition spi_desc_of :: "u32 \<Rightarrow> u8 \<Rightarrow> spi_xfer \<Rightarrow> gb_spi_transfer_desc" where
  "spi_desc_of speed bits x = \<lparr>sd_speed_hz = speed, sd_len = word_of_nat (xfer_len x), sd_delay_usecs = 0,
     sd_cs_change = 0, sd_bits_per_word = bits, sd_rdwr = xfer_rdwr x\<rparr>"

definition spi_encode :: "u8 \<Rightarrow> u8 \<Rightarrow> u32 \<Rightarrow> u8 \<Rightarrow> spi_xfer list \<Rightarrow> bytes" where
  "spi_encode cs mode speed bits xs = [cs, mode] @ bytes16 (word_of_nat (length xs))
     @ concat (map (spi_encode_desc speed bits) xs) @ concat (map xfer_tx xs)"

definition spi_reads :: "spi_xfer list \<Rightarrow> nat" where
  "spi_reads xs = sum_list (map xfer_rx xs)"

definition writers :: "spi_xfer list \<Rightarrow> nat" where
  "writers xs = length (filter (\<lambda>x. xfer_rdwr x \<noteq> 1) xs)"

definition readers :: "spi_xfer list \<Rightarrow> nat" where
  "readers xs = length (filter (\<lambda>x. xfer_rdwr x \<noteq> 2) xs)"

text \<open>A read buffer of \<open>n\<close> octets after the bus has put \<open>xs\<close> into it.\<close>

definition filled :: "nat \<Rightarrow> bytes \<Rightarrow> bytes" where
  "filled n xs = take n xs @ replicate (n - length xs) 0"

text \<open>Transfers that the size fields can express; a read has at least one octet.\<close>

definition xfers_ok :: "spi_xfer list \<Rightarrow> bool" where
  "xfers_ok xs \<longleftrightarrow> xs \<noteq> [] \<and> length xs < 65536 \<and> spi_reads xs < 65528
     \<and> (\<forall>x \<in> set xs. xfer_len x < 2 ^ 32 \<and> (xfer_rdwr x \<noteq> 2 \<longrightarrow> 0 < xfer_rx x))"

lemma length_spi_encode_desc [simp]: "length (spi_encode_desc speed bits x) = 13"
  by (simp add: spi_encode_desc_def)

lemma length_spi_descs [simp]: "length (concat (map (spi_encode_desc speed bits) xs)) = 13 * length xs"
  by (induction xs) simp_all

lemma length_filled [simp]: "length (filled n xs) = n"
  by (simp add: filled_def)

lemma filled_nil [simp]: "filled n [] = replicate n 0"
  by (simp add: filled_def)

lemma filled_0 [simp]: "filled 0 xs = []"
  by (simp add: filled_def)

lemma req32_at:
  assumes "op_request_buffer op = Some (h @ pre @ bytes32 v @ post)" and "length h = 8"
  shows "req32 op (length pre) = Some v"
  using assms by (simp add: req32_def rd32_append_right rd32_bytes32)

lemma req8_at:
  assumes "op_request_buffer op = Some (h @ pre @ v # post)" and "length h = 8"
  shows "req8 op (length pre) = Some v"
  using assms by (simp add: req8_def rd8_append_right rd8_Cons)

lemma spi_desc_encoded:
  assumes b: "op_request_buffer op = Some (h @ pre @ spi_encode_desc speed bits x @ post)" and h: "length h = 8"
    and pre: "length pre = 4 + 13 * i"
  shows "spi_desc op i = Some (spi_desc_of speed bits x)"
proof -
  let ?len = "word_of_nat (xfer_len x) :: u32"
  note e = spi_encode_desc_def[of speed bits x]
  have "req32 op (length pre) = Some speed"
    by (rule req32_at[where h = h and post = "bytes32 ?len @ bytes16 0 @ [0, bits, xfer_rdwr x] @ post"])
       (use b h in \<open>simp_all add: e\<close>)
  moreover have "req32 op (length (pre @ bytes32 speed)) = Some ?len"
    by (rule req32_at[where h = h and post = "bytes16 0 @ [0, bits, xfer_rdwr x] @ post"])
       (use b h in \<open>simp_all add: e\<close>)
  moreover have "req16 op (length (pre @ bytes32 speed @ bytes32 ?len)) = Some 0"
    by (rule req16_at[where h = h and post = "[0, bits, xfer_rdwr x] @ post"]) (use b h in \<open>simp_all add: e\<close>)
  moreover have "req8 op (length (pre @ bytes32 speed @ bytes32 ?len @ bytes16 0)) = Some 0"
    by (rule req8_at[where h = h and post = "[bits, xfer_rdwr x] @ post"]) (use b h in \<open>simp_all add: e\<close>)
  moreover have "req8 op (length (pre @ bytes32 speed @ bytes32 ?len @ bytes16 0 @ [0])) = Some bits"
    by (rule req8_at[where h = h and post = "[xfer_rdwr x] @ post"]) (use b h in \<open>simp_all add: e\<close>)
  moreover have "req8 op (length (pre @ bytes32 speed @ bytes32 ?len @ bytes16 0 @ [0, bits])) = Some (xfer_rdwr x)"
    by (rule req8_at[where h = h and post = post]) (use b h in \<open>simp_all add: e\<close>)
  ultimately show ?thesis using pre by (simp add: spi_desc_def spi_desc_of_def numeral_eq_Suc)
qed

lemma spi_descs_encoded:
  assumes "op_request_buffer op = Some (h @ pre @ concat (map (spi_encode_desc speed bits) xs) @ post)"
    and "length h = 8" and "length pre = 4 + 13 * i"
  shows "spi_descs op i (length xs) = Some (map (spi_desc_of speed bits) xs)"
  using assms
proof (induction xs arbitrary: pre i)
  case (Cons x xs)
  have "spi_desc op i = Some (spi_desc_of speed bits x)"
    using spi_desc_encoded[of op h pre speed bits x "concat (map (spi_encode_desc speed bits) xs) @ post" i] Cons.prems
    by simp
  moreover have "spi_descs op (i + 1) (length xs) = Some (map (spi_desc_of speed bits) xs)"
    by (rule Cons.IH[where pre = "pre @ spi_encode_desc speed bits x"]) (use Cons.prems in simp_all)
  ultimately show ?case by simp
qed simp

text \<open>The check reads the same descriptors.\<close>

lemma scan_desc:
  assumes "xfer_len x < 2 ^ 32" and "xfer_rdwr x \<noteq> 2 \<longrightarrow> 0 < xfer_rx x"
  shows "(if sd_rdwr (spi_desc_of speed bits x) AND GB_SPI_XFER_READ \<noteq> 0 then rsize + sd_len (spi_desc_of speed bits x) else rsize)
      = rsize + word_of_nat (xfer_rx x)"
    and "\<not> (sd_rdwr (spi_desc_of speed bits x) AND GB_SPI_XFER_READ \<noteq> 0 \<and> sd_len (spi_desc_of speed bits x) = 0)"
  using assms
  by (cases x; auto simp: spi_desc_of_def xfer_rdwr_def xfer_rx_def xfer_len_def GB_SPI_XFER_READ_def
        word_of_nat_eq_0_iff dvd_imp_le)+

lemma spi_scan_encoded:
  assumes "spi_descs op i (length xs) = Some (map (spi_desc_of speed bits) xs)"
    and "\<forall>x \<in> set xs. xfer_len x < 2 ^ 32 \<and> (xfer_rdwr x \<noteq> 2 \<longrightarrow> 0 < xfer_rx x)"
  shows "spi_scan op bits i (length xs) rsize = Some (Inr (rsize + word_of_nat (spi_reads xs)))"
  using assms
proof (induction xs arbitrary: i rsize)
  case (Cons x xs)
  let ?d = "spi_desc_of speed bits x"
  have d: "spi_desc op i = Some ?d" and ds: "spi_descs op (i + 1) (length xs) = Some (map (spi_desc_of speed bits) xs)"
    using Cons.prems(1) by (auto simp: bind_eq_Some_conv)
  have x: "xfer_len x < 2 ^ 32" "xfer_rdwr x \<noteq> 2 \<longrightarrow> 0 < xfer_rx x" using Cons.prems(2) by simp_all
  have f: "sd_bits_per_word ?d = bits" "sd_cs_change ?d = 0" by (simp_all add: spi_desc_of_def)
  have "spi_scan op bits (i + 1) (length xs) (rsize + word_of_nat (xfer_rx x))
      = Some (Inr (rsize + word_of_nat (xfer_rx x) + word_of_nat (spi_reads xs)))"
    using Cons.IH[OF ds] Cons.prems(2) by simp
  then show ?case
    using d f scan_desc(1)[OF x, of speed bits rsize] scan_desc(2)[OF x, of speed bits]
    by (simp add: Let_def spi_reads_def add.assoc del: not_None_eq)
qed (simp add: spi_reads_def)

text \<open>The buffers of a list of transfers.\<close>

fun xfer_bufs :: "nat \<Rightarrow> nat \<Rightarrow> spi_xfer list \<Rightarrow> (spi_buf \<times> spi_buf) list" where
  "xfer_bufs wo ro [] = []"
| "xfer_bufs wo ro (Spi_write ws # xs) = (Some (wo, length ws), None) # xfer_bufs (wo + length ws) ro xs"
| "xfer_bufs wo ro (Spi_read n # xs) = (None, Some (ro, n)) # xfer_bufs wo (ro + n) xs"
| "xfer_bufs wo ro (Spi_both ws # xs) =
     (Some (wo, length ws), Some (ro, length ws)) # xfer_bufs (wo + length ws) (ro + length ws) xs"

lemma length_xfer_bufs [simp]: "length (xfer_bufs wo ro xs) = length xs"
  by (induction wo ro xs rule: xfer_bufs.induct) simp_all

lemma spi_bufs_encoded:
  "\<forall>x \<in> set xs. xfer_len x < 2 ^ 32 \<Longrightarrow> spi_bufs wo ro (map (spi_desc_of speed bits) xs) = Some (xfer_bufs wo ro xs)"
  by (induction wo ro xs rule: xfer_bufs.induct)
     (simp_all add: spi_desc_of_def xfer_rdwr_def xfer_len_def GB_SPI_XFER_READ_def GB_SPI_XFER_WRITE_def Let_def)

lemma xfer_bufs_shape:
  "spi_count (map fst (xfer_bufs wo ro xs)) = writers xs"
  "spi_count (map snd (xfer_bufs wo ro xs)) = readers xs"
  "map spi_len (map snd (xfer_bufs wo ro xs)) = map xfer_rx xs"
  by (induction wo ro xs rule: xfer_bufs.induct)
     (simp_all add: spi_count_def writers_def readers_def xfer_rdwr_def spi_len_def xfer_rx_def)

lemma spi_load_encoded:
  assumes "op_request_buffer op = Some (h @ pre @ concat (map xfer_tx xs))" and "length h = 8"
  shows "spi_load op (map fst (xfer_bufs (length pre) ro xs)) = Some (map xfer_tx xs)"
  using assms
proof (induction xs arbitrary: pre ro)
  case (Cons x xs)
  have b: "op_request_buffer op = Some (h @ (pre @ xfer_tx x) @ concat (map xfer_tx xs))" using Cons.prems(1) by simp
  have l: "spi_load op (map fst (xfer_bufs (length pre + length (xfer_tx x)) r xs)) = Some (map xfer_tx xs)" for r
    using Cons.IH[OF b Cons.prems(2)] by simp
  have "req_slice op (length pre) (length (xfer_tx x)) = Some (xfer_tx x)"
    using Cons.prems by (simp add: req_slice_def rd_slice_def)
  then show ?case using l by (cases x) (simp_all add: xfer_tx_def)
qed simp

lemma spi_load_take: "spi_load op bs = Some xss \<Longrightarrow> spi_load op (take k bs) = Some (take k xss)"
  by (induction bs arbitrary: k xss) (auto simp: bind_eq_Some_conv take_Cons' split: nat.splits)

text \<open>The response behind a fixed part, with one section for each transfer.\<close>

lemma spi_store_encoded:
  assumes "length h = 8" and "length octets \<le> length xs"
  shows "spi_store (zip (map snd (xfer_bufs wo (length pre) xs)) octets)
      (answer op h (pre @ concat (map (\<lambda>x. replicate (xfer_rx x) 0) xs)))
    = Some (answer op h (pre @ concat (map2 filled (map xfer_rx xs) (octets @ replicate (length xs - length octets) []))))"
  using assms
proof (induction xs arbitrary: octets pre wo)
  case (Cons x xs)
  show ?case
  proof (cases octets)
    case Nil
    have "concat (map2 filled (map xfer_rx ys) (replicate (length ys) [])) = concat (map (\<lambda>x. replicate (xfer_rx x) 0) ys)" for ys
      by (induction ys) simp_all
    from this[of "x # xs"] show ?thesis using Nil by simp
  next
    case (Cons o1 os)
    then have os: "length os \<le> length xs" using Cons.prems(2) by simp
    let ?f = "filled (xfer_rx x) o1"
    let ?rest = "concat (map (\<lambda>x. replicate (xfer_rx x) 0) xs)"
    note ih = Cons.IH[OF Cons.prems(1) os, where pre = "pre @ ?f"]
    have w: "resp_slice (answer op h (pre @ replicate n 0 @ ?rest)) (length pre) (take n o1)
        = Some (answer op h (pre @ filled n o1 @ ?rest))" for n
      using resp_slice_payload[of h "length pre" "take n o1" "pre @ replicate n 0 @ ?rest"] Cons.prems(1)
      by (simp add: filled_def min_def)
    show ?thesis
      using ih w Cons by (cases x) (simp_all add: xfer_rx_def)
  qed
qed simp

lemma replicate_reads: "replicate (spi_reads xs) 0 = concat (map (\<lambda>x. replicate (xfer_rx x) 0) xs)"
  by (induction xs) (simp_all add: spi_reads_def replicate_add)

lemma readers_0: "\<forall>x \<in> set xs. xfer_rdwr x \<noteq> 2 \<longrightarrow> 0 < xfer_rx x \<Longrightarrow> spi_reads xs = 0 \<Longrightarrow> readers xs = 0"
  by (induction xs) (auto simp: spi_reads_def readers_def)

lemma zip_take: "length ys \<le> k \<Longrightarrow> zip (take k xs) ys = zip xs ys"
  by (rule nth_equalityI) auto

text \<open>
  A request that encodes a list of transfers: what the bus is called with, and the response. Each of
  the two buffer sets ends after as many entries as there are transfers of its kind.
\<close>

lemma spi_transfer_encoded:
  assumes b: "op_request_buffer op = Some (hdr_bytes sz ident ty r @ spi_encode cs mode speed bits xs)"
    and sz: "unat sz = HDR_SIZE + length (spi_encode cs mode speed bits xs)" and ok: "xfers_ok xs"
    and dev: "bundle_dev bnd (cport_idx (op_cport op) bnd) = Some dev"
    and cfg: "request_to_spi_config api cs mode speed bits dev = Some (Inr cfg)"
    and mem: "spi_malloc api w (length xs * 16) = (True, wa)" "spi_alloc api wa (spi_reads xs + HDR_SIZE) = (True, wb)"
    and bus: "spi_transceive api dev cfg (take (writers xs) (map xfer_tx xs))
      (if spi_reads xs = 0 then None else Some (take (readers xs) (map xfer_rx xs))) wb = (ret, octets, wc)"
      "length octets \<le> readers xs"
  shows "gb_spi_protocol_transfer api bnd w op = Some (gb_errno_to_op_result ret,
      answer op (hdr_bytes (word_of_nat (spi_reads xs + HDR_SIZE)) ident (GB_TYPE_RESPONSE_FLAG OR ty) 0)
        (concat (map2 filled (map xfer_rx xs) (octets @ replicate (length xs - length octets) []))), spi_free api wc)"
proof -
  let ?h = "hdr_bytes sz ident ty r" and ?n = "length xs" and ?ds = "map (spi_desc_of speed bits) xs"
  let ?rh = "hdr_bytes (word_of_nat (spi_reads xs + HDR_SIZE)) ident (GB_TYPE_RESPONSE_FLAG OR ty) 0"
  let ?op1 = "answer op ?rh (replicate (spi_reads xs) 0)"
  let ?pre = "[cs, mode] @ bytes16 (word_of_nat ?n)"
  have x: "xs \<noteq> []" "?n < 65536" "spi_reads xs < 65528"
    "\<forall>x \<in> set xs. xfer_len x < 2 ^ 32 \<and> (xfer_rdwr x \<noteq> 2 \<longrightarrow> 0 < xfer_rx x)"
    using ok by (simp_all add: xfers_ok_def)
  have u: "unat (word_of_nat ?n :: u16) = ?n" using x(2) by simp
  have len: "length (spi_encode cs mode speed bits xs) = 4 + 13 * ?n + length (concat (map xfer_tx xs))"
    by (simp add: spi_encode_def)
  have ps: "payload_size op = Some (4 + 13 * ?n + length (concat (map xfer_tx xs)))"
    using b sz len by (simp add: payload_size_def gb_operation_get_request_payload_size_def)
  have r8: "req8 op 0 = Some cs" "req8 op 1 = Some mode"
    using b by (simp_all add: spi_encode_def req8_def rd8_append_right rd8_Cons)
  have cnt: "req16 op 2 = Some (word_of_nat ?n)"
    using req16_at[of op ?h "[cs, mode]"] b by (simp add: spi_encode_def numeral_2_eq_2)
  have ds: "spi_descs op 0 ?n = Some ?ds"
    by (rule spi_descs_encoded[where h = ?h and pre = ?pre and post = "concat (map xfer_tx xs)"])
       (use b in \<open>simp_all add: spi_encode_def\<close>)
  obtain y ys where y: "xs = y # ys" using x(1) by (cases xs) auto
  then have "spi_desc op 0 = Some (spi_desc_of speed bits y)" using ds by (auto simp: bind_eq_Some_conv)
  then have bits: "req8 op 15 = Some bits" by (auto simp: spi_desc_def spi_desc_of_def bind_eq_Some_conv)
  have d0: "sd_speed_hz (?ds ! 0) = speed" "sd_bits_per_word (?ds ! 0) = bits"
    using y by (simp_all add: spi_desc_of_def)
  have scan: "spi_scan op bits 0 ?n 0 = Some (Inr (word_of_nat (spi_reads xs)))"
    using spi_scan_encoded[OF ds x(4), of 0] by simp
  have al: "gb_operation_alloc_response (spi_alloc api) wa op (spi_reads xs) = Some (True, ?op1, wb)"
    using alloc_response_ok[of "spi_alloc api", OF mem(2) b] x(3) by (simp add: answer_def)
  have tu: "unat (word_of_nat (spi_reads xs) :: u32) = spi_reads xs" using x(3) by simp
  then have t0: "(word_of_nat (spi_reads xs) :: u32) = 0 \<longleftrightarrow> spi_reads xs = 0"
    by (simp only: tu flip: unat_eq_zero)
  let ?bufs = "xfer_bufs (4 + 13 * ?n) 0 xs"
  have bufs: "spi_bufs (4 + 13 * length ?ds) 0 ?ds = Some ?bufs" using spi_bufs_encoded x(4) by simp
  have pl: "length (?pre @ concat (map (spi_encode_desc speed bits) xs)) = 4 + 13 * ?n" by simp
  have "op_request_buffer ?op1 = Some (?h @ (?pre @ concat (map (spi_encode_desc speed bits) xs)) @ concat (map xfer_tx xs))"
    using b by (simp add: answer_def spi_encode_def)
  from spi_load_encoded[OF this, of 0] have "spi_load ?op1 (map fst ?bufs) = Some (map xfer_tx xs)"
    unfolding pl by simp
  then have load: "spi_load ?op1 (spi_set (map fst ?bufs)) = Some (take (writers xs) (map xfer_tx xs))"
    using spi_load_take by (simp add: spi_set_def xfer_bufs_shape)
  have rx: "map spi_len (spi_set (map snd ?bufs)) = take (readers xs) (map xfer_rx xs)"
    unfolding spi_set_def xfer_bufs_shape(2) take_map[symmetric] xfer_bufs_shape(3) ..
  have rn: "readers xs \<le> ?n" by (simp add: readers_def)
  let ?p = "concat (map2 filled (map xfer_rx xs) (octets @ replicate (?n - length octets) []))"
  have st: "spi_store (zip (spi_set (map snd ?bufs)) octets) ?op1 = Some (answer op ?rh ?p)"
    using spi_store_encoded[of ?rh octets xs "4 + 13 * ?n" "[]" op] bus(2) rn
    by (simp add: spi_set_def xfer_bufs_shape zip_take replicate_reads)
  have st0: "answer op ?rh ?p = ?op1" if "spi_reads xs = 0"
    using st readers_0[of xs] x(4) that bus(2) by simp
  have req: "req8 ?op1 0 = Some cs" "req8 ?op1 1 = Some mode" "op_cport ?op1 = op_cport op"
    using r8 by (simp_all add: answer_def req8_def)
  let ?rxs = "if (word_of_nat (spi_reads xs) :: u32) = 0 then None else Some (map spi_len (spi_set (map snd ?bufs)))"
  have bus': "spi_transceive api dev cfg (take (writers xs) (map xfer_tx xs)) ?rxs wb = (ret, octets, wc)"
    using bus(1) by (simp only: t0 rx)
  have st': "(if (word_of_nat (spi_reads xs) :: u32) = 0 then Some ?op1
      else spi_store (zip (spi_set (map snd ?bufs)) octets) ?op1) = Some (answer op ?rh ?p)"
  proof (cases "spi_reads xs = 0")
    case True
    show ?thesis unfolding t0 if_P[OF True] st0[OF True] ..
  next
    case False
    show ?thesis unfolding t0 if_not_P[OF False] by (rule st)
  qed
  have "spi_run api bnd wb ?op1 ?ds (word_of_nat (spi_reads xs))
      = Some (gb_errno_to_op_result ret, answer op ?rh ?p, spi_free api wc)"
    unfolding spi_run_def bufs option.case req bind.bind_lunit dev d0 cfg sum.case load Let_def bus' prod.case st'
      gb_errno_neg ..
  then show ?thesis
    using ps cnt bits scan mem(1) al ds x(1) by (simp add: gb_spi_protocol_transfer_def u tu)
qed

text \<open>A controller and a bus for examples: what is received is \<open>1, 2\<close> in every buffer.\<close>

definition sample_spi_config :: greybus_spi_control_config where
  "sample_spi_config = \<lparr>scc_id = 3, scc_controller = Some 7,
     scc_ctrl_rsp = \<lparr>smc_bpw_mask = 0x80, smc_min_speed_hz = 1000, smc_max_speed_hz = 1000000, smc_mode = 0,
       smc_flags = 0, smc_num_chipselect = 1\<rparr>,
     scc_periph_rsp = [\<lparr>sdc_mode = 0, sdc_bpw = 8, sdc_max_speed_hz = 1000000, sdc_device_type = 0,
       sdc_name = replicate 32 0\<rparr>],
     scc_cs_control = [\<lparr>cs_port = Some 9, cs_pin = 4, cs_delay = 0\<rparr>]\<rparr>"

definition sample_spi :: "unit spi_api" where
  "sample_spi = \<lparr>spi_alloc = (\<lambda>w n. (True, w)), spi_malloc = (\<lambda>w n. (True, w)), spi_free = (\<lambda>w. w), spi_asserts = False,
     spi_cports = [\<lparr>me_cport = 3, me_dev = 7\<rparr>], spi_pairs = [\<lparr>dp_a = 7, dp_b = 8\<rparr>],
     spi_devices = [8 \<mapsto> sample_spi_config],
     spi_transceive = (\<lambda>dev cfg tx rx w. (0, (case rx of None \<Rightarrow> [] | Some ns \<Rightarrow> map (\<lambda>n. take n [1, 2]) ns), w))\<rparr>"

definition sample_spi_line :: spi_config where
  "sample_spi_line = \<lparr>sc_frequency = 1000, sc_slave = 0, sc_word_size = 8, sc_flags = [],
     sc_cs = Some \<lparr>cs_port = Some 9, cs_pin = 4, cs_delay = 0\<rparr>\<rparr>"

lemma sample_spi_line:
  "request_to_spi_config sample_spi 0 0 1000 8 (Some 7) = Some (Inr sample_spi_line)"
  by (simp add: request_to_spi_config_def sample_spi_def gb_plat_api_get_cs_control_def
      gb_plat_api_num_peripherals_def sample_spi_config_def spi_mode_flags_def sample_spi_line_def)

lemma uniform_counts:
  assumes "\<forall>x \<in> set xs. xfer_rdwr x = k"
  shows "k = 1 \<Longrightarrow> writers xs = 0" "k \<noteq> 1 \<Longrightarrow> writers xs = length xs"
    and "k = 2 \<Longrightarrow> readers xs = 0" "k \<noteq> 2 \<Longrightarrow> readers xs = length xs"
    and "k = 2 \<Longrightarrow> spi_reads xs = 0"
  using assms by (induction xs) (auto simp: writers_def readers_def spi_reads_def xfer_rdwr_def xfer_rx_def split: spi_xfer.splits)

text \<open>
  C29. Transfers of one kind reach the bus as the request encodes them: all the data of the writes,
  a receive buffer for every read, at the speed and word size of the request; what the bus
  receives comes back in order, transfer by transfer, and its error code is the status.
\<close>

theorem gb_spi_protocol_transfer_uniform:
  assumes "op_request_buffer op = Some (hdr_bytes sz ident ty r @ spi_encode cs mode speed bits xs)"
    and "unat sz = HDR_SIZE + length (spi_encode cs mode speed bits xs)" and "xfers_ok xs"
    and "\<forall>x \<in> set xs. xfer_rdwr x = k"
    and "bundle_dev bnd (cport_idx (op_cport op) bnd) = Some dev"
    and "request_to_spi_config api cs mode speed bits dev = Some (Inr cfg)"
    and "spi_malloc api w (length xs * 16) = (True, wa)" "spi_alloc api wa (spi_reads xs + HDR_SIZE) = (True, wb)"
    and "spi_transceive api dev cfg (if k = 1 then [] else map xfer_tx xs) (if k = 2 then None else Some (map xfer_rx xs)) wb
      = (ret, octets, wc)"
    and "length octets = (if k = 2 then 0 else length xs)"
  shows "gb_spi_protocol_transfer api bnd w op = Some (gb_errno_to_op_result ret,
      answer op (hdr_bytes (word_of_nat (spi_reads xs + HDR_SIZE)) ident (GB_TYPE_RESPONSE_FLAG OR ty) 0)
        (if k = 2 then [] else concat (map2 filled (map xfer_rx xs) octets)), spi_free api wc)"
proof -
  note u = uniform_counts[OF assms(4)]
  have "spi_reads xs = 0 \<Longrightarrow> k = 2"
    using readers_0[of xs] assms(3) u(4) by (auto simp: xfers_ok_def)
  then have "k = 2 \<longleftrightarrow> spi_reads xs = 0" using u(5) by blast
  then have "spi_transceive api dev cfg (take (writers xs) (map xfer_tx xs))
      (if spi_reads xs = 0 then None else Some (take (readers xs) (map xfer_rx xs))) wb = (ret, octets, wc)"
    using assms(9) u by (cases "k = 1") auto
  moreover have "length octets \<le> readers xs" using assms(10) u by (auto split: if_splits)
  moreover have "concat (map2 filled (map xfer_rx xs) (octets @ replicate (length xs - length octets) []))
      = (if k = 2 then [] else concat (map2 filled (map xfer_rx xs) octets))"
  proof (cases "k = 2")
    case True
    then have "octets = []" "spi_reads xs = 0" using assms(10) u(5) by simp_all
    moreover have "concat (map2 filled (map xfer_rx ys) (replicate (length ys) [])) = replicate (spi_reads ys) 0" for ys
      by (induction ys) (simp_all add: spi_reads_def replicate_add)
    ultimately show ?thesis using True by simp
  qed (use assms(10) in simp)
  ultimately show ?thesis using spi_transfer_encoded[OF assms(1-3,5-8)] by simp
qed

theorem gb_spi_protocol_transfer_uniform_witness:
  "gb_spi_protocol_transfer sample_spi sample_i2c_bundle ()
      (sample_operation 3 5 4 (spi_encode 0 0 1000 8 [Spi_both [9, 8, 7], Spi_both [6]]))
    = Some (GB_OP_SUCCESS,
        answer (sample_operation 3 5 4 (spi_encode 0 0 1000 8 [Spi_both [9, 8, 7], Spi_both [6]]))
          (hdr_bytes 12 5 0x84 0) [1, 2, 0, 1], ())"
proof -
  let ?xs = "[Spi_both [9, 8, 7], Spi_both [6]]"
  let ?op = "sample_operation 3 5 4 (spi_encode 0 0 1000 8 ?xs)"
  have l: "length (spi_encode 0 0 1000 8 ?xs) = 34" "spi_reads ?xs = 4" "map xfer_rx ?xs = [3, 1]"
    "map xfer_tx ?xs = [[9, 8, 7], [6]]"
    by (simp_all add: spi_encode_def xfer_tx_def spi_reads_def xfer_rx_def)
  have "gb_spi_protocol_transfer sample_spi sample_i2c_bundle () ?op = Some (gb_errno_to_op_result 0,
      answer ?op (hdr_bytes (word_of_nat (spi_reads ?xs + 8)) 5 (0x80 OR 4) 0)
        (if (3 :: u8) = 2 then [] else concat (map2 filled (map xfer_rx ?xs) [[1, 2], [1]])), spi_free sample_spi ())"
    by (rule gb_spi_protocol_transfer_uniform[where sz = "word_of_nat (8 + 34)" and ident = 5 and ty = 4 and r = 0
          and dev = "Some 7" and wa = "()" and wb = "()" and k = 3, OF _ _ _ _ _ sample_spi_line])
       (simp_all add: l xfers_ok_def xfer_len_def xfer_rdwr_def xfer_rx_def xfer_tx_def bundle_dev_def sample_i2c_bundle_def
          cport_idx_def sample_spi_def)
  then show ?thesis unfolding l by (simp add: gb_errno_to_op_result_def filled_def sample_spi_def)
qed

text \<open>
  C39. A write followed by a read, the usual way to read a register, loses the read: the second
  entry of the receive set is not counted, the bus gets a receive buffer without room, and the
  answer is success with zeros whatever the device has sent.
\<close>

theorem gb_spi_protocol_transfer_read_lost:
  assumes "op_request_buffer op = Some (hdr_bytes sz ident ty r @ spi_encode cs mode speed bits [Spi_write xs, Spi_read n])"
    and "unat sz = HDR_SIZE + length (spi_encode cs mode speed bits [Spi_write xs, Spi_read n])" and "0 < n" and "n < 65528"
    and "bundle_dev bnd (cport_idx (op_cport op) bnd) = Some dev"
    and "request_to_spi_config api cs mode speed bits dev = Some (Inr cfg)"
    and "spi_malloc api w 32 = (True, wa)" "spi_alloc api wa (n + HDR_SIZE) = (True, wb)"
    and "spi_transceive api dev cfg [xs] (Some [0]) wb = (0, [octets], wc)"
  shows "gb_spi_protocol_transfer api bnd w op = Some (GB_OP_SUCCESS,
      answer op (hdr_bytes (word_of_nat (n + HDR_SIZE)) ident (GB_TYPE_RESPONSE_FLAG OR ty) 0) (replicate n 0), spi_free api wc)"
proof -
  let ?xs = "[Spi_write xs, Spi_read n]"
  have "length (spi_encode cs mode speed bits ?xs) < 65536" using assms(2) unat_u16_lt[of sz] by linarith
  then have "xfers_ok ?xs"
    using assms(3,4) by (simp add: xfers_ok_def spi_reads_def xfer_rx_def xfer_len_def xfer_rdwr_def spi_encode_def xfer_tx_def)
  moreover have "writers ?xs = 1" "readers ?xs = 1" "spi_reads ?xs = n" "map xfer_rx ?xs = [0, n]" "map xfer_tx ?xs = [xs, []]"
    by (simp_all add: writers_def readers_def spi_reads_def xfer_rdwr_def xfer_rx_def xfer_tx_def)
  ultimately show ?thesis
    using spi_transfer_encoded[OF assms(1,2) _ assms(5,6), of w wa wb 0 "[octets]" wc] assms(3,7,8,9)
    by (simp add: gb_errno_to_op_result_def del: of_nat_add)
qed

theorem gb_spi_protocol_transfer_read_lost_witness:
  "gb_spi_protocol_transfer sample_spi sample_i2c_bundle ()
      (sample_operation 3 5 4 (spi_encode 0 0 1000 8 [Spi_write [9], Spi_read 2]))
    = Some (GB_OP_SUCCESS,
        answer (sample_operation 3 5 4 (spi_encode 0 0 1000 8 [Spi_write [9], Spi_read 2]))
          (hdr_bytes 10 5 0x84 0) [0, 0], ())"
proof -
  let ?op = "sample_operation 3 5 4 (spi_encode 0 0 1000 8 [Spi_write [9], Spi_read 2])"
  have l: "length (spi_encode 0 0 1000 8 [Spi_write [9], Spi_read 2]) = 31"
    by (simp add: spi_encode_def xfer_tx_def)
  have "gb_spi_protocol_transfer sample_spi sample_i2c_bundle () ?op = Some (GB_OP_SUCCESS,
      answer ?op (hdr_bytes (word_of_nat (2 + 8)) 5 (0x80 OR 4) 0) (replicate 2 0), spi_free sample_spi ())"
    by (rule gb_spi_protocol_transfer_read_lost[where sz = "word_of_nat (8 + 31)" and ident = 5 and ty = 4 and r = 0
          and dev = "Some 7" and wa = "()" and wb = "()" and octets = "[]" and xs = "[9]" and n = 2, OF _ _ _ _ _ sample_spi_line])
       (simp_all add: l bundle_dev_def sample_i2c_bundle_def cport_idx_def sample_spi_def)
  then show ?thesis by (simp add: numeral_2_eq_2 sample_spi_def)
qed

text \<open>
  A configuration request is not checked: for a chip select the controller does not have the
  answer is success with a configuration of zeros, or a failed assertion, and for a cport whose
  device has no platform part a null pointer is followed.
\<close>

theorem gb_spi_protocol_device_config_unchecked:
  assumes "op_ok n op" and "payload_size op = Some k" and "1 \<le> k" and "req8 op 0 = Some cs" and "\<And>w n. fst (spi_alloc api w n)"
  defines "dev \<equiv> gb_spidev_from_zephyr_spidev (gb_cport_to_device (op_cport op) (spi_cports api)) (spi_pairs api)"
  shows "(dev = None \<longrightarrow> gb_spi_protocol_device_config api bnd w op = None) \<and>
    (\<forall>d config. dev = Some d \<longrightarrow> spi_devices api d = Some config \<longrightarrow> gb_plat_api_num_peripherals config \<le> unat cs \<longrightarrow>
      (if spi_asserts api then gb_spi_protocol_device_config api bnd w op = None
       else \<exists>h w'. length h = HDR_SIZE
         \<and> gb_spi_protocol_device_config api bnd w op = Some (GB_OP_SUCCESS, answer op h (replicate 40 0), w')))"
proof -
  have "(40 :: nat) < 65528" by simp
  from alloc_succeeds[where al = "spi_alloc api" and w = w, OF assms(1) this assms(5)] obtain h w' where h: "length h = 8"
    "gb_operation_alloc_response (spi_alloc api) w op 40 = Some (True, answer op h (replicate 40 0), w')" by blast
  have "op_cport (answer op h p) = op_cport op" for p by (simp add: answer_def)
  then show ?thesis using assms(2,3,4) h unfolding dev_def
    by (auto simp: gb_spi_protocol_device_config_def device_spi_get_device_config_def
        gb_plat_api_peripheral_config_response_def split: option.splits)
qed

theorem gb_spi_protocol_device_config_unchecked_witness:
  "\<exists>h w'. gb_spi_protocol_device_config sample_spi sample_i2c_bundle () (sample_operation 3 5 3 [7])
    = Some (GB_OP_SUCCESS, answer (sample_operation 3 5 3 [7]) h (replicate 40 0), w')"
proof -
  let ?op = "sample_operation 3 5 3 [7]"
  have "op_ok 4 ?op" by (rule sample_operation_ok) simp_all
  moreover have "payload_size ?op = Some 1" "req8 ?op 0 = Some 7"
    by (simp_all add: sample_operation_payload req8_def rd8_def nth_append)
  moreover have "fst (spi_alloc sample_spi w n)" for w n by (simp add: sample_spi_def)
  moreover have "gb_plat_api_num_peripherals sample_spi_config \<le> unat (7 :: u8)"
    by (simp add: gb_plat_api_num_peripherals_def sample_spi_config_def)
  ultimately show ?thesis
    using gb_spi_protocol_device_config_unchecked[of 4 ?op 1 7 sample_spi sample_i2c_bundle "()"]
    by (simp add: sample_spi_def) blast
qed

end
