(* ===== verification/Gb_Driver.thy ===== *)
theory Gb_Driver
  imports Gb_Handler
begin

text \<open>
  The idioms that the handlers of the smaller drivers are written in, as functions on handlers: the
  size check of a request, the allocation of a response, the version answer, a device call whose
  error becomes the status, and an event for the host. The interface \<open>gb_handler_safe\<close> adds to
  \<open>gb_handler\<close> that a well-formed request never makes a handler touch memory outside its
  buffers. \<open>drv_bundle\<close> is what such a driver keeps in its bundle: the handle of the device in
  \<^verbatim>\<open>bundle->dev\<close> and the information block in \<^verbatim>\<open>bundle->priv\<close>.
\<close>

unbundle bit_operations_syntax

section \<open>Idioms\<close>

definition with_request :: "nat \<Rightarrow> 'w handler \<Rightarrow> 'w handler" where
  "with_request n f bnd w op = do {
     k \<leftarrow> payload_size op; if k < n then Some (GB_OP_INVALID, op, w) else f bnd w op }"

definition with_response :: "'w alloc_fn \<Rightarrow> nat \<Rightarrow> 'w handler \<Rightarrow> 'w handler" where
  "with_response al sz f bnd w op = do {
     (ok, op1, w1) \<leftarrow> gb_operation_alloc_response al w op sz;
     if \<not> ok then Some (GB_OP_NO_MEMORY, op1, w1) else f bnd w1 op1 }"

text \<open>A response filled with the image of its packed structure.\<close>

definition respond :: "bytes \<Rightarrow> 'w handler" where
  "respond xs bnd w op = do { op1 \<leftarrow> resp_slice op 0 xs; Some (GB_OP_SUCCESS, op1, w) }"

definition version_response :: "'w alloc_fn \<Rightarrow> u8 \<Rightarrow> u8 \<Rightarrow> 'w handler" where
  "version_response al major minor = with_response al 2 (respond [major, minor])"

text \<open>\<^verbatim>\<open>return ret ? gb_errno_to_op_result(ret) : GB_OP_SUCCESS\<close>.\<close>

definition device_status :: "int \<times> 'w \<Rightarrow> gb_operation \<Rightarrow> (u8 \<times> gb_operation \<times> 'w) option" where
  "device_status r op = Some (gb_errno_to_op_result (fst r), op, snd r)"

text \<open>A device query and, when it succeeds, the image of its answer.\<close>

definition device_answer :: "int \<times> bytes \<times> 'w \<Rightarrow> 'w handler" where
  "device_answer r bnd w op =
     (case r of (ret, xs, w1) \<Rightarrow>
        if ret \<noteq> 0 then Some (gb_errno_to_op_result ret, op, w1) else respond xs bnd w1 op)"

text \<open>A device query whose error becomes the status, before anything is allocated.\<close>

definition with_query :: "('w \<Rightarrow> int \<times> 'a \<times> 'w) \<Rightarrow> ('a \<Rightarrow> 'w handler) \<Rightarrow> 'w handler" where
  "with_query q f bnd w op =
     (case q w of (ret, x, w1) \<Rightarrow> if ret \<noteq> 0 then Some (gb_errno_to_op_result ret, op, w1) else f x bnd w1 op)"

text \<open>An answer that the device puts into the response itself, whatever its status.\<close>

definition fill_status :: "int \<times> bytes \<times> 'w \<Rightarrow> 'w handler" where
  "fill_status r bnd w op = do { op1 \<leftarrow> resp_slice op 0 (fst (snd r)); device_status (fst r, snd (snd r)) op1 }"

text \<open>A character array of \<open>n\<close> octets in a device's structure.\<close>

definition char_array :: "nat \<Rightarrow> bytes \<Rightarrow> bytes" where
  "char_array n xs = take n (xs @ replicate n 0)"

lemma length_char_array [simp]: "length (char_array n xs) = n"
  by (simp add: char_array_def)

text \<open>An event: a request without response, sent asynchronously. \<open>False\<close> when it cannot be created.\<close>

definition send_event :: "'w env \<Rightarrow> nat \<Rightarrow> u8 \<Rightarrow> bytes \<Rightarrow> 'w core \<Rightarrow> (bool \<times> 'w core) option" where
  "send_event E cport ty payload c = do {
     (r, c1) \<leftarrow> gb_operation_create E cport ty (length payload) c;
     (case r of
        None \<Rightarrow> Some (False, c1)
      | Some a \<Rightarrow> do {
          op \<leftarrow> get_op c1 a;
          b \<leftarrow> op_request_buffer op;
          b' \<leftarrow> wr_slice b HDR_SIZE payload;
          (_, c2) \<leftarrow> gb_operation_send_request_nowait E a None False (put_op a (op\<lparr>op_request_buffer := Some b'\<rparr>) c1);
          c3 \<leftarrow> gb_operation_destroy E a c2;
          Some (True, c3) }) }"

section \<open>A device behind a bundle\<close>

text \<open>The information block holds the cport.\<close>

datatype info_ptr = Info_null | Info_at nat | Info_freed

record drv_bundle =
  db_dev :: "nat option"
  db_priv :: info_ptr

type_synonym 'w drv_handler = "(drv_bundle \<times> 'w) handler"

text \<open>A device call on the state behind the bundle.\<close>

definition on_device :: "(nat option \<Rightarrow> 'w \<Rightarrow> 'r \<times> 'w) \<Rightarrow> drv_bundle \<times> 'w \<Rightarrow> 'r \<times> drv_bundle \<times> 'w" where
  "on_device f w = (let (r, v) = f (db_dev (fst w)) (snd w) in (r, fst w, v))"

definition query_device ::
  "(nat option \<Rightarrow> 'w \<Rightarrow> int \<times> 'a \<times> 'w) \<Rightarrow> drv_bundle \<times> 'w \<Rightarrow> int \<times> 'a \<times> drv_bundle \<times> 'w" where
  "query_device f w = (let (r, xs, v) = f (db_dev (fst w)) (snd w) in (r, xs, fst w, v))"

text \<open>The answer of a device as the image of the response structure.\<close>

definition map_answer :: "('a \<Rightarrow> bytes) \<Rightarrow> int \<times> 'a \<times> 'w \<Rightarrow> int \<times> bytes \<times> 'w" where
  "map_answer f r = (fst r, f (fst (snd r)), snd (snd r))"

lemma map_answer_simps [simp]: "fst (snd (map_answer f r)) = f (fst (snd r))"
  by (simp add: map_answer_def)

section \<open>What the idioms keep\<close>

lemma kept_with_request: "handler_kept f \<Longrightarrow> handler_kept (with_request n f)"
  by (auto simp: handler_kept_def with_request_def wp_atoms)

lemma kept_with_response:
  assumes "handler_kept f" and "sz < 65528"
  shows "handler_kept (with_response al sz f)"
proof (rule handler_keptI)
  fix bnd w op
  have "wp True (f bnd w1 op1) (\<lambda>(r, op', w'). kept op op')" if "kept op op1" for op1 w1
  proof -
    have "wp True (f bnd w1 op1) (\<lambda>(r, op', w'). kept op1 op')" using assms(1) by (simp add: handler_kept_def)
    then show ?thesis by (rule wp_mono) (use kept_trans[OF that] in auto)
  qed
  moreover have "kept op op'" if "gb_operation_alloc_response al w op sz = Some (ok, op', w')" for ok op' w'
    using kept_alloc[OF that assms(2)] .
  ultimately show "wp True (with_response al sz f bnd w op) (\<lambda>(r, op', w'). kept op op')"
    by (simp add: with_response_def wp_atoms)
qed

lemma kept_respond [simp]: "handler_kept (respond xs)"
  by (auto simp: handler_kept_def respond_def wp_atoms dest: kept_writes)

lemma kept_version [simp]: "handler_kept (version_response al major minor)"
  unfolding version_response_def by (rule kept_with_response) simp_all

lemma kept_device_status: "wp True (device_status r op) (\<lambda>(res, op', w'). kept op op')"
  by (simp add: device_status_def)

lemma kept_device_answer:
  fixes r :: "int \<times> bytes \<times> 'w"
  shows "wp True (device_answer r bnd w op) (\<lambda>(res, op', w'). kept op op')"
proof -
  have "handler_kept (respond (fst (snd r)) :: 'w handler)" by simp
  then show ?thesis by (auto simp: device_answer_def handler_kept_def split: prod.splits)
qed

text \<open>Everything of a handler is unfolded to its elementary steps.\<close>

lemmas idiom_defs = with_request_def with_response_def respond_def version_response_def device_status_def
  device_answer_def fill_status_def with_query_def

section \<open>No faults\<close>

text \<open>An operation with \<open>n\<close> octets of request payload and, if \<open>m\<close> says so, room in the response.\<close>

definition fits :: "nat \<Rightarrow> nat option \<Rightarrow> gb_operation \<Rightarrow> bool" where
  "fits n m op \<longleftrightarrow> (\<exists>k. op_ok k op) \<and> (\<exists>b. op_request_buffer op = Some b \<and> HDR_SIZE + n \<le> length b)
     \<and> (\<forall>sz. m = Some sz \<longrightarrow> (\<exists>h p. length h = HDR_SIZE \<and> length p = sz \<and> op_response_buffer op = Some (h @ p)))"

definition handler_total :: "nat \<Rightarrow> nat option \<Rightarrow> 'w handler \<Rightarrow> bool" where
  "handler_total n m f \<longleftrightarrow> (\<forall>bnd w op. fits n m op \<longrightarrow> f bnd w op \<noteq> None)"

lemma handler_totalI: "(\<And>bnd w op. fits n m op \<Longrightarrow> f bnd w op \<noteq> None) \<Longrightarrow> handler_total n m f"
  by (simp add: handler_total_def)

lemma handler_totalD: "handler_total n m f \<Longrightarrow> fits n m op \<Longrightarrow> f bnd w op \<noteq> None"
  by (simp add: handler_total_def)

lemma fits_start: "op_ok k op \<Longrightarrow> fits 0 None op"
  by (auto simp: fits_def op_ok_def buffer_ok_def)

lemma fits_req:
  assumes "fits n m op"
  shows "off < n \<Longrightarrow> req8 op off \<noteq> None" and "off + 2 \<le> n \<Longrightarrow> req16 op off \<noteq> None"
    and "off + 4 \<le> n \<Longrightarrow> req32 op off \<noteq> None"
proof -
  from assms obtain b where b: "op_request_buffer op = Some b" "8 + n \<le> length b" by (auto simp: fits_def)
  show "off < n \<Longrightarrow> req8 op off \<noteq> None" "off + 2 \<le> n \<Longrightarrow> req16 op off \<noteq> None" "off + 4 \<le> n \<Longrightarrow> req32 op off \<noteq> None"
    using b by (simp_all add: req8_def req16_def req32_def rd32_Some)
qed

lemma fits_payload:
  assumes "fits n m op"
  obtains b k where "op_request_buffer op = Some b" and "payload_size op = Some k" and "8 + k \<le> length b"
proof -
  obtain j where "op_ok j op" using assms by (auto simp: fits_def)
  from op_ok_request[OF this] obtain req sz where "op_request_buffer op = Some req" "8 \<le> length req"
    "hdr_size req = Some sz" "unat sz \<le> length req" by metis
  then show ?thesis using that[of req "unat sz - 8"] by (simp add: payload_size_def gb_operation_get_request_payload_size_def)
qed

lemma total_with_request:
  assumes "handler_total (max n k) m f"
  shows "handler_total n m (with_request k f)"
proof (rule handler_totalI)
  fix bnd w op
  assume f: "fits n m op"
  then obtain j where j: "op_ok j op" by (auto simp: fits_def)
  from op_ok_request[OF j] obtain req sz where r: "op_request_buffer op = Some req" "8 \<le> length req"
    "hdr_size req = Some sz" "unat sz \<le> length req" by metis
  have ps: "payload_size op = Some (unat sz - 8)"
    using r by (simp add: payload_size_def gb_operation_get_request_payload_size_def)
  show "with_request k f bnd w op \<noteq> None"
  proof (cases "unat sz - 8 < k")
    case True
    then show ?thesis using ps by (simp add: with_request_def)
  next
    case False
    then have "fits (max n k) m op" using f r by (auto simp: fits_def)
    then show ?thesis using assms ps False by (auto simp: with_request_def handler_total_def)
  qed
qed

lemma op_ok_answer:
  "op_ok k op \<Longrightarrow> length h = 8 \<Longrightarrow> buffer_ok (h @ p) \<Longrightarrow> op_ok k (answer op h p)"
  by (auto simp: op_ok_def answer_def)

lemma total_with_response:
  assumes "handler_total n (Some sz) f" and "sz + HDR_SIZE < 2 ^ 32"
  shows "handler_total n m (with_response al sz f)"
proof (rule handler_totalI)
  fix bnd w op
  assume f: "fits n m op"
  then obtain k where k: "op_ok k op" by (auto simp: fits_def)
  from alloc_answer_wide[OF k assms(2), of al w] show "with_response al sz f bnd w op \<noteq> None"
  proof (elim disjE exE conjE)
    fix h w' assume h: "length h = 8"
      and al: "gb_operation_alloc_response al w op sz = Some (True, answer op h (replicate sz 0), w')"
    have "resp_written op (answer op h (replicate sz 0))" using alloc_written[OF al assms(2)] .
    then have "op_ok k (answer op h (replicate sz 0))" using resp_written_op_ok(1) k by blast
    then have "fits n (Some sz) (answer op h (replicate sz 0))"
      using f h by (auto simp: fits_def answer_def)
    then show ?thesis using assms(1) al by (simp add: with_response_def handler_total_def)
  qed (simp add: with_response_def)
qed

lemma total_respond: "length xs \<le> sz \<Longrightarrow> handler_total n (Some sz) (respond xs)"
  by (auto simp: handler_total_def fits_def respond_def resp_slice_def resp_update_def wr_slice_def)

lemma total_version: "handler_total n m (version_response al major minor)"
  unfolding version_response_def by (intro total_with_response total_respond) simp_all

lemma total_device_answer:
  fixes r :: "int \<times> bytes \<times> 'w"
  assumes "fits n (Some sz) op" and "length (fst (snd r)) \<le> sz"
  shows "device_answer r bnd w op \<noteq> None"
proof -
  have "handler_total n (Some sz) (respond (fst (snd r)) :: 'w handler)" using assms(2) by (rule total_respond)
  then show ?thesis using assms(1) by (auto simp: device_answer_def handler_total_def split: prod.splits)
qed

lemma device_status_total [simp]: "device_status r op \<noteq> None"
  by (simp add: device_status_def)

lemma total_handler: "handler_total 0 None f \<Longrightarrow> op_ok k op \<Longrightarrow> f bnd w op \<noteq> None"
  using fits_start by (auto simp: handler_total_def)

lemma total_request: "handler_total n m f \<Longrightarrow> handler_total 0 m (with_request n f)"
  using total_with_request[of 0 n m f] by simp

lemma total_bind:
  assumes "\<And>op. fits n m op \<Longrightarrow> get op \<noteq> None" and "\<And>v. handler_total n m (g v)"
  shows "handler_total n m (\<lambda>bnd w op. do { v \<leftarrow> get op; g v bnd w op })"
proof (rule handler_totalI)
  fix bnd w op
  assume f: "fits n m op"
  then obtain v where "get op = Some v" using assms(1) by blast
  then show "do { v \<leftarrow> get op; g v bnd w op } \<noteq> None" using handler_totalD[OF assms(2) f] by simp
qed

lemma total_reads:
  "off < n \<Longrightarrow> (\<And>v. handler_total n m (g8 v)) \<Longrightarrow> handler_total n m (\<lambda>bnd w op. do { v \<leftarrow> req8 op off; g8 v bnd w op })"
  "off + 2 \<le> n \<Longrightarrow> (\<And>v. handler_total n m (g16 v)) \<Longrightarrow> handler_total n m (\<lambda>bnd w op. do { v \<leftarrow> req16 op off; g16 v bnd w op })"
  "off + 4 \<le> n \<Longrightarrow> (\<And>v. handler_total n m (g32 v)) \<Longrightarrow> handler_total n m (\<lambda>bnd w op. do { v \<leftarrow> req32 op off; g32 v bnd w op })"
  by (rule total_bind, erule fits_req, assumption, assumption)+

lemma total_status: "handler_total n m (\<lambda>bnd w op. device_status (r bnd w op) op)"
  by (simp add: handler_total_def device_status_def)

lemma total_answer:
  "(\<And>bnd w op. length (fst (snd (r bnd w op))) \<le> sz) \<Longrightarrow>
    handler_total n (Some sz) (\<lambda>bnd w op. device_answer (r bnd w op) bnd w op)"
  by (rule handler_totalI) (rule total_device_answer)

lemma total_fill:
  assumes "\<And>bnd w op. length (fst (snd (r bnd w op))) \<le> sz"
  shows "handler_total n (Some sz) (\<lambda>bnd w op. fill_status (r bnd w op) bnd w op)"
proof (rule handler_totalI)
  fix bnd w op
  assume "fits n (Some sz) op"
  then have "resp_slice op 0 (fst (snd (r bnd w op))) \<noteq> None"
    using assms[of bnd w op] by (auto simp: fits_def resp_slice_def resp_update_def wr_slice_def)
  then show "fill_status (r bnd w op) bnd w op \<noteq> None" by (auto simp: fill_status_def device_status_def)
qed

lemma total_query: "(\<And>x. handler_total n m (f x)) \<Longrightarrow> handler_total n m (with_query q f)"
  by (auto simp: handler_total_def with_query_def split: prod.splits)

lemmas total_rules = total_request total_reads total_with_response total_respond total_version total_status total_answer total_fill total_query

section \<open>Invariants of the state\<close>

text \<open>What a handler keeps of the state behind it, when it ends with a result.\<close>

definition handler_inv :: "('w \<Rightarrow> bool) \<Rightarrow> 'w handler \<Rightarrow> bool" where
  "handler_inv I f \<longleftrightarrow> (\<forall>bnd w op. I w \<longrightarrow> wp True (f bnd w op) (\<lambda>(res, op', w'). I w'))"

lemma handler_invI: "(\<And>bnd w op. I w \<Longrightarrow> wp True (f bnd w op) (\<lambda>(res, op', w'). I w')) \<Longrightarrow> handler_inv I f"
  by (simp add: handler_inv_def)

lemma handler_invD: "handler_inv I f \<Longrightarrow> I w \<Longrightarrow> wp True (f bnd w op) (\<lambda>(res, op', w'). I w')"
  by (simp add: handler_inv_def)

lemma handler_inv_result: "handler_inv I f \<Longrightarrow> I w \<Longrightarrow> f bnd w op = Some (res, op', w') \<Longrightarrow> I w'"
  using handler_invD[of I f w bnd op] by simp

definition alloc_inv :: "('w \<Rightarrow> bool) \<Rightarrow> 'w alloc_fn \<Rightarrow> bool" where
  "alloc_inv I al \<longleftrightarrow> (\<forall>w n. I w \<longrightarrow> I (snd (al w n)))"

lemma alloc_inv_response:
  "alloc_inv I al \<Longrightarrow> I w \<Longrightarrow> gb_operation_alloc_response al w op sz = Some (ok, op', w') \<Longrightarrow> I w'"
  by (auto simp: alloc_inv_def gb_operation_alloc_response_def Let_def bind_eq_Some_conv split: prod.splits if_splits) (metis snd_conv)+

lemma alloc_inv_pair: "alloc_inv (\<lambda>w. I (fst w)) (pair_alloc al)"
  by (simp add: alloc_inv_def pair_alloc_def Let_def case_prod_beta)

lemma inv_with_request: "handler_inv I f \<Longrightarrow> handler_inv I (with_request n f)"
  by (simp add: handler_inv_def with_request_def wp_True_iff)

lemma inv_with_response:
  assumes "alloc_inv I al" and "handler_inv I f"
  shows "handler_inv I (with_response al sz f)"
proof (rule handler_invI)
  fix bnd w op
  assume w: "I w"
  show "wp True (with_response al sz f bnd w op) (\<lambda>(res, op', w'). I w')"
    by (auto simp: with_response_def wp_True_iff bind_eq_Some_conv split: if_splits
        dest!: alloc_inv_response[OF assms(1) w] intro: handler_inv_result[OF assms(2)])
qed

lemma inv_respond: "handler_inv I (respond xs)"
  by (simp add: handler_inv_def respond_def wp_True_iff)

lemma inv_version: "alloc_inv I al \<Longrightarrow> handler_inv I (version_response al major minor)"
  unfolding version_response_def by (intro inv_with_response inv_respond)

lemma inv_bind: "(\<And>v. handler_inv I (g v)) \<Longrightarrow> handler_inv I (\<lambda>bnd w op. do { v \<leftarrow> get op; g v bnd w op })"
  by (auto simp: handler_inv_def wp_True_iff bind_eq_Some_conv)

lemmas inv_rules = inv_with_request inv_with_response inv_respond inv_version inv_bind alloc_inv_pair

section \<open>The interface\<close>

locale gb_handler_safe = gb_handler +
  fixes types :: "nat list"
  assumes safe: "op_ok k op \<Longrightarrow> n \<in> set types \<Longrightarrow> H n bundle w op \<noteq> None"
begin

text \<open>In the core: a request that a well-formed state hands to the driver is handled without fault.\<close>

lemma lift_total:
  assumes "core_inv h c" and "get_op c a = Some op" and "op_bundle op = Some i"
    and "get_bundle c (int i) = Some (Some bnd)" and "n \<in> set types"
  shows "wp False (lift_handler (H n) c a) (\<lambda>(r, c'). core_inv h c' \<and> handler_frame a c c')"
proof -
  have ok: "op_ok (length (g_cport c)) op" using core_invD(3)[OF assms(1,2)] .
  obtain r op' w' where "H n bnd (world c) op = Some (r, op', w')"
    using safe[OF ok assms(5), of bnd "world c"] by (cases "H n bnd (world c) op") auto
  then have "lift_handler (H n) c a \<noteq> None" using assms(2-4) by (simp add: lift_handler_def)
  then show ?thesis using lift_ok[OF assms(1), of n a] by (auto simp: wp_def)
qed

end

end
