(* ===== verification/Gb_Vibrator.thy ===== *)
theory Gb_Vibrator
  imports Gb_Driver
begin

text \<open>
  The vibrator and USB protocols, \<^verbatim>\<open>subsys/greybus/vibrator.c\<close> and \<^verbatim>\<open>usb.c\<close>: a GPIO line and a host
  controller driver, both parameters. The controller of \<^verbatim>\<open>usb.c\<close> is a static variable, \<open>None\<close> when
  it is null.
\<close>

section \<open>Vibrator\<close>

definition GB_VIBRATOR_DUMMY_GPIO :: nat where "GB_VIBRATOR_DUMMY_GPIO = 0"

record 'w vibrator_api =
  vib_alloc :: "'w alloc_fn"
  vib_gpio_activate :: "nat \<Rightarrow> 'w \<Rightarrow> 'w"
  vib_gpio_set_value :: "nat \<Rightarrow> nat \<Rightarrow> 'w \<Rightarrow> 'w"
  vib_gpio_deactivate :: "nat \<Rightarrow> 'w \<Rightarrow> 'w"
  vib_usleep :: "u16 \<Rightarrow> 'w \<Rightarrow> 'w"

definition gb_vibrator_protocol_version :: "'w vibrator_api \<Rightarrow> 'w handler" where
  "gb_vibrator_protocol_version api = version_response (vib_alloc api) 0 1"

text \<open>The time is given in milliseconds and slept in microseconds.\<close>

definition gb_vibrator_vibrator_on :: "'w vibrator_api \<Rightarrow> 'w handler" where
  "gb_vibrator_vibrator_on api = with_request 2 (\<lambda>bnd w op. do {
     timeout_ms \<leftarrow> req16 op 0;
     let w1 = vib_gpio_set_value api GB_VIBRATOR_DUMMY_GPIO 1 (vib_gpio_activate api GB_VIBRATOR_DUMMY_GPIO w);
     Some (GB_OP_SUCCESS, op, vib_gpio_deactivate api GB_VIBRATOR_DUMMY_GPIO (vib_usleep api timeout_ms w1)) })"

definition gb_vibrator_vibrator_off :: "'w vibrator_api \<Rightarrow> 'w handler" where
  "gb_vibrator_vibrator_off api bnd w op =
     (let w1 = vib_gpio_set_value api GB_VIBRATOR_DUMMY_GPIO 0 (vib_gpio_activate api GB_VIBRATOR_DUMMY_GPIO w) in
      Some (GB_OP_SUCCESS, op, vib_gpio_deactivate api GB_VIBRATOR_DUMMY_GPIO w1))"

definition vibrator_handler :: "'w vibrator_api \<Rightarrow> nat \<Rightarrow> 'w handler" where
  "vibrator_handler api n =
     (if n = 1 then gb_vibrator_protocol_version api
      else if n = 2 then gb_vibrator_vibrator_on api
      else if n = 3 then gb_vibrator_vibrator_off api
      else (\<lambda>bnd w op. None))"

lemmas vibrator_defs = gb_vibrator_protocol_version_def gb_vibrator_vibrator_on_def gb_vibrator_vibrator_off_def

lemma vibrator_kept: "handler_kept (vibrator_handler api n)"
  by (rule handler_keptI)
     (auto simp: vibrator_handler_def vibrator_defs idiom_defs Let_def wp_atoms dest!: kept_writes kept_alloc intro: kept_trans)

lemma vibrator_total: "n \<in> set [1, 2, 3] \<Longrightarrow> handler_total 0 None (vibrator_handler api n)"
proof -
  have "handler_total 0 None (gb_vibrator_vibrator_on api)"
    unfolding gb_vibrator_vibrator_on_def by (intro total_rules) (simp_all add: handler_total_def Let_def)
  moreover have "handler_total 0 None (gb_vibrator_vibrator_off api)"
    by (simp add: handler_total_def gb_vibrator_vibrator_off_def Let_def)
  ultimately show "n \<in> set [1, 2, 3] \<Longrightarrow> handler_total 0 None (vibrator_handler api n)"
    by (auto simp: vibrator_handler_def gb_vibrator_protocol_version_def total_version)
qed

interpretation vibrator: gb_handler_echo "vibrator_handler api"
  by unfold_locales (auto dest!: handler_keptD[OF vibrator_kept] simp: kept_def)

interpretation vibrator_safe: gb_handler_safe "vibrator_handler api" "[1, 2, 3]"
  by unfold_locales (rule total_handler[OF vibrator_total])

section \<open>USB\<close>

record 'w usb_api =
  usb_alloc :: "'w alloc_fn"
  usb_open :: "'w \<Rightarrow> nat option \<times> 'w"
  usb_close :: "nat \<Rightarrow> 'w \<Rightarrow> 'w"
  usb_hcd_stop :: "nat option \<Rightarrow> 'w \<Rightarrow> 'w"
  usb_hcd_start :: "nat option \<Rightarrow> 'w \<Rightarrow> int \<times> 'w"
  usb_hub_control :: "nat option \<Rightarrow> u16 \<Rightarrow> u16 \<Rightarrow> u16 \<Rightarrow> u16 \<Rightarrow> 'w \<Rightarrow> int \<times> bytes \<times> 'w"

text \<open>The state before the world is \<^verbatim>\<open>usbdev\<close>.\<close>

type_synonym 'w usb_handler = "(nat option \<times> 'w) handler"

definition gb_usb_protocol_version :: "'w usb_api \<Rightarrow> 'w usb_handler" where
  "gb_usb_protocol_version api = version_response (pair_alloc (usb_alloc api)) 0 1"

definition gb_usb_hcd_stop :: "'w usb_api \<Rightarrow> 'w usb_handler" where
  "gb_usb_hcd_stop api bnd w op = Some (GB_OP_SUCCESS, op, fst w, usb_hcd_stop api (fst w) (snd w))"

definition gb_usb_hcd_start :: "'w usb_api \<Rightarrow> 'w usb_handler" where
  "gb_usb_hcd_start api bnd w op =
     (let (retval, v) = usb_hcd_start api (fst w) (snd w) in
      Some (if retval \<noteq> 0 then GB_OP_UNKNOWN_ERROR else GB_OP_SUCCESS, op, fst w, v))"

text \<open>The device fills the buffer of the response, \<open>wLength\<close> octets, whatever its status.\<close>

definition hub_answer :: "'w usb_api \<Rightarrow> u16 \<Rightarrow> u16 \<Rightarrow> u16 \<Rightarrow> u16 \<Rightarrow> 'w usb_handler" where
  "hub_answer api typeReq wValue wIndex wLength bnd w op =
     (let (status, buf, v) = usb_hub_control api (fst w) typeReq wValue wIndex wLength (snd w) in do {
        op1 \<leftarrow> resp_slice op 0 (char_array (unat wLength) buf);
        Some (if status \<noteq> 0 then GB_OP_UNKNOWN_ERROR else GB_OP_SUCCESS, op1, fst w, v) })"

definition gb_usb_hub_control :: "'w usb_api \<Rightarrow> 'w usb_handler" where
  "gb_usb_hub_control api = with_request 8 (\<lambda>bnd w op. do {
     typeReq \<leftarrow> req16 op 0; wValue \<leftarrow> req16 op 2; wIndex \<leftarrow> req16 op 4; wLength \<leftarrow> req16 op 6;
     with_response (pair_alloc (usb_alloc api)) (unat wLength) (hub_answer api typeReq wValue wIndex wLength) bnd w op })"

definition usb_handler :: "'w usb_api \<Rightarrow> nat \<Rightarrow> 'w usb_handler" where
  "usb_handler api n =
     (if n = 1 then gb_usb_protocol_version api
      else if n = 2 then gb_usb_hcd_start api
      else if n = 3 then gb_usb_hcd_stop api
      else if n = 4 then gb_usb_hub_control api
      else (\<lambda>bnd w op. None))"

definition gb_usb_init :: "'w usb_api \<Rightarrow> nat option \<times> 'w \<Rightarrow> int \<times> nat option \<times> 'w" where
  "gb_usb_init api w =
     (let (usbdev, v) = usb_open api (snd w) in (if usbdev = None then - ENODEV else 0, usbdev, v))"

definition gb_usb_exit :: "'w usb_api \<Rightarrow> nat option \<times> 'w \<Rightarrow> nat option \<times> 'w" where
  "gb_usb_exit api w = (case fst w of None \<Rightarrow> w | Some dev \<Rightarrow> (fst w, usb_close api dev (snd w)))"

lemmas usb_defs = gb_usb_protocol_version_def gb_usb_hcd_start_def gb_usb_hcd_stop_def gb_usb_hub_control_def hub_answer_def

text \<open>
  A length of 65528 or more does not fit the size field of the response, so that the echo of the
  request is not guaranteed; the accesses are.
\<close>

lemma usb_written:
  assumes "usb_handler api n bnd w op = Some (res, op', w')"
  shows "resp_written op op'"
proof -
  have w: "unat (l :: u16) + 8 < 2 ^ 32" for l using unat_u16_lt[of l] by simp
  have "wp True (usb_handler api n bnd w op) (\<lambda>(res, op', w'). resp_written op op')"
    by (auto simp: usb_handler_def usb_defs idiom_defs wp_atoms Let_def case_prod_beta
        dest!: alloc_written[OF _ w] alloc_written[of _ _ _ 2, simplified] resp_writes(4) intro: resp_written_trans)
  from wp_TrueD[OF this assms] show ?thesis by simp
qed

lemma usb_total: "n \<in> set [1, 2, 3, 4] \<Longrightarrow> handler_total 0 None (usb_handler api n)"
proof -
  have "handler_total 8 (Some (unat l)) (hub_answer api t u i l)" for l t u i
    by (auto simp: handler_total_def hub_answer_def fits_def resp_slice_def resp_update_def wr_slice_def Let_def
        split: prod.splits)
  moreover have "unat (l :: u16) + 8 < 2 ^ 32" for l using unat_u16_lt[of l] by simp
  ultimately have "handler_total 0 None (gb_usb_hub_control api)"
    unfolding gb_usb_hub_control_def by (intro total_rules) simp_all
  moreover have "handler_total 0 None (gb_usb_hcd_start api)" "handler_total 0 None (gb_usb_hcd_stop api)"
    by (simp_all add: handler_total_def gb_usb_hcd_start_def gb_usb_hcd_stop_def Let_def case_prod_beta)
  ultimately show "n \<in> set [1, 2, 3, 4] \<Longrightarrow> handler_total 0 None (usb_handler api n)"
    by (auto simp: usb_handler_def gb_usb_protocol_version_def total_version)
qed

interpretation usb: gb_handler "usb_handler api"
  by unfold_locales (rule usb_written)

interpretation usb_safe: gb_handler_safe "usb_handler api" "[1, 2, 3, 4]"
  by unfold_locales (rule total_handler[OF usb_total])

end
