(* ===== verification/Gb_Lights.thy ===== *)
theory Gb_Lights
  imports Gb_Driver
begin

text \<open>
  The lights protocol, \<^verbatim>\<open>subsys/greybus/lights.c\<close>: thirteen handlers that hand the fields of a
  request to the lights device and put its answer into the response, the event of the device, and
  the start and end of the driver, which own the device handle and the information block.
\<close>

record light_config =
  lc_channel_count :: u8
  lc_name :: bytes

record channel_config =
  cc_max_brightness :: u8
  cc_flags :: u32
  cc_color :: u32
  cc_color_name :: bytes
  cc_mode :: u32
  cc_mode_name :: bytes

record channel_flash_config =
  cf_intensity_min_uA :: u32
  cf_intensity_max_uA :: u32
  cf_intensity_step_uA :: u32
  cf_timeout_min_us :: u32
  cf_timeout_max_us :: u32
  cf_timeout_step_us :: u32

record 'w lights_api =
  lights_alloc :: "'w alloc_fn"
  lights_zalloc :: "'w alloc_fn"
  lights_open :: "'w \<Rightarrow> nat option \<times> 'w"
  lights_close :: "nat option \<Rightarrow> 'w \<Rightarrow> 'w"
  lights_register_callback :: "nat option \<Rightarrow> nat \<Rightarrow> 'w \<Rightarrow> int \<times> 'w"
  lights_unregister_callback :: "nat option \<Rightarrow> 'w \<Rightarrow> 'w"
  device_lights_get_lights :: "nat option \<Rightarrow> 'w \<Rightarrow> int \<times> u8 \<times> 'w"
  device_lights_get_light_config :: "u8 \<Rightarrow> nat option \<Rightarrow> 'w \<Rightarrow> int \<times> light_config \<times> 'w"
  device_lights_get_channel_config :: "u8 \<Rightarrow> u8 \<Rightarrow> nat option \<Rightarrow> 'w \<Rightarrow> int \<times> channel_config \<times> 'w"
  device_lights_get_channel_flash_config :: "u8 \<Rightarrow> u8 \<Rightarrow> nat option \<Rightarrow> 'w \<Rightarrow> int \<times> channel_flash_config \<times> 'w"
  device_lights_set_brightness :: "u8 \<Rightarrow> u8 \<Rightarrow> u8 \<Rightarrow> nat option \<Rightarrow> 'w \<Rightarrow> int \<times> 'w"
  device_lights_set_blink :: "u8 \<Rightarrow> u8 \<Rightarrow> u16 \<Rightarrow> u16 \<Rightarrow> nat option \<Rightarrow> 'w \<Rightarrow> int \<times> 'w"
  device_lights_set_color :: "u8 \<Rightarrow> u8 \<Rightarrow> u32 \<Rightarrow> nat option \<Rightarrow> 'w \<Rightarrow> int \<times> 'w"
  device_lights_set_fade :: "u8 \<Rightarrow> u8 \<Rightarrow> u8 \<Rightarrow> u8 \<Rightarrow> nat option \<Rightarrow> 'w \<Rightarrow> int \<times> 'w"
  device_lights_set_flash_intensity :: "u8 \<Rightarrow> u8 \<Rightarrow> u32 \<Rightarrow> nat option \<Rightarrow> 'w \<Rightarrow> int \<times> 'w"
  device_lights_set_flash_strobe :: "u8 \<Rightarrow> u8 \<Rightarrow> u8 \<Rightarrow> nat option \<Rightarrow> 'w \<Rightarrow> int \<times> 'w"
  device_lights_set_flash_timeout :: "u8 \<Rightarrow> u8 \<Rightarrow> u32 \<Rightarrow> nat option \<Rightarrow> 'w \<Rightarrow> int \<times> 'w"
  device_lights_get_flash_fault :: "u8 \<Rightarrow> u8 \<Rightarrow> nat option \<Rightarrow> 'w \<Rightarrow> int \<times> u32 \<times> 'w"

section \<open>Handlers\<close>

definition gb_lights_protocol_version :: "'w lights_api \<Rightarrow> 'w drv_handler" where
  "gb_lights_protocol_version api = version_response (pair_alloc (lights_alloc api)) 0 1"

text \<open>The device writes the count, and below the fault, into the response itself, whatever its status.\<close>

definition gb_lights_get_lights :: "'w lights_api \<Rightarrow> 'w drv_handler" where
  "gb_lights_get_lights api = with_response (pair_alloc (lights_alloc api)) 1 (\<lambda>bnd w op.
     fill_status (map_answer (\<lambda>count. [count]) (query_device (device_lights_get_lights api) w)) bnd w op)"

definition gb_lights_get_light_config :: "'w lights_api \<Rightarrow> 'w drv_handler" where
  "gb_lights_get_light_config api = with_request 1 (with_response (pair_alloc (lights_alloc api)) 33 (\<lambda>bnd w op. do {
     ident \<leftarrow> req8 op 0;
     device_answer (map_answer (\<lambda>cfg. [lc_channel_count cfg] @ char_array 32 (lc_name cfg))
       (query_device (device_lights_get_light_config api ident) w)) bnd w op }))"

definition gb_lights_get_channel_config :: "'w lights_api \<Rightarrow> 'w drv_handler" where
  "gb_lights_get_channel_config api = with_request 2 (with_response (pair_alloc (lights_alloc api)) 77 (\<lambda>bnd w op. do {
     light_id \<leftarrow> req8 op 0; channel_id \<leftarrow> req8 op 1;
     device_answer (map_answer (\<lambda>cfg. [cc_max_brightness cfg] @ bytes32 (cc_flags cfg) @ bytes32 (cc_color cfg)
         @ char_array 32 (cc_color_name cfg) @ bytes32 (cc_mode cfg) @ char_array 32 (cc_mode_name cfg))
       (query_device (device_lights_get_channel_config api light_id channel_id) w)) bnd w op }))"

definition gb_lights_get_channel_flash_config :: "'w lights_api \<Rightarrow> 'w drv_handler" where
  "gb_lights_get_channel_flash_config api = with_request 2 (with_response (pair_alloc (lights_alloc api)) 24 (\<lambda>bnd w op. do {
     light_id \<leftarrow> req8 op 0; channel_id \<leftarrow> req8 op 1;
     device_answer (map_answer (\<lambda>fcfg. bytes32 (cf_intensity_min_uA fcfg) @ bytes32 (cf_intensity_max_uA fcfg)
         @ bytes32 (cf_intensity_step_uA fcfg) @ bytes32 (cf_timeout_min_us fcfg) @ bytes32 (cf_timeout_max_us fcfg)
         @ bytes32 (cf_timeout_step_us fcfg))
       (query_device (device_lights_get_channel_flash_config api light_id channel_id) w)) bnd w op }))"

definition gb_lights_set_brightness :: "'w lights_api \<Rightarrow> 'w drv_handler" where
  "gb_lights_set_brightness api = with_request 3 (\<lambda>bnd w op. do {
     light_id \<leftarrow> req8 op 0; channel_id \<leftarrow> req8 op 1; brightness \<leftarrow> req8 op 2;
     device_status (on_device (device_lights_set_brightness api light_id channel_id brightness) w) op })"

definition gb_lights_set_blink :: "'w lights_api \<Rightarrow> 'w drv_handler" where
  "gb_lights_set_blink api = with_request 6 (\<lambda>bnd w op. do {
     light_id \<leftarrow> req8 op 0; channel_id \<leftarrow> req8 op 1; time_on_ms \<leftarrow> req16 op 2; time_off_ms \<leftarrow> req16 op 4;
     device_status (on_device (device_lights_set_blink api light_id channel_id time_on_ms time_off_ms) w) op })"

definition gb_lights_set_color :: "'w lights_api \<Rightarrow> 'w drv_handler" where
  "gb_lights_set_color api = with_request 6 (\<lambda>bnd w op. do {
     light_id \<leftarrow> req8 op 0; channel_id \<leftarrow> req8 op 1; color \<leftarrow> req32 op 2;
     device_status (on_device (device_lights_set_color api light_id channel_id color) w) op })"

definition gb_lights_set_fade :: "'w lights_api \<Rightarrow> 'w drv_handler" where
  "gb_lights_set_fade api = with_request 4 (\<lambda>bnd w op. do {
     light_id \<leftarrow> req8 op 0; channel_id \<leftarrow> req8 op 1; fade_in \<leftarrow> req8 op 2; fade_out \<leftarrow> req8 op 3;
     device_status (on_device (device_lights_set_fade api light_id channel_id fade_in fade_out) w) op })"

definition gb_lights_set_flash_intensity :: "'w lights_api \<Rightarrow> 'w drv_handler" where
  "gb_lights_set_flash_intensity api = with_request 6 (\<lambda>bnd w op. do {
     light_id \<leftarrow> req8 op 0; channel_id \<leftarrow> req8 op 1; intensity_uA \<leftarrow> req32 op 2;
     device_status (on_device (device_lights_set_flash_intensity api light_id channel_id intensity_uA) w) op })"

definition gb_lights_set_flash_strobe :: "'w lights_api \<Rightarrow> 'w drv_handler" where
  "gb_lights_set_flash_strobe api = with_request 3 (\<lambda>bnd w op. do {
     light_id \<leftarrow> req8 op 0; channel_id \<leftarrow> req8 op 1; state \<leftarrow> req8 op 2;
     device_status (on_device (device_lights_set_flash_strobe api light_id channel_id state) w) op })"

definition gb_lights_set_flash_timeout :: "'w lights_api \<Rightarrow> 'w drv_handler" where
  "gb_lights_set_flash_timeout api = with_request 6 (\<lambda>bnd w op. do {
     light_id \<leftarrow> req8 op 0; channel_id \<leftarrow> req8 op 1; timeout_us \<leftarrow> req32 op 2;
     device_status (on_device (device_lights_set_flash_timeout api light_id channel_id timeout_us) w) op })"

definition gb_lights_get_flash_fault :: "'w lights_api \<Rightarrow> 'w drv_handler" where
  "gb_lights_get_flash_fault api = with_request 2 (with_response (pair_alloc (lights_alloc api)) 4 (\<lambda>bnd w op. do {
     light_id \<leftarrow> req8 op 0; channel_id \<leftarrow> req8 op 1;
     fill_status (map_answer bytes32 (query_device (device_lights_get_flash_fault api light_id channel_id) w)) bnd w op }))"

definition lights_handler :: "'w lights_api \<Rightarrow> nat \<Rightarrow> 'w drv_handler" where
  "lights_handler api n =
     (if n = 1 then gb_lights_protocol_version api
      else if n = 2 then gb_lights_get_lights api
      else if n = 3 then gb_lights_get_light_config api
      else if n = 4 then gb_lights_get_channel_config api
      else if n = 5 then gb_lights_get_channel_flash_config api
      else if n = 6 then gb_lights_set_brightness api
      else if n = 7 then gb_lights_set_blink api
      else if n = 8 then gb_lights_set_color api
      else if n = 9 then gb_lights_set_fade api
      else if n = 11 then gb_lights_set_flash_intensity api
      else if n = 12 then gb_lights_set_flash_strobe api
      else if n = 13 then gb_lights_set_flash_timeout api
      else if n = 14 then gb_lights_get_flash_fault api
      else (\<lambda>bnd w op. None))"

section \<open>Start, end and events\<close>

text \<open>The callback holds the cport of the information block.\<close>

definition gb_lights_init :: "'w lights_api \<Rightarrow> nat \<Rightarrow> drv_bundle \<Rightarrow> 'w \<Rightarrow> int \<times> drv_bundle \<times> 'w" where
  "gb_lights_init api cport s w =
     (let (ok, w1) = lights_zalloc api w 4 in
      if \<not> ok then (- ENOMEM, s, w1)
      else
        let (dev, w2) = lights_open api w1 in
        if dev = None then (- EIO, s\<lparr>db_dev := None\<rparr>, w2)
        else
          let (ret, w3) = lights_register_callback api dev cport w2 in
          if ret \<noteq> 0 then (ret, s\<lparr>db_dev := dev\<rparr>, lights_close api dev w3)
          else (0, s\<lparr>db_dev := dev, db_priv := Info_at cport\<rparr>, w3))"

definition gb_lights_exit :: "'w lights_api \<Rightarrow> nat \<Rightarrow> drv_bundle \<Rightarrow> 'w \<Rightarrow> (drv_bundle \<times> 'w) option" where
  "gb_lights_exit api cport s w =
     (let w1 = lights_close api (db_dev s) (lights_unregister_callback api (db_dev s) w) in
      case db_priv s of
        Info_null \<Rightarrow> Some (s, w1)
      | Info_at _ \<Rightarrow> Some (s\<lparr>db_priv := Info_freed\<rparr>, w1)
      | Info_freed \<Rightarrow> None)"

definition lights_event_callback :: "'w env \<Rightarrow> nat \<Rightarrow> u8 \<Rightarrow> u8 \<Rightarrow> 'w core \<Rightarrow> (int \<times> 'w core) option" where
  "lights_event_callback E cport light_id event c = do {
     (ok, c1) \<leftarrow> send_event E cport 0x0a [light_id, event] c; Some (if ok then 0 else - EIO, c1) }"

section \<open>The handlers keep to the interfaces\<close>

lemmas lights_defs = gb_lights_protocol_version_def gb_lights_get_lights_def gb_lights_get_light_config_def
  gb_lights_get_channel_config_def gb_lights_get_channel_flash_config_def gb_lights_set_brightness_def
  gb_lights_set_blink_def gb_lights_set_color_def gb_lights_set_fade_def gb_lights_set_flash_intensity_def
  gb_lights_set_flash_strobe_def gb_lights_set_flash_timeout_def gb_lights_get_flash_fault_def

lemma lights_kept: "handler_kept (lights_handler api n)"
  by (rule handler_keptI)
     (auto simp: lights_handler_def lights_defs idiom_defs Let_def wp_atoms split: prod.splits
        dest!: kept_writes kept_alloc intro: kept_trans)

lemma lights_total: "n \<in> set [1, 2, 3, 4, 5, 6, 7, 8, 9, 11, 12, 13, 14] \<Longrightarrow> handler_total 0 None (lights_handler api n)"
proof -
  have "handler_total 0 None (gb_lights_get_lights api)" "handler_total 0 None (gb_lights_get_flash_fault api)"
    "handler_total 0 None (gb_lights_get_light_config api)" "handler_total 0 None (gb_lights_get_channel_config api)"
    "handler_total 0 None (gb_lights_get_channel_flash_config api)" "handler_total 0 None (gb_lights_set_brightness api)"
    "handler_total 0 None (gb_lights_set_blink api)" "handler_total 0 None (gb_lights_set_color api)"
    "handler_total 0 None (gb_lights_set_fade api)" "handler_total 0 None (gb_lights_set_flash_intensity api)"
    "handler_total 0 None (gb_lights_set_flash_strobe api)" "handler_total 0 None (gb_lights_set_flash_timeout api)"
    unfolding lights_defs by (intro total_rules; simp)+
  then show "n \<in> set [1, 2, 3, 4, 5, 6, 7, 8, 9, 11, 12, 13, 14] \<Longrightarrow> handler_total 0 None (lights_handler api n)"
    by (auto simp: lights_handler_def gb_lights_protocol_version_def total_version)
qed

interpretation lights: gb_handler_echo "lights_handler api"
  by unfold_locales (auto dest!: handler_keptD[OF lights_kept] simp: kept_def)

interpretation lights_safe: gb_handler_safe "lights_handler api" "[1, 2, 3, 4, 5, 6, 7, 8, 9, 11, 12, 13, 14]"
  by unfold_locales (rule total_handler[OF lights_total])

end
