(* ===== verification/Gb_Power_Supply.thy ===== *)
theory Gb_Power_Supply
  imports Gb_Driver
begin

text \<open>
  The power supply protocol, \<^verbatim>\<open>subsys/greybus/power_supply.c\<close>. The information block is allocated
  when the driver starts but never stored in the bundle, so that nothing points to it any more, apart
  from the callback of the device.
\<close>

record power_supply_description =
  psd_manufacturer :: bytes
  psd_model :: bytes
  psd_serial_number :: bytes
  psd_type :: u16
  psd_properties_count :: u8

record power_supply_props_desc =
  psp_property :: u8
  psp_is_writeable :: u8

text \<open>The array of descriptors that the device fills has as many elements as it is given room for.\<close>

record 'w power_supply_api =
  psy_alloc :: "'w alloc_fn"
  psy_malloc :: "'w alloc_fn"
  psy_free :: "'w \<Rightarrow> 'w"
  psy_open :: "'w \<Rightarrow> nat option \<times> 'w"
  psy_close :: "nat option \<Rightarrow> 'w \<Rightarrow> 'w"
  psy_attach_callback :: "nat option \<Rightarrow> nat option \<Rightarrow> 'w \<Rightarrow> int \<times> 'w"
  device_power_supply_get_supplies :: "nat option \<Rightarrow> 'w \<Rightarrow> int \<times> u8 \<times> 'w"
  device_power_supply_get_description :: "u8 \<Rightarrow> nat option \<Rightarrow> 'w \<Rightarrow> int \<times> power_supply_description \<times> 'w"
  device_power_supply_get_properties_count :: "u8 \<Rightarrow> nat option \<Rightarrow> 'w \<Rightarrow> int \<times> u8 \<times> 'w"
  device_power_supply_get_prop_descriptors :: "u8 \<Rightarrow> nat option \<Rightarrow> 'w \<Rightarrow> int \<times> (nat \<Rightarrow> power_supply_props_desc) \<times> 'w"
  device_power_supply_get_property :: "u8 \<Rightarrow> u8 \<Rightarrow> nat option \<Rightarrow> 'w \<Rightarrow> int \<times> u32 \<times> 'w"
  device_power_supply_set_property :: "u8 \<Rightarrow> u8 \<Rightarrow> u32 \<Rightarrow> nat option \<Rightarrow> 'w \<Rightarrow> int \<times> 'w"

definition gb_power_supply_version :: "'w power_supply_api \<Rightarrow> 'w drv_handler" where
  "gb_power_supply_version api = version_response (pair_alloc (psy_alloc api)) 0 1"

definition gb_power_supply_get_supplies :: "'w power_supply_api \<Rightarrow> 'w drv_handler" where
  "gb_power_supply_get_supplies api = with_response (pair_alloc (psy_alloc api)) 1 (\<lambda>bnd w op.
     fill_status (map_answer (\<lambda>count. [count]) (query_device (device_power_supply_get_supplies api) w)) bnd w op)"

text \<open>Here the device is asked before the response is allocated.\<close>

definition gb_power_supply_get_description :: "'w power_supply_api \<Rightarrow> 'w drv_handler" where
  "gb_power_supply_get_description api = with_request 1 (\<lambda>bnd w op. do {
     psy_id \<leftarrow> req8 op 0;
     with_query (query_device (device_power_supply_get_description api psy_id)) (\<lambda>d.
       with_response (pair_alloc (psy_alloc api)) 99
         (respond (char_array 32 (psd_manufacturer d) @ char_array 32 (psd_model d) @ char_array 32 (psd_serial_number d)
            @ bytes16 (psd_type d) @ [psd_properties_count d]))) bnd w op })"

definition props_bytes :: "nat \<Rightarrow> (nat \<Rightarrow> power_supply_props_desc) \<Rightarrow> bytes" where
  "props_bytes n ds = concat (map (\<lambda>i. [psp_property (ds i), psp_is_writeable (ds i)]) [0 ..< n])"

definition prop_descriptors_answer :: "'w power_supply_api \<Rightarrow> u8 \<Rightarrow> u8 \<Rightarrow> 'w drv_handler" where
  "prop_descriptors_answer api psy_id properties_count bnd w op =
     (let (ok, w1) = pair_alloc (psy_malloc api) w (unat properties_count * 2) in
      if \<not> ok then Some (GB_OP_NO_MEMORY, op, w1)
      else
        let (ret, descriptors, w2) = query_device (device_power_supply_get_prop_descriptors api psy_id) w1 in
        if ret \<noteq> 0 then Some (gb_errno_to_op_result ret, op, fst w2, psy_free api (snd w2))
        else do {
          (res, op1, w3) \<leftarrow> with_response (pair_alloc (psy_alloc api)) (1 + unat properties_count * 2)
            (respond (properties_count # props_bytes (unat properties_count) descriptors)) bnd w2 op;
          Some (res, op1, fst w3, psy_free api (snd w3)) })"

definition gb_power_supply_get_prop_descriptors :: "'w power_supply_api \<Rightarrow> 'w drv_handler" where
  "gb_power_supply_get_prop_descriptors api = with_request 1 (\<lambda>bnd w op. do {
     psy_id \<leftarrow> req8 op 0;
     with_query (query_device (device_power_supply_get_properties_count api psy_id))
       (prop_descriptors_answer api psy_id) bnd w op })"

definition gb_power_supply_get_property :: "'w power_supply_api \<Rightarrow> 'w drv_handler" where
  "gb_power_supply_get_property api = with_request 2 (\<lambda>bnd w op. do {
     property \<leftarrow> req8 op 1; psy_id \<leftarrow> req8 op 0;
     with_query (query_device (device_power_supply_get_property api psy_id property)) (\<lambda>prop_val.
       with_response (pair_alloc (psy_alloc api)) 4 (respond (bytes32 prop_val))) bnd w op })"

definition gb_power_supply_set_property :: "'w power_supply_api \<Rightarrow> 'w drv_handler" where
  "gb_power_supply_set_property api = with_request 6 (\<lambda>bnd w op. do {
     property \<leftarrow> req8 op 1; prop_val \<leftarrow> req32 op 2; psy_id \<leftarrow> req8 op 0;
     device_status (on_device (device_power_supply_set_property api psy_id property prop_val) w) op })"

definition power_supply_handler :: "'w power_supply_api \<Rightarrow> nat \<Rightarrow> 'w drv_handler" where
  "power_supply_handler api n =
     (if n = 1 then gb_power_supply_version api
      else if n = 2 then gb_power_supply_get_supplies api
      else if n = 3 then gb_power_supply_get_description api
      else if n = 4 then gb_power_supply_get_prop_descriptors api
      else if n = 5 then gb_power_supply_get_property api
      else if n = 6 then gb_power_supply_set_property api
      else (\<lambda>bnd w op. None))"

text \<open>The Boolean is \<open>True\<close> when a block has been allocated that is not freed.\<close>

definition gb_power_supply_init :: "'w power_supply_api \<Rightarrow> nat \<Rightarrow> drv_bundle \<Rightarrow> 'w \<Rightarrow> int \<times> bool \<times> drv_bundle \<times> 'w" where
  "gb_power_supply_init api cport s w =
     (let (ok, w1) = psy_malloc api w 4 in
      if \<not> ok then (- ENOMEM, False, s, w1)
      else
        let (dev, w2) = psy_open api w1 in
        if dev = None then (- ENODEV, False, s\<lparr>db_dev := None\<rparr>, psy_free api w2)
        else
          let (ret, w3) = psy_attach_callback api dev (Some cport) w2 in
          if ret \<noteq> 0 then (ret, False, s\<lparr>db_dev := dev\<rparr>, psy_free api (psy_close api dev w3))
          else (0, True, s\<lparr>db_dev := dev\<rparr>, w3))"

text \<open>With assertions (\<open>asserts\<close>) the null pointer in \<^verbatim>\<open>bundle->priv\<close> is followed first.\<close>

definition gb_power_supply_exit ::
  "bool \<Rightarrow> 'w power_supply_api \<Rightarrow> nat \<Rightarrow> drv_bundle \<Rightarrow> 'w \<Rightarrow> (drv_bundle \<times> 'w) option" where
  "gb_power_supply_exit asserts api cport s w =
     (if asserts \<and> db_priv s \<noteq> Info_at cport then None
      else
        let (r, w1) = psy_attach_callback api (db_dev s) None w;
            w2 = psy_close api (db_dev s) w1 in
        case db_priv s of
          Info_null \<Rightarrow> Some (s, psy_free api w2)
        | Info_at _ \<Rightarrow> Some (s\<lparr>db_priv := Info_freed\<rparr>, psy_free api w2)
        | Info_freed \<Rightarrow> None)"

definition psy_event_callback :: "'w env \<Rightarrow> nat \<Rightarrow> u8 \<Rightarrow> u8 \<Rightarrow> 'w core \<Rightarrow> (int \<times> 'w core) option" where
  "psy_event_callback E cport psy_id event c = do {
     (ok, c1) \<leftarrow> send_event E cport 0x07 [psy_id, event] c; Some (if ok then 0 else - ENOMEM, c1) }"

section \<open>The handlers keep to the interfaces\<close>

lemmas power_supply_defs = gb_power_supply_version_def gb_power_supply_get_supplies_def
  gb_power_supply_get_description_def gb_power_supply_get_prop_descriptors_def gb_power_supply_get_property_def
  gb_power_supply_set_property_def prop_descriptors_answer_def

lemma length_props_bytes [simp]: "length (props_bytes n ds) = 2 * n"
  by (simp add: props_bytes_def length_concat sum_list_triv comp_def)

lemma power_supply_kept: "handler_kept (power_supply_handler api n)"
proof (rule handler_keptI)
  fix bnd w op
  have [simp]: "unat (v :: u8) * 2 < 65527" for v using unat_u8_lt[of v] by simp
  show "wp True (power_supply_handler api n bnd w op) (\<lambda>(res, op', w'). kept op op')"
    by (auto simp: power_supply_handler_def power_supply_defs idiom_defs Let_def wp_atoms split: prod.splits
        dest!: kept_writes kept_alloc intro: kept_trans)
qed

lemma prop_descriptors_total: "handler_total n m (prop_descriptors_answer api psy_id count)"
proof (rule handler_totalI)
  fix bnd op and w :: "drv_bundle \<times> 'a"
  assume f: "fits n m op"
  have "handler_total n m (with_response (pair_alloc (psy_alloc api)) (1 + unat count * 2)
      (respond (count # props_bytes (unat count) ds)) :: 'a drv_handler)" for ds
    by (intro total_rules) (use unat_u8_lt[of count] in simp_all)
  note t = handler_totalD[OF this f]
  obtain ok w1 where m: "pair_alloc (psy_malloc api) w (unat count * 2) = (ok, w1)" by (rule prod.exhaust)
  obtain ret ds w2 where q: "query_device (device_power_supply_get_prop_descriptors api psy_id) w1 = (ret, ds, w2)"
    by (rule prod_cases3)
  obtain res op1 w3 where "with_response (pair_alloc (psy_alloc api)) (1 + unat count * 2)
      (respond (count # props_bytes (unat count) ds)) bnd w2 op = Some (res, op1, w3)" using t[of ds bnd w2] by auto
  then show "prop_descriptors_answer api psy_id count bnd w op \<noteq> None"
    by (simp add: prop_descriptors_answer_def m q)
qed

lemma power_supply_total: "n \<in> set [1, 2, 3, 4, 5, 6] \<Longrightarrow> handler_total 0 None (power_supply_handler api n)"
proof -
  have "handler_total 0 None (gb_power_supply_get_supplies api)" "handler_total 0 None (gb_power_supply_get_description api)"
    "handler_total 0 None (gb_power_supply_get_property api)" "handler_total 0 None (gb_power_supply_set_property api)"
    unfolding gb_power_supply_get_supplies_def gb_power_supply_get_description_def gb_power_supply_get_property_def
      gb_power_supply_set_property_def by (intro total_rules; simp)+
  moreover have "handler_total 0 None (gb_power_supply_get_prop_descriptors api)"
    unfolding gb_power_supply_get_prop_descriptors_def by (intro total_rules prop_descriptors_total) simp_all
  ultimately show "n \<in> set [1, 2, 3, 4, 5, 6] \<Longrightarrow> handler_total 0 None (power_supply_handler api n)"
    by (auto simp: power_supply_handler_def gb_power_supply_version_def total_version)
qed

interpretation power_supply: gb_handler_echo "power_supply_handler api"
  by unfold_locales (auto dest!: handler_keptD[OF power_supply_kept] simp: kept_def)

interpretation power_supply_safe: gb_handler_safe "power_supply_handler api" "[1, 2, 3, 4, 5, 6]"
  by unfold_locales (rule total_handler[OF power_supply_total])

text \<open>Starting never stores the information block, so that every end after a start loses it.\<close>

lemma power_supply_block_lost:
  assumes "gb_power_supply_init api cport \<lparr>db_dev = d, db_priv = Info_null\<rparr> w = (0, b, s, w1)"
  shows "b" and "db_priv s = Info_null" and "gb_power_supply_exit True api cport s w2 = None"
proof -
  show "b" "db_priv s = Info_null"
    using assms by (auto simp: gb_power_supply_init_def Let_def split: prod.splits if_splits)
  then show "gb_power_supply_exit True api cport s w2 = None" by (simp add: gb_power_supply_exit_def)
qed

end
