(* ===== verification/Gb_Sdio.thy ===== *)
theory Gb_Sdio
  imports Gb_Driver
begin

text \<open>
  The SDIO protocol, \<^verbatim>\<open>subsys/greybus/sdio.c\<close>. The SD host controller is a parameter; what it tells of
  its largest transfer is scaled down to what a Greybus message can carry. The product of the
  number and the size of blocks is a signed 32-bit integer, which wraps around.
\<close>

unbundle bit_operations_syntax

definition MAX_BLOCK_SIZE_0 :: nat where "MAX_BLOCK_SIZE_0 = 512"
definition MAX_BLOCK_SIZE_1 :: nat where "MAX_BLOCK_SIZE_1 = 1024"
definition MAX_BLOCK_SIZE_2 :: nat where "MAX_BLOCK_SIZE_2 = 2048"

definition scale_max_sd_block_length :: "nat \<Rightarrow> nat" where
  "scale_max_sd_block_length v =
     (if v < MAX_BLOCK_SIZE_0 then 0
      else if v < MAX_BLOCK_SIZE_1 then MAX_BLOCK_SIZE_0
      else if v < MAX_BLOCK_SIZE_2 then MAX_BLOCK_SIZE_1
      else MAX_BLOCK_SIZE_2)"

record sdio_cap =
  sdc_caps :: u32
  sdc_ocr :: u32
  sdc_f_min :: u32
  sdc_f_max :: u32
  sdc_max_blk_count :: u16
  sdc_max_blk_size :: u16

record sdio_ios =
  ios_clock :: u32
  ios_vdd :: u32
  ios_bus_mode :: u8
  ios_power_mode :: u8
  ios_bus_width :: u8
  ios_timing :: u8
  ios_signal_voltage :: u8
  ios_drv_type :: u8

record sdio_cmd =
  cmd_cmd :: u8
  cmd_flags :: u8
  cmd_type :: u8
  cmd_arg :: u32
  cmd_data_blocks :: u16
  cmd_data_blksz :: u16

text \<open>
  The response of a command is an array of four words that the handler does not initialise. A
  transfer returns its status, the numbers of blocks and their size as the controller leaves them,
  and, for a read, what it has put into the buffer.
\<close>

record 'w sdio_api =
  sdio_alloc :: "'w alloc_fn"
  sdio_zalloc :: "'w alloc_fn"
  sdio_free :: "'w \<Rightarrow> 'w"
  sdio_open :: "'w \<Rightarrow> nat option \<times> 'w"
  sdio_close :: "nat option \<Rightarrow> 'w \<Rightarrow> 'w"
  sdio_attach_callback :: "nat option \<Rightarrow> nat option \<Rightarrow> 'w \<Rightarrow> int \<times> 'w"
  device_sdio_get_capabilities :: "nat option \<Rightarrow> 'w \<Rightarrow> int \<times> sdio_cap \<times> 'w"
  device_sdio_set_ios :: "sdio_ios \<Rightarrow> nat option \<Rightarrow> 'w \<Rightarrow> int \<times> 'w"
  device_sdio_send_cmd :: "sdio_cmd \<Rightarrow> nat option \<Rightarrow> 'w \<Rightarrow> int \<times> (nat \<Rightarrow> u32) \<times> 'w"
  device_sdio_write :: "u16 \<Rightarrow> u16 \<Rightarrow> bytes \<Rightarrow> nat option \<Rightarrow> 'w \<Rightarrow> int \<times> (u16 \<times> u16) \<times> 'w"
  device_sdio_read :: "u16 \<Rightarrow> u16 \<Rightarrow> nat option \<Rightarrow> 'w \<Rightarrow> int \<times> (u16 \<times> u16 \<times> bytes) \<times> 'w"

section \<open>Handlers\<close>

definition gb_sdio_protocol_version :: "'w sdio_api \<Rightarrow> 'w drv_handler" where
  "gb_sdio_protocol_version api = version_response (pair_alloc (sdio_alloc api)) 0 1"

text \<open>The largest data of a message: what is left of the payload behind the transfer response.\<close>

definition max_data_size :: nat where
  "max_data_size = scale_max_sd_block_length (2048 - HDR_SIZE - 4)"

definition blocks_product :: "u16 \<Rightarrow> u16 \<Rightarrow> int" where
  "blocks_product a b = sint (ucast a * ucast b :: u32)"

definition scale_cap :: "sdio_cap \<Rightarrow> sdio_cap" where
  "scale_cap cap =
     (if int max_data_size < blocks_product (sdc_max_blk_count cap) (sdc_max_blk_size cap) then
        if max_data_size < unat (sdc_max_blk_size cap) then cap\<lparr>sdc_max_blk_size := word_of_nat max_data_size\<rparr>
        else cap\<lparr>sdc_max_blk_count := word_of_nat (max_data_size div unat (sdc_max_blk_size cap))\<rparr>
      else cap)"

definition cap_bytes :: "sdio_cap \<Rightarrow> bytes" where
  "cap_bytes cap = bytes32 (sdc_caps cap) @ bytes32 (sdc_ocr cap) @ bytes32 (sdc_f_min cap) @ bytes32 (sdc_f_max cap)
     @ bytes16 (sdc_max_blk_count cap) @ bytes16 (sdc_max_blk_size cap)"

definition gb_sdio_protocol_get_capabilities :: "'w sdio_api \<Rightarrow> 'w drv_handler" where
  "gb_sdio_protocol_get_capabilities api = with_query (query_device (device_sdio_get_capabilities api)) (\<lambda>cap.
     with_response (pair_alloc (sdio_alloc api)) 20 (\<lambda>bnd w op.
       if max_data_size = 0 then Some (GB_OP_INVALID, op, w) else respond (cap_bytes (scale_cap cap)) bnd w op))"

definition gb_sdio_protocol_set_ios :: "'w sdio_api \<Rightarrow> 'w drv_handler" where
  "gb_sdio_protocol_set_ios api = with_request 14 (\<lambda>bnd w op. do {
     clock \<leftarrow> req32 op 0; vdd \<leftarrow> req32 op 4; bus_mode \<leftarrow> req8 op 8; power_mode \<leftarrow> req8 op 9; bus_width \<leftarrow> req8 op 10;
     timing \<leftarrow> req8 op 11; signal_voltage \<leftarrow> req8 op 12; drv_type \<leftarrow> req8 op 13;
     device_status (on_device (device_sdio_set_ios api \<lparr>ios_clock = clock, ios_vdd = vdd, ios_bus_mode = bus_mode,
       ios_power_mode = power_mode, ios_bus_width = bus_width, ios_timing = timing, ios_signal_voltage = signal_voltage,
       ios_drv_type = drv_type\<rparr>) w) op })"

definition resp_bytes :: "(nat \<Rightarrow> u32) \<Rightarrow> bytes" where
  "resp_bytes resp = bytes32 (resp 0) @ bytes32 (resp 1) @ bytes32 (resp 2) @ bytes32 (resp 3)"

lemma length_resp_bytes [simp]: "length (resp_bytes resp) = 16"
  by (simp add: resp_bytes_def)

text \<open>A time-out is answered like a success.\<close>

definition sdio_command :: "'w sdio_api \<Rightarrow> sdio_cmd \<Rightarrow> 'w drv_handler" where
  "sdio_command api cmd bnd w op =
     (let (ret, resp, w1) = query_device (device_sdio_send_cmd api cmd) w in
      if ret \<noteq> 0 \<and> ret \<noteq> - ETIMEDOUT then Some (gb_errno_to_op_result ret, op, w1)
      else with_response (pair_alloc (sdio_alloc api)) 16
        (respond (resp_bytes resp)) bnd w1 op)"

definition gb_sdio_protocol_command :: "'w sdio_api \<Rightarrow> 'w drv_handler" where
  "gb_sdio_protocol_command api = with_request 11 (\<lambda>bnd w op. do {
     cmd \<leftarrow> req8 op 0; flags \<leftarrow> req8 op 1; ty \<leftarrow> req8 op 2; arg \<leftarrow> req32 op 3; blocks \<leftarrow> req16 op 7; blksz \<leftarrow> req16 op 9;
     sdio_command api \<lparr>cmd_cmd = cmd, cmd_flags = flags, cmd_type = ty, cmd_arg = arg, cmd_data_blocks = blocks,
       cmd_data_blksz = blksz\<rparr> bnd w op })"

text \<open>The data of a write is read by the controller: nothing says that the request holds as much.\<close>

definition sdio_write :: "'w sdio_api \<Rightarrow> u16 \<Rightarrow> u16 \<Rightarrow> 'w drv_handler" where
  "sdio_write api blocks blksz bnd w op = do {
     data \<leftarrow> req_slice op 5 (unat blocks * unat blksz);
     with_query (query_device (device_sdio_write api blocks blksz data)) (\<lambda>(blocks, blksz).
       with_response (pair_alloc (sdio_alloc api)) 4 (respond (bytes16 blocks @ bytes16 blksz))) bnd w op }"

definition sdio_read :: "'w sdio_api \<Rightarrow> u16 \<Rightarrow> u16 \<Rightarrow> 'w drv_handler" where
  "sdio_read api blocks blksz = with_response (pair_alloc (sdio_alloc api)) (4 + unat blocks * unat blksz) (\<lambda>bnd w op.
     let (ret, (blocks', blksz', data), w1) = query_device (device_sdio_read api blocks blksz) w in do {
       op1 \<leftarrow> resp_slice op 4 (take (unat blocks * unat blksz) data);
       if ret \<noteq> 0 then Some (gb_errno_to_op_result ret, op1, w1)
       else respond (bytes16 blocks' @ bytes16 blksz') bnd w1 op1 })"

definition gb_sdio_protocol_transfer :: "'w sdio_api \<Rightarrow> 'w drv_handler" where
  "gb_sdio_protocol_transfer api = with_request 5 (\<lambda>bnd w op. do {
     flags \<leftarrow> req8 op 0; blocks \<leftarrow> req16 op 1; blksz \<leftarrow> req16 op 3;
     if flags AND 0x01 \<noteq> 0 then sdio_write api blocks blksz bnd w op
     else if flags AND 0x02 \<noteq> 0 then sdio_read api blocks blksz bnd w op
     else Some (GB_OP_INVALID, op, w) })"

definition sdio_handler :: "'w sdio_api \<Rightarrow> nat \<Rightarrow> 'w drv_handler" where
  "sdio_handler api n =
     (if n = 1 then gb_sdio_protocol_version api
      else if n = 2 then gb_sdio_protocol_get_capabilities api
      else if n = 3 then gb_sdio_protocol_set_ios api
      else if n = 4 then gb_sdio_protocol_command api
      else if n = 5 then gb_sdio_protocol_transfer api
      else (\<lambda>bnd w op. None))"

section \<open>Start, end and events\<close>

text \<open>As in the power supply driver, the information block is never stored in the bundle.\<close>

definition gb_sdio_init :: "'w sdio_api \<Rightarrow> nat \<Rightarrow> drv_bundle \<Rightarrow> 'w \<Rightarrow> int \<times> drv_bundle \<times> 'w" where
  "gb_sdio_init api cport s w =
     (let (ok, w1) = sdio_zalloc api w 4 in
      if \<not> ok then (- ENOMEM, s, w1)
      else
        let (dev, w2) = sdio_open api w1 in
        if dev = None then (- ENODEV, s\<lparr>db_dev := None\<rparr>, sdio_free api w2)
        else
          let (ret, w3) = sdio_attach_callback api dev (Some cport) w2 in
          if ret \<noteq> 0 then (ret, s\<lparr>db_dev := dev\<rparr>, sdio_free api (sdio_close api dev w3))
          else (0, s\<lparr>db_dev := dev\<rparr>, w3))"

definition gb_sdio_exit :: "bool \<Rightarrow> 'w sdio_api \<Rightarrow> nat \<Rightarrow> drv_bundle \<Rightarrow> 'w \<Rightarrow> (drv_bundle \<times> 'w) option" where
  "gb_sdio_exit asserts api cport s w =
     (if asserts \<and> db_priv s \<noteq> Info_at cport then None
      else
        let (r, w1) = sdio_attach_callback api (db_dev s) None w;
            w2 = sdio_close api (db_dev s) w1 in
        case db_priv s of
          Info_null \<Rightarrow> Some (s, sdio_free api w2)
        | Info_at _ \<Rightarrow> Some (s\<lparr>db_priv := Info_freed\<rparr>, sdio_free api w2)
        | Info_freed \<Rightarrow> None)"

definition sdio_event_callback :: "'w env \<Rightarrow> nat \<Rightarrow> u8 \<Rightarrow> 'w core \<Rightarrow> (int \<times> 'w core) option" where
  "sdio_event_callback E cport event c = do {
     (ok, c1) \<leftarrow> send_event E cport 0x06 [event] c; Some (if ok then 0 else - ENOMEM, c1) }"

section \<open>The handlers keep to the interfaces\<close>

lemmas sdio_defs = gb_sdio_protocol_version_def gb_sdio_protocol_get_capabilities_def gb_sdio_protocol_set_ios_def
  gb_sdio_protocol_command_def gb_sdio_protocol_transfer_def sdio_command_def sdio_write_def sdio_read_def

lemma product_bound: "unat (a :: u16) * unat (b :: u16) \<le> 4294836225"
  using mult_le_mono[of "unat a" 65535 "unat b" 65535] unat_u16_lt[of a] unat_u16_lt[of b] by simp

lemma product_fits: "4 + unat (a :: u16) * unat (b :: u16) + 8 < 2 ^ 32"
  using product_bound[of a b] by simp

lemma sdio_written:
  assumes "sdio_handler api n bnd w op = Some (res, op', w')"
  shows "resp_written op op'"
proof -
  note a = alloc_written[of _ _ _ 2, simplified] alloc_written[of _ _ _ 4, simplified] alloc_written[of _ _ _ 16, simplified]
    alloc_written[of _ _ _ 20, simplified] alloc_written[OF _ product_fits]
  have "wp True (sdio_handler api n bnd w op) (\<lambda>(res, op', w'). resp_written op op')"
    by (auto simp: sdio_handler_def sdio_defs idiom_defs wp_atoms Let_def split: prod.splits
        dest!: a resp_writes(4) intro: resp_written_trans)
  from wp_TrueD[OF this assms] show ?thesis by simp
qed

interpretation sdio: gb_handler "sdio_handler api"
  by unfold_locales (rule sdio_written)

text \<open>A transfer can read behind the request; the other handlers cannot.\<close>

lemma sdio_command_total:
  fixes api :: "'w sdio_api"
  shows "handler_total n m (sdio_command api cmd)"
proof -
  have "handler_total n m (with_response (pair_alloc (sdio_alloc api)) 16
      (respond (resp_bytes resp)) :: 'w drv_handler)" for resp
    by (intro total_rules) simp_all
  then show ?thesis by (auto simp: handler_total_def sdio_command_def Let_def split: prod.splits)
qed

lemma sdio_total: "n \<in> set [1, 2, 3, 4] \<Longrightarrow> handler_total 0 None (sdio_handler api n)"
proof -
  have "handler_total 0 None (gb_sdio_protocol_set_ios api)"
    unfolding gb_sdio_protocol_set_ios_def by (intro total_rules; simp)
  moreover have "handler_total 0 None (gb_sdio_protocol_command api)"
    unfolding gb_sdio_protocol_command_def by (intro total_rules sdio_command_total; simp)
  moreover have "max_data_size \<noteq> 0"
    by (simp add: max_data_size_def scale_max_sd_block_length_def MAX_BLOCK_SIZE_0_def MAX_BLOCK_SIZE_1_def MAX_BLOCK_SIZE_2_def)
  then have "handler_total 0 None (gb_sdio_protocol_get_capabilities api)"
    unfolding gb_sdio_protocol_get_capabilities_def if_not_P[OF \<open>max_data_size \<noteq> 0\<close>]
    by (intro total_rules) (simp_all add: cap_bytes_def)
  ultimately show "n \<in> set [1, 2, 3, 4] \<Longrightarrow> handler_total 0 None (sdio_handler api n)"
    by (auto simp: sdio_handler_def gb_sdio_protocol_version_def total_version)
qed

interpretation sdio_safe: gb_handler_safe "sdio_handler api" "[1, 2, 3, 4]"
  by unfold_locales (rule total_handler[OF sdio_total])

section \<open>The limits that the host is told\<close>

lemma widen: "unat (ucast (a :: u16) :: u32) = unat a"
  using unat_u16_lt[of a] by (simp add: unsigned_ucast_eq take_bit_word_eq_self take_bit_nat_eq_self)

lemma blocks_product_eq:
  "blocks_product a b = (if unat a * unat b < 2 ^ 31 then int (unat a * unat b) else int (unat a * unat b) - 2 ^ 32)"
proof -
  have "unat (ucast a * ucast b :: u32) = unat a * unat b"
    using product_bound[of a b] by (simp add: unat_word_ariths(2) widen)
  then have u: "uint (ucast a * ucast b :: u32) = int (unat a * unat b)" by (simp only: uint_nat)
  have "blocks_product a b = (int (unat a * unat b) + 2 ^ 31) mod 2 ^ 32 - 2 ^ 31"
    by (simp add: blocks_product_def sint_uint u signed_take_bit_eq_take_bit_shift take_bit_eq_mod)
  moreover have "(int p + 2 ^ 31) mod 2 ^ 32 - 2 ^ 31 = (if p < 2 ^ 31 then int p else int p - 2 ^ 32)"
    if "p \<le> 4294836225" for p :: nat
  proof (cases "p < 2 ^ 31")
    case False
    then have "(int p - 2 ^ 31) mod 2 ^ 32 = int p - 2 ^ 31" using that by (intro mod_pos_pos_trivial) simp_all
    moreover have "(int p + 2 ^ 31) mod 2 ^ 32 = (int p - 2 ^ 31) mod 2 ^ 32"
      using mod_add_self2[of "int p - 2 ^ 31" "2 ^ 32"] by (simp add: add.commute)
    ultimately show ?thesis using False by simp
  qed simp
  ultimately show ?thesis using product_bound[of a b] by (simp only:)
qed

text \<open>
  C32. The limits for transfers that the host is told keep a read within one message exactly when the
  controller's blocks are at most 1024 octets long or it takes one block at a time: for longer
  blocks the size is cut but not their number, and the product still exceeds a message.
\<close>

theorem sdio_capability_bound:
  "unat (sdc_max_blk_count (scale_cap cap)) * unat (sdc_max_blk_size (scale_cap cap)) \<le> 1024
    \<longleftrightarrow> unat (sdc_max_blk_size cap) \<le> 1024 \<or> unat (sdc_max_blk_count cap) \<le> 1"
proof -
  have m: "max_data_size = 1024"
    by (simp add: max_data_size_def scale_max_sd_block_length_def MAX_BLOCK_SIZE_0_def MAX_BLOCK_SIZE_1_def MAX_BLOCK_SIZE_2_def)
  let ?c = "unat (sdc_max_blk_count cap)" and ?s = "unat (sdc_max_blk_size cap)"
  consider "2 ^ 31 \<le> ?c * ?s" | "?c * ?s \<le> 1024" | "?c * ?s < 2 ^ 31" "1024 < ?c * ?s" "1024 < ?s"
    | "?c * ?s < 2 ^ 31" "1024 < ?c * ?s" "?s \<le> 1024" by linarith
  then show ?thesis
  proof cases
    case 1
    then have "blocks_product (sdc_max_blk_count cap) (sdc_max_blk_size cap) < 0"
      unfolding blocks_product_eq using product_bound[of "sdc_max_blk_count cap" "sdc_max_blk_size cap"]
      by (subst if_not_P) (simp_all del: of_nat_mult)
    then have "scale_cap cap = cap" by (simp add: scale_cap_def m)
    moreover have "\<not> ?s \<le> 1024" "\<not> ?c \<le> 1"
      using 1 mult_le_mono[of ?c 65535 ?s 1024] mult_le_mono[of ?c 1 ?s 65535] unat_u16_lt[of "sdc_max_blk_count cap"]
        unat_u16_lt[of "sdc_max_blk_size cap"] by auto
    ultimately show ?thesis using 1 by simp
  next
    case 2
    moreover have "?s \<le> 1024 \<or> ?c \<le> 1"
    proof (rule ccontr)
      assume "\<not> ?thesis"
      then have "2 * 1025 \<le> ?c * ?s" by (intro mult_le_mono) auto
      then show False using 2 by simp
    qed
    ultimately show ?thesis by (simp add: scale_cap_def m blocks_product_eq del: of_nat_mult)
  next
    case 3
    then have "?c \<noteq> 0" by (metis mult_0 not_less_zero)
    then show ?thesis using 3 by (auto simp: scale_cap_def m blocks_product_eq simp del: of_nat_mult)
  next
    case 4
    then have "0 < ?s" by (metis mult_0_right not_less_zero gr0I)
    have "1024 div ?s \<le> 1024" by (rule div_le_dividend)
    then have "1024 div ?s < 65536" by linarith
    then have "unat (word_of_nat (1024 div ?s) :: u16) = 1024 div ?s" by (rule unat_of_nat_u16)
    then have "unat (word_of_nat (1024 div ?s) :: u16) * ?s \<le> 1024" by (metis div_times_less_eq_dividend)
    then show ?thesis using 4 by (simp add: scale_cap_def m blocks_product_eq del: of_nat_mult)
  qed
qed

end
