(* ===== verification/Gb_Devices.thy ===== *)
theory Gb_Devices
  imports Gb_Vibrator Gb_Lights Gb_Power_Supply Gb_Sdio
begin

text \<open>What the smaller drivers have in common, over all of them.\<close>

text \<open>
  C31. No request of a host makes the lights, power supply, vibrator and USB drivers touch memory
  outside the buffers of the request and its response, nor the SDIO driver in anything but a
  transfer: on every well-formed operation each of their handlers ends with a result, whatever the
  devices and the allocator answer.
\<close>

theorem device_requests_safe:
  assumes "op_ok k op"
  shows "(n \<in> set [1, 2, 3, 4, 5, 6, 7, 8, 9, 11, 12, 13, 14] \<longrightarrow> lights_handler la n bnd wl op \<noteq> None) \<and>
    (n \<in> set [1, 2, 3, 4, 5, 6] \<longrightarrow> power_supply_handler pa n bnd wq op \<noteq> None) \<and>
    (n \<in> set [1, 2, 3] \<longrightarrow> vibrator_handler va n bnd wv op \<noteq> None) \<and>
    (n \<in> set [1, 2, 3, 4] \<longrightarrow> usb_handler ua n bnd wu op \<noteq> None) \<and>
    (n \<in> set [1, 2, 3, 4] \<longrightarrow> sdio_handler sa n bnd ws op \<noteq> None)"
  by (intro conjI impI)
    (erule lights_safe.safe[OF assms] power_supply_safe.safe[OF assms] vibrator_safe.safe[OF assms]
      usb_safe.safe[OF assms] sdio_safe.safe[OF assms])+

definition sample_vibrator :: "unit vibrator_api" where
  "sample_vibrator = \<lparr>vib_alloc = (\<lambda>w n. (True, w)), vib_gpio_activate = (\<lambda>l w. w), vib_gpio_set_value = (\<lambda>l v w. w),
    vib_gpio_deactivate = (\<lambda>l w. w), vib_usleep = (\<lambda>t w. w)\<rparr>"

theorem device_requests_safe_witness:
  "vibrator_handler sample_vibrator 2 \<lparr>bnd_id = 1, bnd_cport_start = 3, bnd_dev = []\<rparr> ()
    (sample_operation 3 5 2 [7, 0]) \<noteq> None"
proof -
  have "op_ok 4 (sample_operation 3 5 2 [7, 0])" by (rule sample_operation_ok) simp_all
  from device_requests_safe[OF this, where n = 2, THEN conjunct2, THEN conjunct2, THEN conjunct1]
  show ?thesis by (rule mp) simp
qed

end
