(* ===== verification/Gb_Uart.thy ===== *)
theory Gb_Uart
  imports Gb_Driver
begin

text \<open>
  The UART protocol, \<^verbatim>\<open>subsys/greybus/uart.c\<close>: the data of the driver and the handlers, which check
  a request and hand it to the device. The callbacks and threads are in \<open>Gb_Uart_Threads\<close>.
\<close>

unbundle bit_operations_syntax

section \<open>State\<close>

record uart_node =
  un_data_size :: u16
  un_data_flags :: u8
  un_buffer :: bytes

definition MAX_RX_BUF_NUMBER :: nat where "MAX_RX_BUF_NUMBER = 5"
definition MAX_RX_BUF_SIZE :: nat where "MAX_RX_BUF_SIZE = 256"

record gb_uart_info =
  ui_cport :: nat
  ui_updated_ms :: u8
  ui_updated_ls :: u8
  ui_last_serial_state :: u16
  ui_ms_ls_operation :: "nat option"
  ui_status_sem :: nat
  ui_status_thread :: bool
  ui_free_queue :: "nat list"
  ui_data_queue :: "nat list"
  ui_rx_node :: "nat option"
  ui_rx_buf_size :: nat
  ui_entries :: nat
  ui_require_node :: bool
  ui_rx_sem :: nat
  ui_rx_thread :: bool
  ui_thread_stop :: bool

datatype uart_parity = NO_PARITY | ODD_PARITY | EVEN_PARITY | MARK_PARITY | SPACE_PARITY
datatype uart_stopbit = ONE_STOP_BIT | ONE5_STOP_BITS | TWO_STOP_BITS

text \<open>
  The device, the allocator and the kernel. The register masks are those of the device header,
  which is not part of the repository.
\<close>

record 'w uart_api =
  uart_alloc :: "'w alloc_fn"
  uart_zalloc :: "'w \<Rightarrow> bool \<times> 'w"
  uart_malloc :: "'w alloc_fn"
  uart_sem_init :: "'w \<Rightarrow> int \<times> 'w"
  uart_pthread_create :: "'w \<Rightarrow> int \<times> 'w"
  uart_open :: "'w \<Rightarrow> nat option \<times> 'w"
  uart_close :: "nat option \<Rightarrow> 'w \<Rightarrow> 'w"
  device_uart_start_receiver :: "nat \<Rightarrow> nat option \<Rightarrow> 'w \<Rightarrow> int \<times> 'w"
  device_uart_start_transmitter :: "bytes \<Rightarrow> nat option \<Rightarrow> 'w \<Rightarrow> int \<times> 'w"
  device_uart_set_configuration :: "u32 \<Rightarrow> uart_parity \<Rightarrow> u8 \<Rightarrow> uart_stopbit \<Rightarrow> nat \<Rightarrow> nat option \<Rightarrow> 'w \<Rightarrow> int \<times> 'w"
  device_uart_get_modem_ctrl :: "nat option \<Rightarrow> 'w \<Rightarrow> int \<times> u8 \<times> 'w"
  device_uart_set_modem_ctrl :: "u8 \<Rightarrow> nat option \<Rightarrow> 'w \<Rightarrow> int \<times> 'w"
  device_uart_set_break :: "u8 \<Rightarrow> nat option \<Rightarrow> 'w \<Rightarrow> int \<times> 'w"
  device_uart_get_modem_status :: "nat option \<Rightarrow> 'w \<Rightarrow> int \<times> u8 \<times> 'w"
  device_uart_get_line_status :: "nat option \<Rightarrow> 'w \<Rightarrow> int \<times> u8 \<times> 'w"
  device_uart_attach_ms_callback :: "bool \<Rightarrow> nat option \<Rightarrow> 'w \<Rightarrow> int \<times> 'w"
  device_uart_attach_ls_callback :: "bool \<Rightarrow> nat option \<Rightarrow> 'w \<Rightarrow> int \<times> 'w"
  LSR_OE :: u32
  LSR_PE :: u32
  LSR_FE :: u32
  LSR_BI :: u32
  MSR_DCD :: u8
  MSR_DSR :: u8
  MSR_RI :: u8
  MCR_DTR :: u8
  MCR_RTS :: u8

section \<open>Handlers\<close>

definition gb_uart_protocol_version :: "'w uart_api \<Rightarrow> 'w drv_handler" where
  "gb_uart_protocol_version api = version_response (pair_alloc (uart_alloc api)) 0 1"

text \<open>Every error of the device becomes the same status.\<close>

definition unknown_status :: "int \<times> 'w \<Rightarrow> gb_operation \<Rightarrow> (u8 \<times> gb_operation \<times> 'w) option" where
  "unknown_status r op = Some (if fst r \<noteq> 0 then GB_OP_UNKNOWN_ERROR else GB_OP_SUCCESS, op, snd r)"

definition gb_uart_send_data :: "'w uart_api \<Rightarrow> 'w drv_handler" where
  "gb_uart_send_data api = with_request 2 (\<lambda>bnd w op. do {
     sz \<leftarrow> req16 op 0;
     request_size \<leftarrow> payload_size op;
     if request_size < 2 + unat sz then Some (GB_OP_INVALID, op, w)
     else do {
       data \<leftarrow> req_slice op 2 (unat sz);
       unknown_status (on_device (device_uart_start_transmitter api data) w) op } })"

definition stopbit_of :: "u8 \<Rightarrow> uart_stopbit option" where
  "stopbit_of format =
     (if format = 0 then Some ONE_STOP_BIT
      else if format = 1 then Some ONE5_STOP_BITS
      else if format = 2 then Some TWO_STOP_BITS
      else None)"

definition parity_of :: "u8 \<Rightarrow> uart_parity option" where
  "parity_of parity =
     (if parity = 0 then Some NO_PARITY
      else if parity = 1 then Some ODD_PARITY
      else if parity = 2 then Some EVEN_PARITY
      else if parity = 3 then Some MARK_PARITY
      else if parity = 4 then Some SPACE_PARITY
      else None)"

definition gb_uart_set_line_coding :: "'w uart_api \<Rightarrow> 'w drv_handler" where
  "gb_uart_set_line_coding api = with_request 7 (\<lambda>bnd w op. do {
     baud \<leftarrow> req32 op 0; format \<leftarrow> req8 op 4; parity \<leftarrow> req8 op 5; databits \<leftarrow> req8 op 6;
     (case stopbit_of format of
        None \<Rightarrow> Some (GB_OP_INVALID, op, w)
      | Some s \<Rightarrow>
          (case parity_of parity of
             None \<Rightarrow> Some (GB_OP_INVALID, op, w)
           | Some p \<Rightarrow>
               if 8 < unat databits \<or> unat databits < 5 then Some (GB_OP_INVALID, op, w)
               else unknown_status (on_device (device_uart_set_configuration api baud p databits s 1) w) op)) })"

definition control_bits :: "'w uart_api \<Rightarrow> u8 \<Rightarrow> u8 \<Rightarrow> u8" where
  "control_bits api control modem_ctrl =
     (let m1 = (if control AND 1 \<noteq> 0 then modem_ctrl OR MCR_DTR api else modem_ctrl AND NOT (MCR_DTR api)) in
      if control AND 2 \<noteq> 0 then m1 OR MCR_RTS api else m1 AND NOT (MCR_RTS api))"

definition gb_uart_set_control_line_state :: "'w uart_api \<Rightarrow> 'w drv_handler" where
  "gb_uart_set_control_line_state api = with_request 1 (\<lambda>bnd w op. do {
     control \<leftarrow> req8 op 0;
     (let (ret, modem_ctrl, w1) = query_device (device_uart_get_modem_ctrl api) w in
      if ret \<noteq> 0 then Some (GB_OP_UNKNOWN_ERROR, op, w1)
      else unknown_status (on_device (device_uart_set_modem_ctrl api (control_bits api control modem_ctrl)) w1) op) })"

definition gb_uart_send_break :: "'w uart_api \<Rightarrow> 'w drv_handler" where
  "gb_uart_send_break api = with_request 1 (\<lambda>bnd w op. do {
     state \<leftarrow> req8 op 0; unknown_status (on_device (device_uart_set_break api state) w) op })"

definition uart_handler :: "'w uart_api \<Rightarrow> nat \<Rightarrow> 'w drv_handler" where
  "uart_handler api n =
     (if n = 1 then gb_uart_protocol_version api
      else if n = 2 then gb_uart_send_data api
      else if n = 4 then gb_uart_set_line_coding api
      else if n = 5 then gb_uart_set_control_line_state api
      else if n = 6 then gb_uart_send_break api
      else (\<lambda>bnd w op. None))"

lemmas uart_defs = gb_uart_protocol_version_def gb_uart_send_data_def gb_uart_set_line_coding_def
  gb_uart_set_control_line_state_def gb_uart_send_break_def unknown_status_def

lemma uart_kept: "handler_kept (uart_handler api n)"
proof (rule handler_keptI)
  fix bnd w op
  show "wp True (uart_handler api n bnd w op) (\<lambda>(res, op', w'). kept op op')"
    by (auto simp: uart_handler_def uart_defs idiom_defs Let_def wp_atoms split: prod.splits option.splits
        dest!: kept_writes kept_alloc intro: kept_trans)
qed

lemma total_unknown: "handler_total n m (\<lambda>bnd w op. unknown_status (r bnd w op) op)"
  by (simp add: handler_total_def unknown_status_def)

lemma send_data_total: "handler_total 0 None (gb_uart_send_data api)"
proof -
  have "handler_total 2 None (\<lambda>bnd w op. do {
     sz \<leftarrow> req16 op 0;
     request_size \<leftarrow> payload_size op;
     if request_size < 2 + unat sz then Some (GB_OP_INVALID, op, w)
     else do {
       data \<leftarrow> req_slice op 2 (unat sz);
       unknown_status (on_device (device_uart_start_transmitter api data) w) op } })" (is "handler_total 2 None ?f")
  proof (rule handler_totalI)
    fix bnd op and w :: "drv_bundle \<times> 'a"
    assume f: "fits 2 None op"
    then obtain k where k: "op_ok k op" by (auto simp: fits_def)
    from op_ok_request[OF k] obtain req sz where r: "op_request_buffer op = Some req" "8 \<le> length req"
      "hdr_size req = Some sz" "unat sz \<le> length req" by metis
    obtain v where v: "req16 op 0 = Some v" using fits_req(2)[OF f, of 0] by auto
    have ps: "payload_size op = Some (unat sz - 8)"
      using r by (simp add: payload_size_def gb_operation_get_request_payload_size_def)
    have "req_slice op 2 (unat v) \<noteq> None" if "\<not> unat sz - 8 < 2 + unat v"
      using that r by (simp add: req_slice_def rd_slice_def)
    then show "?f bnd w op \<noteq> None" using v ps by (auto simp: unknown_status_def)
  qed
  then show ?thesis unfolding gb_uart_send_data_def by (rule total_request)
qed

lemma uart_total: "n \<in> set [1, 2, 4, 5, 6] \<Longrightarrow> handler_total 0 None (uart_handler api n)"
proof -
  have "handler_total 7 None (\<lambda>bnd w op.
     (case stopbit_of format of
        None \<Rightarrow> Some (GB_OP_INVALID, op, w)
      | Some s \<Rightarrow>
          (case parity_of parity of
             None \<Rightarrow> Some (GB_OP_INVALID, op, w)
           | Some p \<Rightarrow>
               if 8 < unat databits \<or> unat databits < 5 then Some (GB_OP_INVALID, op, w)
               else unknown_status (on_device (device_uart_set_configuration api baud p databits s 1) w) op)))"
    for format parity databits :: u8 and baud
    by (simp add: handler_total_def unknown_status_def split: option.splits)
  then have "handler_total 0 None (gb_uart_set_line_coding api)"
    unfolding gb_uart_set_line_coding_def by (intro total_request total_reads) simp_all
  moreover have "handler_total 0 None (gb_uart_set_control_line_state api)"
    unfolding gb_uart_set_control_line_state_def
    by (intro total_request total_reads) (simp_all add: handler_total_def unknown_status_def Let_def case_prod_beta)
  moreover have "handler_total 0 None (gb_uart_send_break api)"
    unfolding gb_uart_send_break_def by (intro total_request total_reads total_unknown) simp
  ultimately show "n \<in> set [1, 2, 4, 5, 6] \<Longrightarrow> handler_total 0 None (uart_handler api n)"
    using send_data_total by (auto simp: uart_handler_def gb_uart_protocol_version_def total_version)
qed

interpretation uart: gb_handler_echo "uart_handler api"
  by unfold_locales (auto dest!: handler_keptD[OF uart_kept] simp: kept_def)

interpretation uart_safe: gb_handler_safe "uart_handler api" "[1, 2, 4, 5, 6]"
  by unfold_locales (rule total_handler[OF uart_total])

end
