(* ===== verification/Gb_Relay.thy ===== *)
theory Gb_Relay
  imports Gb_Driver "HOL-Library.Sublist"
begin

text \<open>
  What the drivers share that report data of a device to the host on their own account: the
  interface \<open>relay\<close> of a component that passes on, in order, what it has received, and the facts on
  requests without response, whose operations their senders keep or make for the purpose.
\<close>

section \<open>Relays\<close>

text \<open>
  What has been received is what has been handed on, followed by what is still pending. The steps
  are those of all threads and interrupts that take part.
\<close>

locale relay =
  fixes start :: "'s \<Rightarrow> bool"
    and step :: "'s \<Rightarrow> 's \<Rightarrow> bool"
    and inv :: "'s \<Rightarrow> bool"
    and received handed pending :: "'s \<Rightarrow> 'a list"
  assumes inv_start: "start s \<Longrightarrow> inv s"
    and inv_step: "inv s \<Longrightarrow> step s t \<Longrightarrow> inv t"
    and account: "inv s \<Longrightarrow> received s = handed s @ pending s"
begin

lemma inv_reach: "step\<^sup>*\<^sup>* s t \<Longrightarrow> inv s \<Longrightarrow> inv t"
  by (induction rule: rtranclp_induct) (auto intro: inv_step)

lemma inv_run:
  assumes "start s" and "step\<^sup>*\<^sup>* s t"
  shows "inv t"
  using assms inv_reach inv_start by blast

lemma handed_prefix:
  assumes "start s" and "step\<^sup>*\<^sup>* s t"
  shows "prefix (handed t) (received t)"
  using account[OF inv_run[OF assms]] by simp

lemma all_handed:
  assumes "start s" and "step\<^sup>*\<^sup>* s t" and "pending t = []"
  shows "handed t = received t"
  using account[OF inv_run[OF assms(1,2)]] assms(3) by simp

end

section \<open>Requests without response\<close>

text \<open>What a holder of an operation relies on: its cport and the length of its request.\<close>

definition op_shape :: "'w core \<Rightarrow> nat \<Rightarrow> (nat \<times> nat option) option" where
  "op_shape c a = map_option (\<lambda>op. (op_cport op, map_option length (op_request_buffer op))) (get_op c a)"

text \<open>The same with the payload of the request.\<close>

definition op_view :: "'w core \<Rightarrow> nat \<Rightarrow> (nat \<times> (nat \<times> bytes) option) option" where
  "op_view c a = map_option (\<lambda>op. (op_cport op, map_option (\<lambda>b. (length b, drop HDR_SIZE b)) (op_request_buffer op))) (get_op c a)"

lemma op_shape_view: "op_shape c a = map_option (map_prod id (map_option fst)) (op_view c a)"
  by (simp add: op_shape_def op_view_def option.map_comp comp_def)

lemma op_view_put_op:
  "get_op c a = Some op \<Longrightarrow> op_cport op' = op_cport op \<Longrightarrow>
     map_option (\<lambda>b. (length b, drop HDR_SIZE b)) (op_request_buffer op') = map_option (\<lambda>b. (length b, drop HDR_SIZE b)) (op_request_buffer op) \<Longrightarrow>
     op_view (put_op a op' c) b = op_view c b"
  by (auto simp: op_view_def core_simps dest: get_op_SomeD)

lemma op_shape_world [simp]: "op_shape (c\<lparr>world := w\<rparr>) a = op_shape c a" "op_shape (c\<lparr>tx_log := l\<rparr>) a = op_shape c a"
  by (simp_all add: op_shape_def)

lemma op_shape_put_op:
  "get_op c a = Some op \<Longrightarrow> op_cport op' = op_cport op \<Longrightarrow>
     map_option length (op_request_buffer op') = map_option length (op_request_buffer op) \<Longrightarrow>
     op_shape (put_op a op' c) b = op_shape c b"
  by (auto simp: op_shape_def core_simps dest: get_op_SomeD)

definition held_frame :: "(nat \<Rightarrow> int) \<Rightarrow> 'w core \<Rightarrow> 'w core \<Rightarrow> bool" where
  "held_frame h c c' \<longleftrightarrow> (\<forall>a. 0 < h a \<longrightarrow> op_shape c' a = op_shape c a)"

lemma held_frame_refl [simp]: "held_frame h c c"
  by (simp add: held_frame_def)

text \<open>The request of a holder's operation goes out as it is, with the id that wants no response.\<close>

lemma send_own_request:
  assumes inv: "core_inv h c" and h: "0 < h a"
  obtains r c' where "gb_operation_send_request E a None False c = Some (r, c')" and "core_inv h c'"
    and "g_cport c' = g_cport c" and "\<And>b. op_view c' b = op_view c b"
proof -
  have "1 \<le> h a" using h by simp
  from core_inv_live[OF inv this] obtain op cp where op: "get_op c a = Some op" "get_cp c (op_cport op) = Some cp" by metis
  show ?thesis
  proof (cases "cp_exit_worker cp")
    case True
    then have "gb_operation_send_request E a None False c = Some (- ENETDOWN, c)"
      using op by (simp add: gb_operation_send_request_def)
    then show ?thesis using inv that by blast
  next
    case False
    from send_request_unidirectional[OF inv op(1,2) False, of E None] obtain r c' msg where
      c': "gb_operation_send_request E a None False c = Some (r, c')" "core_inv h c'" "g_cport c' = g_cport c" by metis
    have "op_view c' b = op_view c b" for b
    proof -
      from c'(1) op False obtain op0 m where "set_request_id 0 op = Some op0"
        and m: "transport_send E (op_cport op) m (put_op a op0 c) = (r, c')"
        using get_op_SomeD[OF op(1)]
        by (auto simp: gb_operation_send_request_def Let_def bind_eq_Some_conv core_simps split: prod.splits)
      then have "op_cport op0 = op_cport op"
        "map_option (\<lambda>b. (length b, drop HDR_SIZE b)) (op_request_buffer op0) = map_option (\<lambda>b. (length b, drop HDR_SIZE b)) (op_request_buffer op)"
        by (auto simp: set_request_id_def bind_eq_Some_conv wr16_def wr_slice_def split: if_splits)
      from op_view_put_op[OF op(1) this] show ?thesis
        using m by (auto simp: transport_send_def op_view_def split: prod.splits)
    qed
    then show ?thesis using c' that by blast
  qed
qed

text \<open>A request with a payload of its own: made, filled, sent and dropped again.\<close>

definition send_message :: "'w env \<Rightarrow> nat \<Rightarrow> u8 \<Rightarrow> bytes \<Rightarrow> 'w core \<Rightarrow> (bool \<times> 'w core) option" where
  "send_message E cport ty payload c = do {
     (r, c1) \<leftarrow> gb_operation_create E cport ty (length payload) c;
     (case r of
        None \<Rightarrow> Some (False, c1)
      | Some a \<Rightarrow> do {
          op \<leftarrow> get_op c1 a;
          b \<leftarrow> op_request_buffer op;
          b' \<leftarrow> wr_slice b HDR_SIZE payload;
          (ret, c2) \<leftarrow> gb_operation_send_request E a None False (put_op a (op\<lparr>op_request_buffer := Some b'\<rparr>) c1);
          c3 \<leftarrow> gb_operation_destroy E a c2;
          Some (True, c3) }) }"

text \<open>The frame that the transport is given.\<close>

definition message_frame :: "u8 \<Rightarrow> bytes \<Rightarrow> bytes" where
  "message_frame ty payload = hdr_bytes (word_of_nat (length payload + HDR_SIZE)) 0 ty 0 @ payload"

lemma message_frame_id: "wr16 (message_frame ty payload) 2 0 = Some (message_frame ty payload)"
  unfolding message_frame_def hdr_bytes_def by (simp add: wr16_def wr_slice_def bytes16_def)

lemma send_fresh_message:
  assumes "get_op c a = Some op" and "op_request_buffer op = Some (message_frame ty payload)" and "length payload + 8 < 65536"
    and "get_cp c (op_cport op) = Some cp"
  obtains (down) "cp_exit_worker cp" "gb_operation_send_request E a None False c = Some (- ENETDOWN, c)"
  | (sent) r w where "\<not> cp_exit_worker cp" and "gb_operation_send_request E a None False c =
      Some (r, c\<lparr>world := w, tx_log := tx_log c @ [(op_cport op, message_frame ty payload, r)]\<rparr>)"
proof (cases "cp_exit_worker cp")
  case True
  then show ?thesis using assms down by (simp add: gb_operation_send_request_def)
next
  case False
  let ?m = "message_frame ty payload"
  have "op\<lparr>op_request_buffer := Some ?m\<rparr> = op" using assms(2) by simp
  then have id: "set_request_id 0 op = Some op" using assms(2) message_frame_id by (simp add: set_request_id_def)
  note put = put_op_same[OF assms(1)]
  have sz: "hdr_size ?m = Some (word_of_nat (length payload + 8))" by (simp add: message_frame_def)
  have "unat (word_of_nat (length payload + 8) :: u16) = length payload + 8" using assms(3) by (simp del: of_nat_add)
  then have m: "rd_slice ?m 0 (unat (word_of_nat (length payload + 8) :: u16)) = Some ?m"
    by (simp add: rd_slice_def message_frame_def del: of_nat_add)
  obtain r w where s: "env_send E (world c) (op_cport op) ?m = (r, w)" by fastforce
  have "gb_operation_send_request E a None False c = Some (r, c\<lparr>world := w, tx_log := tx_log c @ [(op_cport op, ?m, r)]\<rparr>)"
    using assms id put False s m sz
    by (simp add: gb_operation_send_request_def transport_send_def del: of_nat_add)
  then show ?thesis using sent False by blast
qed

text \<open>
  The message of a cport that exists leaves the core as it was, up to the world and a dead cell of
  the heap, and the frame is on its way unless memory has run out or the cport is being shut down.
\<close>

lemma core_inv_unheld: "h a = 0 \<Longrightarrow> core_inv (h(a := 0)) c \<longleftrightarrow> core_inv h c"
  by (simp add: fun_upd_idem)

lemma core_inv_world_heap: "core_inv h (c\<lparr>world := w, core_heap := H\<rparr>) \<longleftrightarrow> core_inv h (c\<lparr>core_heap := H\<rparr>)"
proof -
  have "c\<lparr>world := w, core_heap := H\<rparr> = (c\<lparr>core_heap := H\<rparr>)\<lparr>world := w\<rparr>" by simp
  then show ?thesis by (simp only: core_inv_world)
qed

lemma op_shape_append: "b < length (core_heap c) \<Longrightarrow> op_shape (c\<lparr>world := w, core_heap := core_heap c @ [x]\<rparr>) b = op_shape c b"
  by (simp add: op_shape_def get_op_def)

lemma held_inside: "core_inv h c \<Longrightarrow> 0 < h b \<Longrightarrow> b < length (core_heap c)"
proof -
  assume "core_inv h c" "0 < h b"
  then obtain op where "get_op c b = Some op" using core_inv_live[of h c b] by (metis int_one_le_iff_zero_less)
  then show ?thesis by (rule get_op_SomeD)
qed

lemma op_shape_unref:
  assumes "heap_frame (core_heap c) H" and "get_op (c\<lparr>core_heap := H, world := w\<rparr>) b \<noteq> None"
  shows "op_shape (c\<lparr>core_heap := H, world := w\<rparr>) b = op_shape c b"
proof -
  from assms(2) obtain op' where op': "hget H b = Some op'" by (auto simp: get_op_def)
  with assms(1) obtain op where "hget (core_heap c) b = Some op" "same_but_count op op'" unfolding heap_frame_def by blast
  with op' show ?thesis using same_but_countD[of op op'] by (simp add: op_shape_def get_op_def)
qed

lemma destroy_own:
  assumes "core_inv (h(a := 1)) c" and "h a = 0"
  obtains c' where "gb_operation_destroy E a c = Some c'" and "core_inv h c'" and "g_cport c' = g_cport c"
    and "tx_log c' = tx_log c" and "held_frame h c c'"
proof -
  have "1 \<le> (h(a := 1)) a" by simp
  from gb_operation_unref_ok[OF assms(1) this, of E] obtain c' H w where c': "gb_operation_unref E a c = Some c'"
    "core_inv ((h(a := 1))(a := (h(a := 1)) a - 1)) c'" "c' = c\<lparr>core_heap := H, world := w\<rparr>"
    "heap_frame (core_heap c) H" by metis
  have inv: "core_inv h c'" using c'(2) assms(2) by (simp add: core_inv_unheld)
  have "op_shape c' b = op_shape c b" if "0 < h b" for b
  proof -
    have "get_op c' b \<noteq> None" using core_inv_live[OF inv, of b] that by (metis int_one_le_iff_zero_less option.distinct(1))
    then show ?thesis using op_shape_unref[OF c'(4)] c'(3) by simp
  qed
  then show ?thesis using c'(1,3) inv that by (simp add: gb_operation_destroy_def held_frame_def)
qed

lemma send_message_ok:
  assumes inv: "core_inv h c" and len: "length payload + 8 < 65536" and p: "get_cp c p = Some cp"
  obtains ok c' where "send_message E p ty payload c = Some (ok, c')" and "core_inv h c'" and "g_cport c' = g_cport c"
    and "held_frame h c c'"
    and "tx_log c' = tx_log c \<or> (ok \<and> (\<exists>r. tx_log c' = tx_log c @ [(p, message_frame ty payload, r)]))"
    and "ok \<Longrightarrow> \<not> cp_exit_worker cp \<Longrightarrow> \<exists>r. tx_log c' = tx_log c @ [(p, message_frame ty payload, r)]"
proof -
  have n: "length payload + HDR_SIZE < 2 ^ 32" using len by simp
  show ?thesis
  proof (cases rule: gb_operation_create_cases[OF n, of c p E ty])
    case 1
    then show ?thesis using that[of False c] inv by (simp add: send_message_def)
  next
    case (2 w)
    then show ?thesis using that[of False "c\<lparr>world := w\<rparr>"] inv by (simp add: send_message_def held_frame_def)
  next
    case (3 w)
    let ?c = "c\<lparr>world := w, core_heap := core_heap c @ [None]\<rparr>"
    have "core_inv h ?c"
      using core_inv_append[OF inv, of None] core_inv_fresh(1)[OF inv] by (simp add: core_inv_unheld core_inv_world_heap)
    moreover have "held_frame h c ?c" by (simp add: held_frame_def op_shape_append held_inside[OF inv])
    ultimately show ?thesis using that[of False ?c] 3 by (simp add: send_message_def)
  next
    case (4 w)
    let ?a = "length (core_heap c)" and ?m = "message_frame ty payload"
    define op where "op = (new_operation p)\<lparr>op_request_buffer := Some ?m\<rparr>"
    define c1 where "c1 = c\<lparr>world := w, core_heap := core_heap c @ [Some op]\<rparr>"
    have ok: "op_ok (length (g_cport c)) op" using get_cp_SomeD[OF p] len
      by (auto simp: op_def op_ok_def new_operation_def message_frame_def simp del: of_nat_add intro!: buffer_ok_hdr)
    have inv1: "core_inv (h(?a := 1)) c1"
      using core_inv_append[OF inv, of "Some op"] ok by (simp add: c1_def core_inv_world_heap op_def new_operation_def)
    have c1: "get_op c1 ?a = Some op" "op_cport op = p" "op_request_buffer op = Some ?m" "g_cport c1 = g_cport c"
      "get_cp c1 p = Some cp" "tx_log c1 = tx_log c"
      using get_cp_SomeD[OF p] by (simp_all add: c1_def op_def new_operation_def get_op_def get_cp_def)
    have shape1: "op_shape c1 b = op_shape c b" if "0 < h b" for b
      by (simp add: c1_def op_shape_append[OF held_inside[OF inv that]])
    have drop: "\<exists>c3. gb_operation_destroy E ?a c2 = Some c3 \<and> core_inv h c3 \<and> g_cport c3 = g_cport c2
        \<and> tx_log c3 = tx_log c2 \<and> held_frame h c c3"
      if "core_inv (h(?a := 1)) c2" and "\<And>b. op_shape c2 b = op_shape c1 b" for c2
      using destroy_own[OF that(1) core_inv_fresh(1)[OF inv], of E] that(2) shape1 by (metis held_frame_def)
    have fill: "wr_slice (hdr_bytes (word_of_nat (length payload + 8)) 0 ty 0 @ replicate (length payload) 0) 8 payload = Some ?m"
      by (simp add: wr_slice_def message_frame_def)
    have start: "send_message E p ty payload c = do {
        (ret, c2) \<leftarrow> gb_operation_send_request E ?a None False c1; c3 \<leftarrow> gb_operation_destroy E ?a c2; Some (True, c3) }"
      using 4 fill by (simp add: send_message_def get_op_def created_def put_op_def hput_def c1_def op_def)
    have "get_cp c1 (op_cport op) = Some cp" using c1 by simp
    show ?thesis
    proof (cases rule: send_fresh_message[OF c1(1,3) len \<open>get_cp c1 (op_cport op) = Some cp\<close>, of E])
      case 1
      from drop[OF inv1] show ?thesis using that[of True] start 1 c1 by auto
    next
      case (2 r w2)
      let ?c2 = "c1\<lparr>world := w2, tx_log := tx_log c1 @ [(op_cport op, ?m, r)]\<rparr>"
      have "core_inv (h(?a := 1)) ((c1\<lparr>tx_log := tx_log c1 @ [(op_cport op, ?m, r)]\<rparr>)\<lparr>world := w2\<rparr>)"
        using inv1 by (simp only: core_inv_world)
      then have "core_inv (h(?a := 1)) ?c2" by simp
      from drop[OF this] obtain c3 where "gb_operation_destroy E ?a ?c2 = Some c3" "core_inv h c3" "g_cport c3 = g_cport c1"
        "tx_log c3 = tx_log c @ [(p, ?m, r)]" "held_frame h c c3" using c1 by (auto simp: op_shape_def get_op_def)
      then show ?thesis using that[of True c3] start 2(2) c1 by simp
    qed
  qed
qed

end
