(* ===== verification/Gb_Uart_Threads.thy ===== *)
theory Gb_Uart_Threads
  imports Gb_Uart Gb_Relay
begin

text \<open>
  The part of \<^verbatim>\<open>subsys/greybus/uart.c\<close> that runs beside the handlers: the receive callback in the
  interrupt of the device, the receive thread and the status thread, and the start and end of the
  driver, which create and join them. The nodes live on a heap of their own; \<open>None\<close> in it is a node
  that has been freed. The receive thread is cut into the steps between which an interrupt can
  come; \<open>us_pc\<close> is where it stands.
\<close>

unbundle bit_operations_syntax

section \<open>State\<close>

datatype rx_pc = Rx_wait | Rx_take | Rx_send nat | Rx_put nat | Rx_check | Rx_start nat | Rx_clear | Rx_ended

text \<open>
  \<open>us_armed\<close> is the node whose buffer the device fills. \<open>us_threads\<close>, \<open>us_sems\<close> and \<open>us_open\<close> count
  the kernel's objects. \<open>us_received\<close> and \<open>us_handed\<close> are observations: the data and flags that the
  interrupt has brought, and those that the thread has tried to send, with the result of creating
  the request.
\<close>

type_synonym chunk = "bytes \<times> u8"

record 'w uart_sys =
  us_dev :: "nat option"
  us_priv :: bool
  us_info :: gb_uart_info
  us_nodes :: "uart_node option list"
  us_core :: "'w core"
  us_pc :: rx_pc
  us_armed :: "nat option"
  us_threads :: nat
  us_sems :: nat
  us_open :: nat
  us_received :: "chunk list"
  us_handed :: "(chunk \<times> bool) list"

definition put_info :: "gb_uart_info \<Rightarrow> 'w uart_sys \<Rightarrow> 'w uart_sys" where
  "put_info info s = s\<lparr>us_info := info\<rparr>"

definition get_node :: "'w uart_sys \<Rightarrow> nat \<Rightarrow> uart_node option" where
  "get_node s n = (if n < length (us_nodes s) then us_nodes s ! n else None)"

definition put_node :: "nat \<Rightarrow> uart_node \<Rightarrow> 'w uart_sys \<Rightarrow> 'w uart_sys" where
  "put_node n node s = s\<lparr>us_nodes := (us_nodes s)[n := Some node]\<rparr>"

text \<open>A call of the device or the kernel, whose state is the world of the core.\<close>

definition on_world :: "('w \<Rightarrow> 'r \<times> 'w) \<Rightarrow> 'w uart_sys \<Rightarrow> 'r \<times> 'w uart_sys" where
  "on_world f s = (let (r, w) = f (world (us_core s)) in (r, s\<lparr>us_core := (us_core s)\<lparr>world := w\<rparr>\<rparr>))"

section \<open>Queues\<close>

definition put_node_back :: "nat list \<Rightarrow> nat \<Rightarrow> nat list" where
  "put_node_back queue node = queue @ [node]"

fun get_node_from :: "nat list \<Rightarrow> nat option \<times> nat list" where
  "get_node_from [] = (None, [])"
| "get_node_from (node # queue) = (Some node, queue)"

fun uart_free_buf :: "nat list \<Rightarrow> 'w uart_sys \<Rightarrow> 'w uart_sys option" where
  "uart_free_buf [] s = Some s"
| "uart_free_buf (n # queue) s =
     (case get_node s n of
        None \<Rightarrow> None
      | Some _ \<Rightarrow> uart_free_buf queue (s\<lparr>us_nodes := (us_nodes s)[n := None]\<rparr>))"

text \<open>The contents of a new buffer do not matter: what is read of it has been received before.\<close>

fun uart_alloc_buf :: "'w uart_api \<Rightarrow> nat \<Rightarrow> nat \<Rightarrow> nat list \<Rightarrow> 'w uart_sys \<Rightarrow> int \<times> nat list \<times> 'w uart_sys" where
  "uart_alloc_buf api 0 buf_size queue s = (0, queue, s)"
| "uart_alloc_buf api (Suc i) buf_size queue s =
     (let (ok, s1) = on_world (\<lambda>w. uart_malloc api w (buf_size + 8)) s in
      if \<not> ok then (ENOMEM, queue, s1)
      else uart_alloc_buf api i buf_size (put_node_back queue (length (us_nodes s1)))
        (s1\<lparr>us_nodes := us_nodes s1 @ [Some \<lparr>un_data_size = 0, un_data_flags = 0, un_buffer = replicate buf_size 0\<rparr>]\<rparr>))"

section \<open>Callbacks\<close>

definition uart_ms_callback :: "u8 \<Rightarrow> 'w uart_sys \<Rightarrow> 'w uart_sys" where
  "uart_ms_callback ms s =
     put_info ((us_info s)\<lparr>ui_updated_ms := ms, ui_status_sem := ui_status_sem (us_info s) + 1\<rparr>) s"

definition uart_ls_callback :: "u8 \<Rightarrow> 'w uart_sys \<Rightarrow> 'w uart_sys" where
  "uart_ls_callback ls s =
     put_info ((us_info s)\<lparr>ui_updated_ls := ls, ui_status_sem := ui_status_sem (us_info s) + 1\<rparr>) s"

definition recv_flags :: "'w uart_api \<Rightarrow> u32 \<Rightarrow> u8" where
  "recv_flags api error =
     (if error AND LSR_OE api \<noteq> 0 then 0x04 else 0) OR (if error AND LSR_PE api \<noteq> 0 then 0x02 else 0)
      OR (if error AND LSR_FE api \<noteq> 0 then 0x01 else 0) OR (if error AND LSR_BI api \<noteq> 0 then 0x08 else 0)"

text \<open>\<^verbatim>\<open>device_uart_start_receiver\<close>: when it succeeds the device fills the buffer of the node.\<close>

definition start_receiver :: "'w uart_api \<Rightarrow> nat \<Rightarrow> 'w uart_sys \<Rightarrow> int \<times> 'w uart_sys" where
  "start_receiver api n s =
     (let (ret, s1) = on_world (device_uart_start_receiver api n (us_dev s)) s in
      (ret, if ret = 0 then s1\<lparr>us_armed := Some n\<rparr> else s1))"

definition uart_rx_callback :: "'w uart_api \<Rightarrow> nat \<Rightarrow> u32 \<Rightarrow> 'w uart_sys \<Rightarrow> 'w uart_sys option" where
  "uart_rx_callback api len error s = do {
     n \<leftarrow> ui_rx_node (us_info s);
     node \<leftarrow> get_node s n;
     let s1 = put_node n (node\<lparr>un_data_size := word_of_nat len, un_data_flags := recv_flags api error\<rparr>) s;
     let info = us_info s1;
     let info1 = info\<lparr>ui_data_queue := put_node_back (ui_data_queue info) n, ui_rx_sem := ui_rx_sem info + 1\<rparr>;
     (case get_node_from (ui_free_queue info1) of
        (None, _) \<Rightarrow> Some (put_info (info1\<lparr>ui_require_node := True\<rparr>) s1)
      | (Some m, queue) \<Rightarrow> do {
          _ \<leftarrow> get_node s1 m;
          let (ret, s2) = start_receiver api m (put_info (info1\<lparr>ui_free_queue := queue, ui_rx_node := Some m\<rparr>) s1);
          Some s2 }) }"

text \<open>
  The interrupt: the device has put \<open>data\<close> into the buffer it was given and calls back once. It
  never writes more than the size it was told.
\<close>

definition uart_interrupt :: "'w uart_api \<Rightarrow> bytes \<Rightarrow> u32 \<Rightarrow> 'w uart_sys \<Rightarrow> 'w uart_sys option" where
  "uart_interrupt api data error s = do {
     n \<leftarrow> us_armed s;
     node \<leftarrow> get_node s n;
     b \<leftarrow> wr_slice (un_buffer node) 0 data;
     uart_rx_callback api (length data) error
       ((put_node n (node\<lparr>un_buffer := b\<rparr>) s)\<lparr>us_armed := None, us_received := us_received s @ [(data, recv_flags api error)]\<rparr>) }"

definition parse_ms_ls_registers :: "'w uart_api \<Rightarrow> u8 \<Rightarrow> u8 \<Rightarrow> u8" where
  "parse_ms_ls_registers api modem_status line_status =
     (if modem_status AND MSR_DCD api \<noteq> 0 then 0x01 else 0) OR (if modem_status AND MSR_DSR api \<noteq> 0 then 0x02 else 0)
      OR (if modem_status AND MSR_RI api \<noteq> 0 then 0x04 else 0)"

section \<open>Threads\<close>

text \<open>One step of the receive thread; \<open>uart_rx_blocked\<close> says when it has none.\<close>

definition uart_rx_blocked :: "'w uart_sys \<Rightarrow> bool" where
  "uart_rx_blocked s \<longleftrightarrow> us_pc s = Rx_ended \<or> (us_pc s = Rx_wait \<and> ui_rx_sem (us_info s) = 0)"

definition uart_rx_thread :: "'w env \<Rightarrow> 'w uart_api \<Rightarrow> 'w uart_sys \<Rightarrow> 'w uart_sys option" where
  "uart_rx_thread E api s =
     (let info = us_info s in
      case us_pc s of
        Rx_wait \<Rightarrow> Some (put_info (info\<lparr>ui_rx_sem := ui_rx_sem info - 1\<rparr>)
                      (s\<lparr>us_pc := if ui_thread_stop info then Rx_ended else Rx_take\<rparr>))
      | Rx_take \<Rightarrow>
          (case get_node_from (ui_data_queue info) of
             (None, _) \<Rightarrow> Some (s\<lparr>us_pc := Rx_check\<rparr>)
           | (Some n, queue) \<Rightarrow> Some (put_info (info\<lparr>ui_data_queue := queue\<rparr>) (s\<lparr>us_pc := Rx_send n\<rparr>)))
      | Rx_send n \<Rightarrow> do {
          node \<leftarrow> get_node s n;
          data \<leftarrow> rd_slice (un_buffer node) 0 (unat (un_data_size node));
          (ok, c) \<leftarrow> send_message E (ui_cport info) 0x03 (bytes16 (un_data_size node) @ un_data_flags node # data) (us_core s);
          Some (s\<lparr>us_core := c, us_pc := Rx_put n, us_handed := us_handed s @ [((data, un_data_flags node), ok)]\<rparr>) }
      | Rx_put n \<Rightarrow> Some (put_info (info\<lparr>ui_free_queue := put_node_back (ui_free_queue info) n\<rparr>) (s\<lparr>us_pc := Rx_check\<rparr>))
      | Rx_check \<Rightarrow>
          if ui_require_node info then
            (case get_node_from (ui_free_queue info) of
               (None, _) \<Rightarrow> None
             | (Some n, queue) \<Rightarrow> Some (put_info (info\<lparr>ui_free_queue := queue, ui_rx_node := Some n\<rparr>) (s\<lparr>us_pc := Rx_start n\<rparr>)))
          else Some (s\<lparr>us_pc := Rx_wait\<rparr>)
      | Rx_start n \<Rightarrow> do {
          _ \<leftarrow> get_node s n;
          let (ret, s1) = start_receiver api n s;
          Some (s1\<lparr>us_pc := Rx_clear\<rparr>) }
      | Rx_clear \<Rightarrow> Some (put_info (info\<lparr>ui_require_node := False\<rparr>) (s\<lparr>us_pc := Rx_wait\<rparr>))
      | Rx_ended \<Rightarrow> Some s)"

text \<open>
  One iteration of the status thread after its semaphore. The request is a single octet of an
  operation that is kept for the purpose. \<open>False\<close> when the thread ends.
\<close>

definition uart_status_thread :: "'w env \<Rightarrow> 'w uart_api \<Rightarrow> 'w uart_sys \<Rightarrow> (bool \<times> 'w uart_sys) option" where
  "uart_status_thread E api s =
     (let info = (us_info s)\<lparr>ui_status_sem := ui_status_sem (us_info s) - 1\<rparr>;
          s1 = put_info info s;
          updated_status = parse_ms_ls_registers api (ui_updated_ms info) (ui_updated_ls info) in
      if ui_thread_stop info then Some (False, s1)
      else if ui_last_serial_state info = ucast updated_status then Some (True, s1)
      else do {
        a \<leftarrow> ui_ms_ls_operation info;
        op \<leftarrow> get_op (us_core s) a;
        b \<leftarrow> op_request_buffer op;
        b' \<leftarrow> wr8 b HDR_SIZE updated_status;
        (ret, c) \<leftarrow> gb_operation_send_request E a None False (put_op a (op\<lparr>op_request_buffer := Some b'\<rparr>) (us_core s));
        Some (True, (put_info (info\<lparr>ui_last_serial_state := ucast updated_status\<rparr>) s)\<lparr>us_core := c\<rparr>) })"

section \<open>Start and end\<close>

definition blank_info :: "nat \<Rightarrow> gb_uart_info" where
  "blank_info cport =
     \<lparr>ui_cport = cport, ui_updated_ms = 0, ui_updated_ls = 0, ui_last_serial_state = 0, ui_ms_ls_operation = None,
      ui_status_sem = 0, ui_status_thread = False, ui_free_queue = [], ui_data_queue = [], ui_rx_node = None,
      ui_rx_buf_size = 0, ui_entries = 0, ui_require_node = False, ui_rx_sem = 0, ui_rx_thread = False,
      ui_thread_stop = False\<rparr>"

definition destroy_status_operation :: "'w env \<Rightarrow> nat \<Rightarrow> 'w uart_sys \<Rightarrow> 'w uart_sys option" where
  "destroy_status_operation E a s = do { c \<leftarrow> gb_operation_destroy E a (us_core s); Some (s\<lparr>us_core := c\<rparr>) }"

definition uart_status_cb_init :: "'w env \<Rightarrow> 'w uart_api \<Rightarrow> 'w uart_sys \<Rightarrow> (int \<times> 'w uart_sys) option" where
  "uart_status_cb_init E api s = do {
     (r, c) \<leftarrow> gb_operation_create E (ui_cport (us_info s)) 0x07 1 (us_core s);
     let s1 = put_info ((us_info s)\<lparr>ui_ms_ls_operation := r\<rparr>) (s\<lparr>us_core := c\<rparr>);
     (case r of
        None \<Rightarrow> Some (- ENOMEM, s1)
      | Some a \<Rightarrow>
          let (ret, s2) = on_world (uart_sem_init api) s1 in
          if ret \<noteq> 0 then do { s3 \<leftarrow> destroy_status_operation E a s2; Some (- ret, s3) }
          else
            let (ret, s4) = on_world (uart_pthread_create api)
                  (put_info ((us_info s2)\<lparr>ui_status_sem := 0\<rparr>) (s2\<lparr>us_sems := us_sems s2 + 1\<rparr>)) in
            if ret \<noteq> 0 then do {
              s5 \<leftarrow> destroy_status_operation E a (s4\<lparr>us_sems := us_sems s4 - 1\<rparr>); Some (- ret, s5) }
            else Some (0, put_info ((us_info s4)\<lparr>ui_status_thread := True\<rparr>) (s4\<lparr>us_threads := us_threads s4 + 1\<rparr>))) }"

text \<open>The join lets the thread run once more: it has been told to stop.\<close>

definition uart_status_cb_deinit :: "'w env \<Rightarrow> 'w uart_api \<Rightarrow> 'w uart_sys \<Rightarrow> 'w uart_sys option" where
  "uart_status_cb_deinit E api s = do {
     s1 \<leftarrow> (if ui_status_thread (us_info s) then do {
              (more, t) \<leftarrow> uart_status_thread E api
                (put_info ((us_info s)\<lparr>ui_thread_stop := True, ui_status_sem := ui_status_sem (us_info s) + 1\<rparr>) s);
              Some (t\<lparr>us_threads := us_threads t - 1\<rparr>) }
            else Some s);
     let s2 = s1\<lparr>us_sems := us_sems s1 - 1\<rparr>;
     (case ui_ms_ls_operation (us_info s2) of None \<Rightarrow> Some s2 | Some a \<Rightarrow> destroy_status_operation E a s2) }"

text \<open>\<^verbatim>\<open>pthread_join\<close> on the receive thread; the Boolean says whether it has ended.\<close>

fun rx_join :: "'w env \<Rightarrow> 'w uart_api \<Rightarrow> nat \<Rightarrow> 'w uart_sys \<Rightarrow> (bool \<times> 'w uart_sys) option" where
  "rx_join E api 0 s = Some (False, s)"
| "rx_join E api (Suc fuel) s =
     (if us_pc s = Rx_ended then Some (True, s)
      else if uart_rx_blocked s then Some (False, s)
      else do { s' \<leftarrow> uart_rx_thread E api s; rx_join E api fuel s' })"

definition rx_stop :: "'w uart_sys \<Rightarrow> 'w uart_sys" where
  "rx_stop s = put_info ((us_info s)\<lparr>ui_thread_stop := True, ui_rx_sem := ui_rx_sem (us_info s) + 1\<rparr>) s"

definition uart_free_queues :: "'w uart_sys \<Rightarrow> 'w uart_sys option" where
  "uart_free_queues s = do {
     s1 \<leftarrow> uart_free_buf (ui_data_queue (us_info s)) s;
     s2 \<leftarrow> uart_free_buf (ui_free_queue (us_info s)) s1;
     Some (put_info ((us_info s2)\<lparr>ui_data_queue := [], ui_free_queue := []\<rparr>) s2) }"

text \<open>The inner result is \<open>None\<close> when the join does not return.\<close>

definition uart_receiver_cb_deinit :: "'w env \<Rightarrow> 'w uart_api \<Rightarrow> 'w uart_sys \<Rightarrow> 'w uart_sys option option" where
  "uart_receiver_cb_deinit E api s = do {
     (ended, s1) \<leftarrow> (if ui_rx_thread (us_info s) then do {
                        (ended, t) \<leftarrow> rx_join E api 8 (rx_stop s);
                        Some (ended, t\<lparr>us_threads := us_threads t - 1\<rparr>) }
                      else Some (True, s));
     if \<not> ended then Some None
     else do { s2 \<leftarrow> uart_free_queues (s1\<lparr>us_sems := us_sems s1 - 1\<rparr>); Some (Some s2) } }"

definition uart_receiver_cb_init :: "'w uart_api \<Rightarrow> 'w uart_sys \<Rightarrow> (int \<times> 'w uart_sys) option" where
  "uart_receiver_cb_init api s =
     (let s1 = put_info ((us_info s)\<lparr>ui_free_queue := [], ui_data_queue := [], ui_entries := MAX_RX_BUF_NUMBER,
             ui_rx_buf_size := MAX_RX_BUF_SIZE\<rparr>) s;
          (ret, queue, s2) = uart_alloc_buf api (ui_entries (us_info s1)) (ui_rx_buf_size (us_info s1)) [] s1;
          s3 = put_info ((us_info s2)\<lparr>ui_free_queue := queue\<rparr>) s2 in
      if ret \<noteq> 0 then do { s4 \<leftarrow> uart_free_queues s3; Some (ret, s4) }
      else
        let (ret, s4) = on_world (uart_sem_init api) s3 in
        if ret \<noteq> 0 then do { s5 \<leftarrow> uart_free_queues s4; Some (ret, s5) }
        else
          let (ret, s5) = on_world (uart_pthread_create api)
                (put_info ((us_info s4)\<lparr>ui_rx_sem := 0\<rparr>) (s4\<lparr>us_sems := us_sems s4 + 1\<rparr>)) in
          if ret \<noteq> 0 then do { s6 \<leftarrow> uart_free_queues (s5\<lparr>us_sems := us_sems s5 - 1\<rparr>); Some (ret, s6) }
          else Some (0, put_info ((us_info s5)\<lparr>ui_rx_thread := True\<rparr>)
                      (s5\<lparr>us_threads := us_threads s5 + 1, us_pc := Rx_wait\<rparr>)))"

text \<open>The labels of \<^verbatim>\<open>gb_uart_init\<close>, the last one first.\<close>

definition err_device_close :: "'w uart_api \<Rightarrow> int \<Rightarrow> 'w uart_sys \<Rightarrow> (int \<times> 'w uart_sys) option" where
  "err_device_close api ret s =
     (let (_, s1) = on_world (\<lambda>w. ((), uart_close api (us_dev s) w)) s in
      Some (ret, s1\<lparr>us_open := (case us_dev s of None \<Rightarrow> us_open s1 | Some _ \<Rightarrow> us_open s1 - 1),
                    us_priv := False, us_dev := None\<rparr>))"

definition err_status_cb_deinit :: "'w env \<Rightarrow> 'w uart_api \<Rightarrow> int \<Rightarrow> 'w uart_sys \<Rightarrow> (int \<times> 'w uart_sys) option" where
  "err_status_cb_deinit E api ret s = do { s1 \<leftarrow> uart_status_cb_deinit E api s; err_device_close api ret s1 }"

definition err_receiver_cb_deinit :: "'w env \<Rightarrow> 'w uart_api \<Rightarrow> int \<Rightarrow> 'w uart_sys \<Rightarrow> (int \<times> 'w uart_sys) option option" where
  "err_receiver_cb_deinit E api ret s = do {
     r \<leftarrow> uart_receiver_cb_deinit E api s;
     (case r of
        None \<Rightarrow> Some None
      | Some s1 \<Rightarrow> do { t \<leftarrow> err_status_cb_deinit E api ret s1; Some (Some t) }) }"

definition uart_update_status ::
  "'w env \<Rightarrow> 'w uart_api \<Rightarrow> 'w uart_sys \<Rightarrow> (int \<times> 'w uart_sys) option option" where
  "uart_update_status E api s =
     (let (ret, ms, s1) = (case on_world (\<lambda>w. case device_uart_get_modem_status api (us_dev s) w of (r, v, w') \<Rightarrow> ((r, v), w')) s
             of ((r, v), t) \<Rightarrow> (r, v, t)) in
      if ret \<noteq> 0 then err_receiver_cb_deinit E api ret s1
      else
        let (ret, ls, s2) = (case on_world (\<lambda>w. case device_uart_get_line_status api (us_dev s) w of (r, v, w') \<Rightarrow> ((r, v), w')) s1
               of ((r, v), t) \<Rightarrow> (r, v, t)) in
        if ret \<noteq> 0 then err_receiver_cb_deinit E api ret s2
        else
          let s3 = put_info ((us_info s2)\<lparr>ui_last_serial_state := ucast (parse_ms_ls_registers api ms ls)\<rparr>) s2;
              (ret, s4) = on_world (device_uart_attach_ms_callback api True (us_dev s)) s3 in
          if ret \<noteq> 0 then err_receiver_cb_deinit E api ret s4
          else
            let (ret, s5) = on_world (device_uart_attach_ls_callback api True (us_dev s)) s4 in
            if ret \<noteq> 0 then
              let (_, s6) = on_world (device_uart_attach_ms_callback api False (us_dev s)) s5 in
              err_receiver_cb_deinit E api ret s6
            else Some (Some (0, put_info ((us_info s5)\<lparr>ui_require_node := True, ui_rx_sem := ui_rx_sem (us_info s5) + 1\<rparr>) s5)))"

definition gb_uart_init :: "'w env \<Rightarrow> 'w uart_api \<Rightarrow> nat \<Rightarrow> 'w uart_sys \<Rightarrow> (int \<times> 'w uart_sys) option option" where
  "gb_uart_init E api cport s =
     (let (ok, s1) = on_world (uart_zalloc api) s in
      if \<not> ok then Some (Some (- ENOMEM, s1))
      else
        let (dev, s2) = on_world (uart_open api) (put_info (blank_info cport) (s1\<lparr>us_priv := True\<rparr>));
            s3 = s2\<lparr>us_dev := dev, us_open := (case dev of None \<Rightarrow> us_open s2 | Some _ \<Rightarrow> us_open s2 + 1)\<rparr> in
        if dev = None then do { t \<leftarrow> err_device_close api (- ENODEV) s3; Some (Some t) }
        else do {
          (ret, s4) \<leftarrow> uart_status_cb_init E api s3;
          if ret \<noteq> 0 then do { t \<leftarrow> err_device_close api ret s4; Some (Some t) }
          else do {
            (ret, s5) \<leftarrow> uart_receiver_cb_init api s4;
            if ret \<noteq> 0 then do { t \<leftarrow> err_status_cb_deinit E api ret s5; Some (Some t) }
            else uart_update_status E api s5 } })"

definition gb_uart_exit :: "'w env \<Rightarrow> 'w uart_api \<Rightarrow> 'w uart_sys \<Rightarrow> 'w uart_sys option option" where
  "gb_uart_exit E api s =
     (if \<not> us_priv s then Some (Some s)
      else do {
        let (_, s1) = on_world (device_uart_attach_ls_callback api False (us_dev s)) s;
        let (_, s2) = on_world (device_uart_attach_ms_callback api False (us_dev s)) s1;
        r \<leftarrow> uart_receiver_cb_deinit E api s2;
        (case r of
           None \<Rightarrow> Some None
         | Some s3 \<Rightarrow> do {
             s4 \<leftarrow> uart_status_cb_deinit E api s3;
             let (_, s5) = on_world (\<lambda>w. ((), uart_close api (us_dev s4) w)) s4;
             Some (Some (s5\<lparr>us_open := us_open s5 - 1, us_dev := None\<rparr>)) }) })"

end
