(* ===== verification/Gb_Uart_Runs.thy ===== *)
theory Gb_Uart_Runs
  imports Gb_Uart_Threads
begin

text \<open>
  What holds of the UART driver however the interrupt of the device, the receive thread, the status
  thread, the rest of the core and the end of the driver take turns: every buffer is in one place,
  what has been received is handed to the host in order, and the one fault there is, the race for
  the last free buffer. The nodes in \<open>owned\<close> are those of the two queues, that in the hands of the
  receive thread and that of the device.
\<close>

section \<open>The invariant\<close>

definition flight :: "'w uart_sys \<Rightarrow> nat list" where
  "flight s = (case us_pc s of Rx_send n \<Rightarrow> [n] | Rx_put n \<Rightarrow> [n] | Rx_start n \<Rightarrow> [n] | _ \<Rightarrow> [])"

definition armed_node :: "'w uart_sys \<Rightarrow> nat list" where
  "armed_node s = (case us_armed s of None \<Rightarrow> [] | Some n \<Rightarrow> [n])"

definition owned :: "'w uart_sys \<Rightarrow> nat list" where
  "owned s = ui_free_queue (us_info s) @ ui_data_queue (us_info s) @ flight s @ armed_node s"

definition node_ok :: "nat \<Rightarrow> uart_node \<Rightarrow> bool" where
  "node_ok k node \<longleftrightarrow> length (un_buffer node) = k \<and> unat (un_data_size node) \<le> k"

definition chunk_of :: "'w uart_sys \<Rightarrow> nat \<Rightarrow> chunk" where
  "chunk_of s n =
     (case get_node s n of None \<Rightarrow> ([], 0) | Some node \<Rightarrow> (take (unat (un_data_size node)) (un_buffer node), un_data_flags node))"

definition pending_nodes :: "'w uart_sys \<Rightarrow> nat list" where
  "pending_nodes s = (case us_pc s of Rx_send n \<Rightarrow> [n] | _ \<Rightarrow> []) @ ui_data_queue (us_info s)"

definition pending :: "'w uart_sys \<Rightarrow> chunk list" where
  "pending s = map (chunk_of s) (pending_nodes s)"

definition uart_held :: "gb_uart_info \<Rightarrow> nat \<Rightarrow> int" where
  "uart_held info a = (if ui_ms_ls_operation info = Some a then 1 else 0)"

definition pool_ok :: "'w uart_sys \<Rightarrow> bool" where
  "pool_ok s \<longleftrightarrow> distinct (owned s) \<and> ui_rx_buf_size (us_info s) \<le> 256
     \<and> (\<forall>n \<in> set (owned s). \<exists>node. get_node s n = Some node \<and> node_ok (ui_rx_buf_size (us_info s)) node)"

definition control_ok :: "'w uart_sys \<Rightarrow> bool" where
  "control_ok s \<longleftrightarrow>
     (\<forall>n. us_armed s = Some n \<longrightarrow> ui_rx_node (us_info s) = Some n)
     \<and> (ui_require_node (us_info s) \<and> us_pc s \<noteq> Rx_clear \<longrightarrow> us_armed s = None)
     \<and> (\<forall>n. us_pc s = Rx_start n \<longrightarrow> ui_require_node (us_info s) \<and> ui_rx_node (us_info s) = Some n)
     \<and> (us_pc s \<noteq> Rx_ended \<longrightarrow>
          length (ui_data_queue (us_info s)) \<le> ui_rx_sem (us_info s) + (if us_pc s = Rx_take then 1 else 0))"

definition uart_core_ok :: "'w uart_sys \<Rightarrow> bool" where
  "uart_core_ok s \<longleftrightarrow> core_inv (uart_held (us_info s)) (us_core s) \<and> ui_cport (us_info s) < length (g_cport (us_core s))
     \<and> (\<exists>a. ui_ms_ls_operation (us_info s) = Some a \<and> op_shape (us_core s) a = Some (ui_cport (us_info s), Some 9))"

definition account_ok :: "'w uart_sys \<Rightarrow> bool" where
  "account_ok s \<longleftrightarrow> us_received s = map fst (us_handed s) @ pending s"

definition uart_inv :: "'w uart_sys \<Rightarrow> bool" where
  "uart_inv s \<longleftrightarrow> pool_ok s \<and> control_ok s \<and> uart_core_ok s \<and> account_ok s"

text \<open>The state that a successful start leaves behind.\<close>

definition uart_started :: "'w uart_sys \<Rightarrow> bool" where
  "uart_started s \<longleftrightarrow> us_pc s = Rx_wait \<and> us_armed s = None \<and> ui_data_queue (us_info s) = [] \<and> ui_require_node (us_info s)
     \<and> length (ui_free_queue (us_info s)) = MAX_RX_BUF_NUMBER \<and> ui_rx_buf_size (us_info s) = MAX_RX_BUF_SIZE
     \<and> ui_rx_sem (us_info s) = 1 \<and> \<not> ui_thread_stop (us_info s) \<and> us_received s = [] \<and> us_handed s = [] \<and> pool_ok s \<and> uart_core_ok s"

section \<open>Steps\<close>

text \<open>Other threads change the core, but keep what the driver holds.\<close>

definition core_rely :: "'w uart_sys \<Rightarrow> 'w core \<Rightarrow> bool" where
  "core_rely s c \<longleftrightarrow> core_inv (uart_held (us_info s)) c \<and> length (g_cport c) = length (g_cport (us_core s))
     \<and> held_frame (uart_held (us_info s)) (us_core s) c"

inductive uart_step :: "'w env \<Rightarrow> 'w uart_api \<Rightarrow> 'w uart_sys \<Rightarrow> 'w uart_sys \<Rightarrow> bool" for E api where
  Thread: "\<not> uart_rx_blocked s \<Longrightarrow> uart_rx_thread E api s = Some t \<Longrightarrow> uart_step E api s t"
| Interrupt: "uart_interrupt api data error s = Some t \<Longrightarrow> uart_step E api s t"
| Status: "0 < ui_status_sem (us_info s) \<Longrightarrow> uart_status_thread E api s = Some (b, t) \<Longrightarrow> uart_step E api s t"
| Modem: "uart_step E api s (uart_ms_callback ms s)"
| Line: "uart_step E api s (uart_ls_callback ls s)"
| Stop: "uart_step E api s (rx_stop s)"
| Core: "core_rely s c \<Longrightarrow> uart_step E api s (s\<lparr>us_core := c\<rparr>)"

inductive_cases uart_stepE: "uart_step E api s t"

section \<open>Elementary facts\<close>

lemma uart_held_eq: "uart_held info = (\<lambda>a. if ui_ms_ls_operation info = Some a then 1 else 0)"
  by (simp add: fun_eq_iff uart_held_def)

lemma get_node_simps [simp]:
  "get_node (put_info info s) n = get_node s n" "get_node (s\<lparr>us_pc := pc\<rparr>) n = get_node s n"
  "get_node (s\<lparr>us_armed := a\<rparr>) n = get_node s n" "get_node (s\<lparr>us_core := c\<rparr>) n = get_node s n"
  "get_node (s\<lparr>us_received := r\<rparr>) n = get_node s n" "get_node (s\<lparr>us_handed := l\<rparr>) n = get_node s n"
  by (simp_all add: get_node_def put_info_def)

lemma get_put_node: "get_node (put_node n node s) m = (if m = n \<and> n < length (us_nodes s) then Some node else get_node s m)"
  by (auto simp: get_node_def put_node_def)

lemma get_node_SomeD: "get_node s n = Some node \<Longrightarrow> n < length (us_nodes s)"
  by (simp add: get_node_def split: if_splits)

lemma put_simps [simp]:
  "us_info (put_node n node s) = us_info s" "us_pc (put_node n node s) = us_pc s" "us_armed (put_node n node s) = us_armed s"
  "us_core (put_node n node s) = us_core s" "us_received (put_node n node s) = us_received s"
  "us_handed (put_node n node s) = us_handed s" "us_dev (put_node n node s) = us_dev s"
  "us_info (put_info info s) = info" "us_pc (put_info info s) = us_pc s" "us_armed (put_info info s) = us_armed s"
  "us_core (put_info info s) = us_core s" "us_received (put_info info s) = us_received s"
  "us_handed (put_info info s) = us_handed s" "us_dev (put_info info s) = us_dev s"
  "us_nodes (put_info info s) = us_nodes s" "put_info i (put_info info s) = put_info i s"
  by (simp_all add: put_node_def put_info_def)

lemmas inv_defs = uart_inv_def pool_ok_def control_ok_def account_ok_def owned_def flight_def armed_node_def
  pending_def pending_nodes_def

text \<open>A call of the device changes the world of the core only.\<close>

lemma on_world_cases:
  obtains w where "on_world f s = (fst (f (world (us_core s))), s\<lparr>us_core := (us_core s)\<lparr>world := w\<rparr>\<rparr>)"
proof -
  show ?thesis by (rule that[of "snd (f (world (us_core s)))"]) (simp add: on_world_def Let_def case_prod_beta)
qed

lemma start_receiver_cases:
  obtains (ok) w where "start_receiver api n s = (0, s\<lparr>us_core := (us_core s)\<lparr>world := w\<rparr>, us_armed := Some n\<rparr>)"
  | (failed) w r where "r \<noteq> 0" "start_receiver api n s = (r, s\<lparr>us_core := (us_core s)\<lparr>world := w\<rparr>\<rparr>)"
proof -
  obtain w where w: "on_world (device_uart_start_receiver api n (us_dev s)) s =
      (fst (device_uart_start_receiver api n (us_dev s) (world (us_core s))), s\<lparr>us_core := (us_core s)\<lparr>world := w\<rparr>\<rparr>)"
    by (rule on_world_cases)
  show ?thesis
    using ok[of w] failed[of _ w] unfolding start_receiver_def w
    by (cases "fst (device_uart_start_receiver api n (us_dev s) (world (us_core s))) = 0") auto
qed

lemma uart_core_ok_world [simp]: "uart_core_ok (s\<lparr>us_core := (us_core s)\<lparr>world := w\<rparr>\<rparr>) = uart_core_ok s"
  by (simp add: uart_core_ok_def)

text \<open>The core part speaks of the cport and the status operation only.\<close>

lemma uart_core_ok_cong:
  "us_core t = us_core s \<Longrightarrow> ui_cport (us_info t) = ui_cport (us_info s) \<Longrightarrow>
     ui_ms_ls_operation (us_info t) = ui_ms_ls_operation (us_info s) \<Longrightarrow> uart_core_ok t = uart_core_ok s"
  unfolding uart_core_ok_def uart_held_def by simp

section \<open>The interrupt\<close>

text \<open>What the device and the callback do to the node, before the next one is looked for.\<close>

definition filled :: "'w uart_api \<Rightarrow> bytes \<Rightarrow> u32 \<Rightarrow> uart_node \<Rightarrow> uart_node" where
  "filled api data error node =
     node\<lparr>un_buffer := data @ drop (length data) (un_buffer node), un_data_size := word_of_nat (length data),
          un_data_flags := recv_flags api error\<rparr>"

definition queued :: "'w uart_api \<Rightarrow> bytes \<Rightarrow> u32 \<Rightarrow> nat \<Rightarrow> uart_node \<Rightarrow> 'w uart_sys \<Rightarrow> 'w uart_sys" where
  "queued api data error n node s =
     put_info ((us_info s)\<lparr>ui_data_queue := ui_data_queue (us_info s) @ [n], ui_rx_sem := ui_rx_sem (us_info s) + 1\<rparr>)
       ((put_node n (filled api data error node) s)\<lparr>us_armed := None, us_received := us_received s @ [(data, recv_flags api error)]\<rparr>)"

lemma uart_interrupt_cases:
  assumes inv: "uart_inv s" and t: "uart_interrupt api data error s = Some t"
  obtains n node where "us_armed s = Some n" and "get_node s n = Some node" and "length data \<le> length (un_buffer node)"
    and "ui_free_queue (us_info s) = []"
      "t = put_info ((us_info (queued api data error n node s))\<lparr>ui_require_node := True\<rparr>) (queued api data error n node s)"
  | n node m queue s1 where "us_armed s = Some n" and "get_node s n = Some node" and "length data \<le> length (un_buffer node)"
    and "ui_free_queue (us_info s) = m # queue"
      "s1 = put_info ((us_info (queued api data error n node s))\<lparr>ui_free_queue := queue, ui_rx_node := Some m\<rparr>)
              (queued api data error n node s)"
      "t = snd (start_receiver api m s1)"
proof -
  from t obtain n node b where n: "us_armed s = Some n" "get_node s n = Some node" "wr_slice (un_buffer node) 0 data = Some b"
    by (auto simp: uart_interrupt_def bind_eq_Some_conv)
  have rx: "ui_rx_node (us_info s) = Some n" using inv n(1) by (simp add: uart_inv_def control_ok_def)
  have b: "b = data @ drop (length data) (un_buffer node)" "length data \<le> length (un_buffer node)"
    using n(3) by (simp_all add: wr_slice_def split: if_splits)
  have put: "put_node n node2 ((put_node n node1 s)\<lparr>us_armed := None, us_received := r\<rparr>) =
      (put_node n node2 s)\<lparr>us_armed := None, us_received := r\<rparr>" for node1 node2 r
    by (simp add: put_node_def)
  have cb: "uart_rx_callback api (length data) error
      ((put_node n (node\<lparr>un_buffer := b\<rparr>) s)\<lparr>us_armed := None, us_received := us_received s @ [(data, recv_flags api error)]\<rparr>) = Some t"
    using t n by (simp add: uart_interrupt_def)
  show ?thesis
  proof (cases "ui_free_queue (us_info s)")
    case Nil
    then show ?thesis
      using that(1)[OF n(1,2) b(2)] cb rx get_node_SomeD[OF n(2)]
      by (simp add: uart_rx_callback_def get_put_node put put_node_back_def queued_def filled_def b(1) Let_def)
  next
    case (Cons m queue)
    then show ?thesis
      using that(2)[OF n(1,2) b(2) Cons] cb rx get_node_SomeD[OF n(2)]
      by (auto simp: uart_rx_callback_def get_put_node put put_node_back_def queued_def filled_def b(1) Let_def
          bind_eq_Some_conv case_prod_beta)
  qed
qed

lemma queued_simps [simp]:
  "us_info (queued api data error n node s) = (us_info s)\<lparr>ui_data_queue := ui_data_queue (us_info s) @ [n],
     ui_rx_sem := ui_rx_sem (us_info s) + 1\<rparr>"
  "us_pc (queued api data error n node s) = us_pc s" "us_armed (queued api data error n node s) = None"
  "us_core (queued api data error n node s) = us_core s" "us_handed (queued api data error n node s) = us_handed s"
  "us_received (queued api data error n node s) = us_received s @ [(data, recv_flags api error)]"
  "us_dev (queued api data error n node s) = us_dev s"
  by (simp_all add: queued_def)

lemma get_node_queued:
  "n < length (us_nodes s) \<Longrightarrow>
     get_node (queued api data error n node s) m = (if m = n then Some (filled api data error node) else get_node s m)"
  by (simp add: queued_def get_put_node)

lemma node_ok_filled:
  "node_ok k node \<Longrightarrow> length data \<le> length (un_buffer node) \<Longrightarrow> k \<le> 256 \<Longrightarrow> node_ok k (filled api data error node)"
  by (simp add: node_ok_def filled_def)

text \<open>A node that nobody has, in the hands of the device.\<close>

lemma pending_world_armed: "pending (s\<lparr>us_core := c, us_armed := a\<rparr>) = pending s" "pending (s\<lparr>us_core := c\<rparr>) = pending s"
  by (simp_all add: pending_def pending_nodes_def chunk_of_def get_node_def)

lemma start_pool:
  assumes "pool_ok s" and "n \<notin> set (owned s)" and "us_armed s = None"
    and "\<exists>node. get_node s n = Some node \<and> node_ok (ui_rx_buf_size (us_info s)) node"
  shows "pool_ok (s\<lparr>us_core := c, us_armed := Some n\<rparr>)"
  using assms by (auto simp: pool_ok_def owned_def flight_def armed_node_def)

lemma start_inv:
  assumes "pool_ok s" and "control_ok s" and "uart_core_ok s" and "account_ok s" and "us_armed s = None"
    and "n \<notin> set (owned s)" and "\<exists>node. get_node s n = Some node \<and> node_ok (ui_rx_buf_size (us_info s)) node"
    and "ui_rx_node (us_info s) = Some n" and "\<not> (ui_require_node (us_info s) \<and> us_pc s \<noteq> Rx_clear)"
  shows "uart_inv (snd (start_receiver api n s))"
proof (cases rule: start_receiver_cases[of api n s])
  case (ok w)
  let ?t = "s\<lparr>us_core := (us_core s)\<lparr>world := w\<rparr>, us_armed := Some n\<rparr>"
  have "pool_ok ?t" using start_pool[OF assms(1,6,5,7)] .
  moreover have "control_ok ?t" using assms(2,8,9) by (auto simp: control_ok_def)
  moreover have "uart_core_ok ?t" using assms(3) by (simp add: uart_core_ok_def)
  moreover have "account_ok ?t" using assms(4) by (simp add: account_ok_def pending_world_armed)
  ultimately show ?thesis using ok by (simp add: uart_inv_def)
next
  case (failed w r)
  let ?t = "s\<lparr>us_core := (us_core s)\<lparr>world := w\<rparr>\<rparr>"
  have "pool_ok ?t" using assms(1) by (simp add: pool_ok_def owned_def flight_def armed_node_def)
  moreover have "control_ok ?t" using assms(2) by (auto simp: control_ok_def)
  moreover have "account_ok ?t" using assms(4) by (simp add: account_ok_def pending_world_armed)
  ultimately show ?thesis using failed assms(3) by (simp add: uart_inv_def)
qed

text \<open>The pool, the chunks and the core part under the first half of the interrupt.\<close>

lemma queued_pool:
  assumes "pool_ok s" and "us_armed s = Some n" and "get_node s n = Some node" and "length data \<le> length (un_buffer node)"
  shows "pool_ok (queued api data error n node s)"
proof -
  have n: "n < length (us_nodes s)" using get_node_SomeD[OF assms(3)] .
  have "node_ok (ui_rx_buf_size (us_info s)) node"
    using assms(1-3) by (auto simp: pool_ok_def owned_def armed_node_def)
  then have "node_ok (ui_rx_buf_size (us_info s)) (filled api data error node)"
    using node_ok_filled assms(1,4) by (auto simp: pool_ok_def)
  then show ?thesis
    using assms(1,2) by (auto simp: pool_ok_def owned_def flight_def armed_node_def get_node_queued[OF n])
qed

lemma queued_pending:
  assumes "pool_ok s" and "us_armed s = Some n" and "get_node s n = Some node" and "length data \<le> length (un_buffer node)"
  shows "pending (queued api data error n node s) = pending s @ [(data, recv_flags api error)]"
proof -
  let ?q = "queued api data error n node s"
  have n: "n < length (us_nodes s)" using get_node_SomeD[OF assms(3)] .
  have "length (un_buffer node) \<le> 256"
    using assms(1-3) by (auto simp: pool_ok_def owned_def armed_node_def node_ok_def)
  then have "chunk_of ?q n = (data, recv_flags api error)"
    using assms(4) by (simp add: chunk_of_def get_node_queued[OF n] filled_def)
  moreover have "n \<notin> set (pending_nodes s)"
    using assms(1,2) by (auto simp: pool_ok_def owned_def armed_node_def flight_def pending_nodes_def split: rx_pc.splits)
  then have "map (chunk_of ?q) (pending_nodes s) = map (chunk_of s) (pending_nodes s)"
    by (intro map_cong) (auto simp: chunk_of_def get_node_queued[OF n])
  ultimately show ?thesis by (simp add: pending_def pending_nodes_def)
qed

lemma interrupt_inv:
  assumes inv: "uart_inv s" and t: "uart_interrupt api data error s = Some t"
  shows "uart_inv t"
  using inv t
proof (cases rule: uart_interrupt_cases)
  case (1 n node)
  let ?q = "queued api data error n node s"
  note q = queued_pool[OF _ 1(1-3)] queued_pending[OF _ 1(1-3)]
  have "pool_ok t" using q(1) inv by (simp add: 1(5) uart_inv_def pool_ok_def owned_def flight_def armed_node_def)
  moreover have "control_ok t" using inv by (auto simp: 1(5) uart_inv_def control_ok_def)
  moreover have "uart_core_ok t" using inv uart_core_ok_cong[of t s] by (simp add: 1(5) uart_inv_def)
  moreover have "pending t = pending ?q" by (simp add: 1(5) pending_def pending_nodes_def chunk_of_def)
  then have "account_ok t" using inv q(2) by (simp add: 1(5) uart_inv_def account_ok_def)
  ultimately show ?thesis by (simp add: uart_inv_def)
next
  case (2 n node m queue s1)
  let ?q = "queued api data error n node s"
  note q = queued_pool[OF _ 2(1-3)] queued_pending[OF _ 2(1-3)]
  have p: "pool_ok ?q" using q(1) inv by (simp add: uart_inv_def)
  have rest: "pool_ok s1" "control_ok s1" "m \<notin> set (owned s1)" "\<exists>node. get_node s1 m = Some node \<and> node_ok (ui_rx_buf_size (us_info s1)) node"
    "us_armed s1 = None" "ui_rx_node (us_info s1) = Some m"
    using p inv 2(1,4) by (auto simp: 2(5) pool_ok_def owned_def flight_def armed_node_def uart_inv_def control_ok_def)
  have "\<not> (ui_require_node (us_info s1) \<and> us_pc s1 \<noteq> Rx_clear)" using inv 2(1) by (auto simp: 2(5) uart_inv_def control_ok_def)
  moreover have "uart_core_ok s1" using inv uart_core_ok_cong[of s1 s] by (simp add: 2(5) uart_inv_def)
  moreover have "pending s1 = pending ?q" by (simp add: 2(5) pending_def pending_nodes_def chunk_of_def)
  then have "account_ok s1" using inv q(2) by (simp add: 2(5) uart_inv_def account_ok_def)
  ultimately show ?thesis
    using rest start_inv[of s1 m] 2(6) by blast
qed

section \<open>The receive thread\<close>

lemma chunk_of_simps [simp]:
  "chunk_of (put_info info s) n = chunk_of s n" "chunk_of (s\<lparr>us_pc := pc\<rparr>) n = chunk_of s n"
  "chunk_of (s\<lparr>us_core := c\<rparr>) n = chunk_of s n" "chunk_of (s\<lparr>us_handed := l\<rparr>) n = chunk_of s n"
  by (simp_all add: chunk_of_def)

lemma fun_chunk_of [simp]:
  "chunk_of (put_info info s) = chunk_of s" "chunk_of (s\<lparr>us_pc := pc\<rparr>) = chunk_of s"
  "chunk_of (s\<lparr>us_core := c\<rparr>) = chunk_of s" "chunk_of (s\<lparr>us_handed := l\<rparr>) = chunk_of s"
  by (simp_all add: fun_eq_iff)

text \<open>The steps that only move nodes and control.\<close>

lemma move_inv:
  assumes inv: "uart_inv s" and "\<not> uart_rx_blocked s" and t: "uart_rx_thread E api s = Some t"
    and pc: "\<And>n. us_pc s \<noteq> Rx_send n" "\<And>n. us_pc s \<noteq> Rx_start n"
  shows "uart_inv t"
proof -
  have p: "pool_ok s" "control_ok s" "account_ok s" using inv by (simp_all add: uart_inv_def)
  have "uart_core_ok t" using inv t pc uart_core_ok_cong[of t s]
    by (cases "us_pc s") (auto simp: uart_inv_def uart_rx_thread_def Let_def split: option.splits prod.splits if_splits)
  moreover have "pool_ok t" using p(1) t pc
    by (cases "us_pc s"; cases "ui_data_queue (us_info s)"; cases "ui_free_queue (us_info s)")
      (auto simp: pool_ok_def owned_def flight_def armed_node_def uart_rx_thread_def Let_def put_node_back_def split: if_splits)
  moreover have "control_ok t" using p(2) t pc assms(2)
    by (cases "us_pc s"; cases "ui_data_queue (us_info s)"; cases "ui_free_queue (us_info s)")
      (auto simp: control_ok_def uart_rx_thread_def Let_def uart_rx_blocked_def split: if_splits)
  moreover have "account_ok t" using p(3) t pc
    by (cases "us_pc s"; cases "ui_data_queue (us_info s)"; cases "ui_free_queue (us_info s)")
      (auto simp: account_ok_def pending_def pending_nodes_def uart_rx_thread_def Let_def split: if_splits)
  ultimately show ?thesis by (simp add: uart_inv_def)
qed

lemma start_step_inv:
  assumes inv: "uart_inv s" and t: "uart_rx_thread E api s = Some t" and pc: "us_pc s = Rx_start n"
  shows "uart_inv t"
proof -
  let ?s = "s\<lparr>us_pc := Rx_clear\<rparr>"
  have p: "pool_ok s" "control_ok s" "account_ok s" "uart_core_ok s" using inv by (simp_all add: uart_inv_def)
  have armed: "us_armed s = None" "ui_rx_node (us_info s) = Some n" using p(2) pc by (auto simp: control_ok_def)
  have start: "start_receiver api n ?s = (fst (start_receiver api n s), (snd (start_receiver api n s))\<lparr>us_pc := Rx_clear\<rparr>)"
    by (simp add: start_receiver_def on_world_def Let_def case_prod_beta)
  have t: "t = snd (start_receiver api n ?s)"
    using t pc unfolding start by (auto simp: uart_rx_thread_def Let_def bind_eq_Some_conv case_prod_beta)
  have n: "n \<notin> set (owned ?s)" "\<exists>node. get_node ?s n = Some node \<and> node_ok (ui_rx_buf_size (us_info ?s)) node"
    using p(1) pc armed by (auto simp: pool_ok_def owned_def flight_def armed_node_def)
  have "pool_ok ?s" using p(1) pc by (simp add: pool_ok_def owned_def flight_def armed_node_def)
  moreover have "control_ok ?s" using p(2) pc by (auto simp: control_ok_def)
  moreover have "uart_core_ok ?s" using p(4) by (simp add: uart_core_ok_def)
  moreover have "account_ok ?s" using p(3) pc by (simp add: account_ok_def pending_def pending_nodes_def)
  ultimately show ?thesis unfolding t by (rule start_inv) (use n armed in simp_all)
qed

text \<open>The request: the core stays in order, and the chunk counts as handed on.\<close>

lemma send_step:
  assumes inv: "uart_inv s" and pc: "us_pc s = Rx_send n"
  obtains node ok c where "get_node s n = Some node" and "chunk_of s n = (take (unat (un_data_size node)) (un_buffer node), un_data_flags node)"
    and "send_message E (ui_cport (us_info s)) 0x03
       (bytes16 (un_data_size node) @ un_data_flags node # take (unat (un_data_size node)) (un_buffer node)) (us_core s) = Some (ok, c)"
    and "uart_core_ok (s\<lparr>us_core := c\<rparr>)"
    and "uart_rx_thread E api s = Some (s\<lparr>us_core := c, us_pc := Rx_put n, us_handed := us_handed s @ [(chunk_of s n, ok)]\<rparr>)"
proof -
  obtain node where node: "get_node s n = Some node" "node_ok (ui_rx_buf_size (us_info s)) node" "ui_rx_buf_size (us_info s) \<le> 256"
    using inv pc by (auto simp: uart_inv_def pool_ok_def owned_def flight_def)
  let ?data = "take (unat (un_data_size node)) (un_buffer node)"
  have len: "unat (un_data_size node) \<le> length (un_buffer node)" "length (un_buffer node) \<le> 256"
    using node(2,3) by (simp_all add: node_ok_def)
  have c: "core_inv (uart_held (us_info s)) (us_core s)" "ui_cport (us_info s) < length (g_cport (us_core s))"
    using inv by (simp_all add: uart_inv_def uart_core_ok_def)
  obtain a where a: "ui_ms_ls_operation (us_info s) = Some a" "op_shape (us_core s) a = Some (ui_cport (us_info s), Some 9)"
    using inv by (auto simp: uart_inv_def uart_core_ok_def)
  obtain cp where cp: "get_cp (us_core s) (ui_cport (us_info s)) = Some cp" using c(2) by (simp add: get_cp_def)
  have "length (bytes16 (un_data_size node) @ un_data_flags node # ?data) + 8 < 65536" using len by simp
  from send_message_ok[OF c(1) this cp, of E "0x03"] obtain ok c' where
    c': "send_message E (ui_cport (us_info s)) 0x03 (bytes16 (un_data_size node) @ un_data_flags node # ?data) (us_core s) = Some (ok, c')"
      "core_inv (uart_held (us_info s)) c'" "g_cport c' = g_cport (us_core s)" "held_frame (uart_held (us_info s)) (us_core s) c'"
    by metis
  have "op_shape c' a = op_shape (us_core s) a" using c'(4) a(1) by (simp add: held_frame_def uart_held_def)
  then have "uart_core_ok (s\<lparr>us_core := c'\<rparr>)" using a c(2) c'(2,3) by (simp add: uart_core_ok_def)
  moreover have "rd_slice (un_buffer node) 0 (unat (un_data_size node)) = Some ?data" using len by (simp add: rd_slice_def)
  ultimately show ?thesis
    using that[OF node(1) _ c'(1)] node(1) c'(1) pc by (simp add: chunk_of_def uart_rx_thread_def)
qed

lemma send_step_inv:
  assumes inv: "uart_inv s" and t: "uart_rx_thread E api s = Some t" and pc: "us_pc s = Rx_send n"
  shows "uart_inv t"
proof -
  from send_step[OF inv pc, of E api] obtain ok c where core: "uart_core_ok (s\<lparr>us_core := c\<rparr>)"
    and t: "t = s\<lparr>us_core := c, us_pc := Rx_put n, us_handed := us_handed s @ [(chunk_of s n, ok)]\<rparr>"
    using t by (metis option.inject)
  have p: "pool_ok s" "control_ok s" "account_ok s" using inv by (simp_all add: uart_inv_def)
  have "pool_ok t" using p(1) pc by (simp add: t pool_ok_def owned_def flight_def armed_node_def)
  moreover have "control_ok t" using p(2) pc by (auto simp: t control_ok_def)
  moreover have "uart_core_ok t" using core by (simp add: t uart_core_ok_def)
  moreover have "account_ok t" using p(3) pc by (simp add: t account_ok_def pending_def pending_nodes_def)
  ultimately show ?thesis by (simp add: uart_inv_def)
qed

lemma thread_inv:
  assumes "uart_inv s" and "\<not> uart_rx_blocked s" and "uart_rx_thread E api s = Some t"
  shows "uart_inv t"
  using move_inv[OF assms] start_step_inv[OF assms(1,3)] send_step_inv[OF assms(1,3)] by blast

section \<open>The other steps\<close>

text \<open>Steps that touch neither queues nor nodes.\<close>

lemma quiet_inv:
  assumes "uart_inv s" and "us_nodes t = us_nodes s" and "us_pc t = us_pc s" and "us_armed t = us_armed s"
    and "us_received t = us_received s" and "us_handed t = us_handed s"
    and "ui_free_queue (us_info t) = ui_free_queue (us_info s)" and "ui_data_queue (us_info t) = ui_data_queue (us_info s)"
    and "ui_rx_node (us_info t) = ui_rx_node (us_info s)" and "ui_rx_buf_size (us_info t) = ui_rx_buf_size (us_info s)"
    and "ui_require_node (us_info t) = ui_require_node (us_info s)" and "ui_rx_sem (us_info s) \<le> ui_rx_sem (us_info t)"
    and "uart_core_ok t"
  shows "uart_inv t"
proof -
  have g: "get_node t n = get_node s n" "chunk_of t n = chunk_of s n" for n using assms(2) by (simp_all add: get_node_def chunk_of_def)
  then have "chunk_of t = chunk_of s" by (simp add: fun_eq_iff)
  then show ?thesis
    using assms g unfolding uart_inv_def pool_ok_def control_ok_def account_ok_def owned_def flight_def armed_node_def
      pending_def pending_nodes_def by (auto intro: le_trans)
qed

lemma own_request_ok:
  assumes core: "uart_core_ok s" and a: "ui_ms_ls_operation (us_info s) = Some a" and op: "get_op (us_core s) a = Some op"
    and b: "op_request_buffer op = Some b" "wr8 b HDR_SIZE v = Some b'"
  obtains r c where "gb_operation_send_request E a None False (put_op a (op\<lparr>op_request_buffer := Some b'\<rparr>) (us_core s)) = Some (r, c)"
    and "uart_core_ok (s\<lparr>us_core := c\<rparr>)"
proof -
  let ?op = "op\<lparr>op_request_buffer := Some b'\<rparr>"
  let ?c = "put_op a ?op (us_core s)"
  have inv: "core_inv (uart_held (us_info s)) (us_core s)" using core by (simp add: uart_core_ok_def)
  have b': "length b' = length b" "\<exists>v. b' = b[8 := v]" using b(2) by (auto simp: wr8_def split: if_splits)
  have "hdr_size b' = hdr_size b" using b' by (auto simp: rd16_def rd8_def)
  then have "op_ok (length (g_cport (us_core s))) ?op"
    using core_invD(3)[OF inv op] b b' by (auto simp: op_ok_def buffer_ok_def)
  then have i: "core_inv (uart_held (us_info s)) ?c" by (intro core_inv_put_op[OF inv op]) simp_all
  have sh: "op_shape ?c x = op_shape (us_core s) x" for x by (rule op_shape_put_op[OF op]) (use b b' in simp_all)
  have "0 < uart_held (us_info s) a" using a by (simp add: uart_held_def)
  from send_own_request[OF i this, of E] obtain r c where c: "gb_operation_send_request E a None False ?c = Some (r, c)"
    "core_inv (uart_held (us_info s)) c" "g_cport c = g_cport ?c" "\<And>b. op_view c b = op_view ?c b" by metis
  then have "op_shape c x = op_shape (us_core s) x" for x using sh[of x] by (simp add: op_shape_view)
  then show ?thesis using that core a c(1-3) by (simp add: uart_core_ok_def)
qed

lemma status_step:
  assumes core: "uart_core_ok s"
  obtains c ls where "uart_status_thread E api s = Some (\<not> ui_thread_stop (us_info s),
      (put_info ((us_info s)\<lparr>ui_status_sem := ui_status_sem (us_info s) - 1, ui_last_serial_state := ls\<rparr>) s)\<lparr>us_core := c\<rparr>)"
    and "uart_core_ok (s\<lparr>us_core := c\<rparr>)"
proof -
  let ?info = "(us_info s)\<lparr>ui_status_sem := ui_status_sem (us_info s) - 1\<rparr>"
  let ?st = "parse_ms_ls_registers api (ui_updated_ms (us_info s)) (ui_updated_ls (us_info s))"
  have same: "?info\<lparr>ui_last_serial_state := ui_last_serial_state (us_info s)\<rparr> = ?info" by simp
  show ?thesis
  proof (cases "ui_thread_stop (us_info s) \<or> ui_last_serial_state (us_info s) = ucast ?st")
    case True
    have "s\<lparr>us_core := us_core s\<rparr> = s" "(put_info ?info s)\<lparr>us_core := us_core s\<rparr> = put_info ?info s" by (simp_all add: put_info_def)
    then show ?thesis using True core that[of "us_core s" "ui_last_serial_state (us_info s)"]
      by (auto simp: uart_status_thread_def Let_def same)
  next
    case False
    obtain a where a: "ui_ms_ls_operation (us_info s) = Some a" "op_shape (us_core s) a = Some (ui_cport (us_info s), Some 9)"
      using core by (auto simp: uart_core_ok_def)
    then obtain op b where op: "get_op (us_core s) a = Some op" "op_request_buffer op = Some b" "length b = 9"
      by (auto simp: op_shape_def)
    have w: "wr8 b HDR_SIZE ?st = Some (b[8 := ?st])" using op(3) by (simp add: wr8_def)
    from own_request_ok[OF core a(1) op(1,2) w, of E] obtain r c where
      "gb_operation_send_request E a None False (put_op a (op\<lparr>op_request_buffer := Some (b[8 := ?st])\<rparr>) (us_core s)) = Some (r, c)"
      "uart_core_ok (s\<lparr>us_core := c\<rparr>)" by metis
    then show ?thesis using False a(1) op w that[of c "ucast ?st"] by (simp add: uart_status_thread_def)
  qed
qed

lemma status_inv:
  assumes inv: "uart_inv s" and t: "uart_status_thread E api s = Some (b, t)"
  shows "uart_inv t"
proof -
  have "uart_core_ok s" using inv by (simp add: uart_inv_def)
  from status_step[OF this, of E api] obtain c ls where core: "uart_core_ok (s\<lparr>us_core := c\<rparr>)"
    and t: "t = (put_info ((us_info s)\<lparr>ui_status_sem := ui_status_sem (us_info s) - 1, ui_last_serial_state := ls\<rparr>) s)\<lparr>us_core := c\<rparr>"
    using t by (metis option.inject prod.inject)
  have "uart_core_ok t" using core by (simp add: t uart_core_ok_def uart_held_eq)
  then show ?thesis by (intro quiet_inv[OF inv]) (simp_all add: t)
qed

lemma rely_inv:
  assumes inv: "uart_inv s" and "core_rely s c"
  shows "uart_inv (s\<lparr>us_core := c\<rparr>)"
proof -
  obtain a where a: "ui_ms_ls_operation (us_info s) = Some a" "op_shape (us_core s) a = Some (ui_cport (us_info s), Some 9)"
    using inv by (auto simp: uart_inv_def uart_core_ok_def)
  have "op_shape c a = op_shape (us_core s) a" using assms(2) a(1) by (simp add: core_rely_def held_frame_def uart_held_def)
  then have "uart_core_ok (s\<lparr>us_core := c\<rparr>)" using a assms by (simp add: uart_core_ok_def core_rely_def uart_inv_def)
  then show ?thesis by (intro quiet_inv[OF inv]) simp_all
qed

lemma step_inv: "uart_inv s \<Longrightarrow> uart_step E api s t \<Longrightarrow> uart_inv t"
proof (erule uart_stepE)
  assume inv: "uart_inv s"
  have core: "uart_core_ok s" using inv by (simp add: uart_inv_def)
  show "uart_inv t" if "t = uart_ms_callback ms s" for ms
    by (rule quiet_inv[OF inv]) (use core in \<open>simp_all add: that uart_ms_callback_def uart_core_ok_def uart_held_eq\<close>)
  show "uart_inv t" if "t = uart_ls_callback ls s" for ls
    by (rule quiet_inv[OF inv]) (use core in \<open>simp_all add: that uart_ls_callback_def uart_core_ok_def uart_held_eq\<close>)
  show "uart_inv t" if "t = rx_stop s"
    by (rule quiet_inv[OF inv]) (use core in \<open>simp_all add: that rx_stop_def uart_core_ok_def uart_held_eq\<close>)
qed (auto intro: thread_inv interrupt_inv status_inv rely_inv)

lemma started_inv: "uart_started s \<Longrightarrow> uart_inv s"
  by (simp add: uart_started_def uart_inv_def control_ok_def account_ok_def pending_def pending_nodes_def)

interpretation uart_relay: relay uart_started "uart_step E api" uart_inv us_received "\<lambda>s. map fst (us_handed s)" pending
  by unfold_locales (erule started_inv, erule (1) step_inv, simp add: uart_inv_def account_ok_def)

end
