(* ===== verification/Gb_Uart_Props.thy ===== *)
theory Gb_Uart_Props
  imports Gb_Uart_Runs Gb_Samples
begin

text \<open>
  The properties of the UART driver. What decides about its races is abstracted to \<open>uart_ctl\<close>, the
  two queues, the place of the thread and the node of the device; the detailed steps refine the
  steps on it, so that a run of the abstraction is one of the driver.
\<close>

section \<open>The control skeleton\<close>

record uart_ctl =
  c_free :: "nat list"
  c_data :: "nat list"
  c_pc :: rx_pc
  c_armed :: "nat option"
  c_require :: bool
  c_sem :: nat
  c_stop :: bool

definition ctl :: "'w uart_sys \<Rightarrow> uart_ctl" where
  "ctl s = \<lparr>c_free = ui_free_queue (us_info s), c_data = ui_data_queue (us_info s), c_pc = us_pc s, c_armed = us_armed s,
     c_require = ui_require_node (us_info s), c_sem = ui_rx_sem (us_info s), c_stop = ui_thread_stop (us_info s)\<rparr>"

definition ctl_blocked :: "uart_ctl \<Rightarrow> bool" where
  "ctl_blocked k \<longleftrightarrow> c_pc k = Rx_ended \<or> (c_pc k = Rx_wait \<and> c_sem k = 0)"

definition ctl_thread :: "uart_ctl \<Rightarrow> uart_ctl option" where
  "ctl_thread k =
     (case c_pc k of
        Rx_wait \<Rightarrow> Some (k\<lparr>c_sem := c_sem k - 1, c_pc := if c_stop k then Rx_ended else Rx_take\<rparr>)
      | Rx_take \<Rightarrow> Some (case c_data k of [] \<Rightarrow> k\<lparr>c_pc := Rx_check\<rparr> | n # q \<Rightarrow> k\<lparr>c_data := q, c_pc := Rx_send n\<rparr>)
      | Rx_send n \<Rightarrow> Some (k\<lparr>c_pc := Rx_put n\<rparr>)
      | Rx_put n \<Rightarrow> Some (k\<lparr>c_free := c_free k @ [n], c_pc := Rx_check\<rparr>)
      | Rx_check \<Rightarrow>
          (if c_require k then
             (case c_free k of [] \<Rightarrow> None | n # q \<Rightarrow> Some (k\<lparr>c_free := q, c_pc := Rx_start n\<rparr>))
           else Some (k\<lparr>c_pc := Rx_wait\<rparr>))
      | Rx_start n \<Rightarrow> Some (k\<lparr>c_armed := Some n, c_pc := Rx_clear\<rparr>)
      | Rx_clear \<Rightarrow> Some (k\<lparr>c_require := False, c_pc := Rx_wait\<rparr>)
      | Rx_ended \<Rightarrow> Some k)"

definition ctl_interrupt :: "uart_ctl \<Rightarrow> uart_ctl option" where
  "ctl_interrupt k = map_option (\<lambda>n. let k1 = k\<lparr>c_data := c_data k @ [n], c_sem := c_sem k + 1\<rparr> in
     case c_free k of [] \<Rightarrow> k1\<lparr>c_armed := None, c_require := True\<rparr> | m # q \<Rightarrow> k1\<lparr>c_armed := Some m, c_free := q\<rparr>) (c_armed k)"

lemma ctl_sel [simp]:
  "c_free (ctl s) = ui_free_queue (us_info s)" "c_data (ctl s) = ui_data_queue (us_info s)" "c_pc (ctl s) = us_pc s"
  "c_armed (ctl s) = us_armed s" "c_require (ctl s) = ui_require_node (us_info s)" "c_sem (ctl s) = ui_rx_sem (us_info s)"
  "c_stop (ctl s) = ui_thread_stop (us_info s)"
  by (simp_all add: ctl_def)

lemma ctl_blocked: "ctl_blocked (ctl s) = uart_rx_blocked s"
  by (simp add: ctl_blocked_def uart_rx_blocked_def)

text \<open>A device that always starts to receive.\<close>

definition receiver_starts :: "'w uart_api \<Rightarrow> bool" where
  "receiver_starts api \<longleftrightarrow> (\<forall>n d w. fst (device_uart_start_receiver api n d w) = 0)"

lemma start_receiver_starts:
  assumes "receiver_starts api"
  obtains w where "start_receiver api n s = (0, s\<lparr>us_core := (us_core s)\<lparr>world := w\<rparr>, us_armed := Some n\<rparr>)"
proof -
  have "fst (start_receiver api n s) = 0"
    using assms by (simp add: receiver_starts_def start_receiver_def on_world_def Let_def case_prod_beta)
  then show ?thesis
  proof (cases rule: start_receiver_cases[of api n s])
    case (ok w)
    then show ?thesis by (rule that)
  qed simp
qed

text \<open>Every step of the receive thread is one of the skeleton, and it faults where the skeleton does.\<close>

lemma thread_refines:
  assumes inv: "uart_inv s" and api: "receiver_starts api"
  shows "map_option ctl (uart_rx_thread E api s) = ctl_thread (ctl s)"
proof (cases "us_pc s")
  case (Rx_send n)
  from send_step[OF inv Rx_send, of E api] obtain ok c where
    "uart_rx_thread E api s = Some (s\<lparr>us_core := c, us_pc := Rx_put n, us_handed := us_handed s @ [(chunk_of s n, ok)]\<rparr>)" by metis
  then show ?thesis using Rx_send by (simp add: ctl_thread_def ctl_def)
next
  case (Rx_start n)
  from start_receiver_starts[OF api, of n s] obtain w where
    st: "start_receiver api n s = (0, s\<lparr>us_core := (us_core s)\<lparr>world := w\<rparr>, us_armed := Some n\<rparr>)" .
  obtain node where "get_node s n = Some node"
    using inv Rx_start by (auto simp: uart_inv_def pool_ok_def owned_def flight_def)
  then show ?thesis using Rx_start by (simp add: uart_rx_thread_def st ctl_thread_def ctl_def)
next
  case Rx_take
  then show ?thesis by (cases "ui_data_queue (us_info s)") (simp_all add: uart_rx_thread_def ctl_thread_def ctl_def)
next
  case Rx_check
  then show ?thesis by (cases "ui_free_queue (us_info s)") (simp_all add: uart_rx_thread_def ctl_thread_def ctl_def)
qed (simp_all add: uart_rx_thread_def ctl_thread_def ctl_def put_node_back_def Let_def)

lemma filled_fits:
  assumes inv: "uart_inv s" and "length data \<le> ui_rx_buf_size (us_info s)" and "us_armed s = Some n"
  obtains node b where "get_node s n = Some node" and "wr_slice (un_buffer node) 0 data = Some b"
proof -
  obtain node where "get_node s n = Some node" "node_ok (ui_rx_buf_size (us_info s)) node"
    using inv assms(3) by (auto simp: uart_inv_def pool_ok_def owned_def armed_node_def)
  then show ?thesis using that assms(2) by (simp add: node_ok_def wr_slice_def)
qed

lemma interrupt_total:
  assumes inv: "uart_inv s" and len: "length data \<le> ui_rx_buf_size (us_info s)" and n: "us_armed s = Some n"
  shows "uart_interrupt api data error s \<noteq> None"
proof -
  from filled_fits[OF inv len n] obtain node b where node: "get_node s n = Some node" "wr_slice (un_buffer node) 0 data = Some b" .
  have rx: "ui_rx_node (us_info s) = Some n" using inv n by (simp add: uart_inv_def control_ok_def)
  have "\<exists>node. get_node s m = Some node" if "ui_free_queue (us_info s) = m # q" for m q
    using inv that by (auto simp: uart_inv_def pool_ok_def owned_def)
  then show ?thesis
    using n node rx get_node_SomeD[OF node(1)]
    by (cases "ui_free_queue (us_info s)")
      (auto simp: uart_interrupt_def uart_rx_callback_def get_put_node Let_def case_prod_beta)
qed

lemma interrupt_refines:
  assumes inv: "uart_inv s" and api: "receiver_starts api" and t: "uart_interrupt api data error s = Some t"
  shows "ctl_interrupt (ctl s) = Some (ctl t)" and "ui_rx_buf_size (us_info t) = ui_rx_buf_size (us_info s)"
proof -
  have "ctl_interrupt (ctl s) = Some (ctl t) \<and> ui_rx_buf_size (us_info t) = ui_rx_buf_size (us_info s)"
    using inv t
  proof (cases rule: uart_interrupt_cases)
    case (1 n node)
    then show ?thesis by (simp add: ctl_interrupt_def ctl_def Let_def)
  next
    case (2 n node m queue s1)
    from start_receiver_starts[OF api, of m s1] obtain w where
      "start_receiver api m s1 = (0, s1\<lparr>us_core := (us_core s1)\<lparr>world := w\<rparr>, us_armed := Some m\<rparr>)" .
    then show ?thesis using 2 by (simp add: ctl_interrupt_def ctl_def Let_def)
  qed
  then show "ctl_interrupt (ctl s) = Some (ctl t)" "ui_rx_buf_size (us_info t) = ui_rx_buf_size (us_info s)" by simp_all
qed

lemma thread_buf_size:
  "uart_rx_thread E api s = Some t \<Longrightarrow> ui_rx_buf_size (us_info t) = ui_rx_buf_size (us_info s)"
  by (auto simp: uart_rx_thread_def Let_def bind_eq_Some_conv case_prod_beta start_receiver_def on_world_def
      split: rx_pc.splits option.splits if_splits)

text \<open>A run of the skeleton: \<open>True\<close> is an interrupt, \<open>False\<close> a step of the thread that is not blocked.\<close>

fun ctl_run :: "bool list \<Rightarrow> uart_ctl \<Rightarrow> uart_ctl option" where
  "ctl_run [] k = Some k"
| "ctl_run (True # es) k = do { k' \<leftarrow> ctl_interrupt k; ctl_run es k' }"
| "ctl_run (False # es) k = (if ctl_blocked k then None else do { k' \<leftarrow> ctl_thread k; ctl_run es k' })"

lemma ctl_run_realised:
  fixes data :: bytes
  assumes "ctl_run es (ctl s) = Some k" and "uart_inv s" and "receiver_starts api" and "length data \<le> ui_rx_buf_size (us_info s)"
  shows "\<exists>t. (uart_step E api)\<^sup>*\<^sup>* s t \<and> uart_inv t \<and> ctl t = k"
  using assms
proof (induction es arbitrary: s)
  case (Cons e es)
  show ?case
  proof (cases e)
    case True
    with Cons.prems(1) obtain n where n: "us_armed s = Some n" by (auto simp: bind_eq_Some_conv ctl_interrupt_def)
    then obtain t where t: "uart_interrupt api data 0 s = Some t"
      using interrupt_total[OF Cons.prems(2,4), of n api 0] by auto
    note r = interrupt_refines[OF Cons.prems(2,3) t]
    have "\<exists>u. (uart_step E api)\<^sup>*\<^sup>* t u \<and> uart_inv u \<and> ctl u = k"
      using Cons.prems True r by (intro Cons.IH interrupt_inv[OF Cons.prems(2) t]) simp_all
    then show ?thesis using converse_rtranclp_into_rtranclp[of "uart_step E api", OF uart_step.Interrupt[OF t]] by blast
  next
    case False
    have b: "\<not> uart_rx_blocked s" and "ctl_thread (ctl s) \<bind> ctl_run es = Some k"
      using Cons.prems(1) False by (simp_all add: ctl_blocked split: if_splits)
    then obtain t where t: "uart_rx_thread E api s = Some t" "ctl_run es (ctl t) = Some k"
      unfolding thread_refines[OF Cons.prems(2,3), of E, symmetric] by (auto simp: bind_eq_Some_conv)
    have "\<exists>u. (uart_step E api)\<^sup>*\<^sup>* t u \<and> uart_inv u \<and> ctl u = k"
      using Cons.prems t thread_buf_size[OF t(1)] by (intro Cons.IH thread_inv[OF Cons.prems(2) b t(1)]) simp_all
    then show ?thesis using converse_rtranclp_into_rtranclp[of "uart_step E api", OF uart_step.Thread[OF b t(1)]] by blast
  qed
qed auto

section \<open>Order\<close>


section \<open>The race for the last buffer\<close>

text \<open>Once the device has no buffer and nobody is asked for one, nothing is received any more.\<close>

definition uart_stalled :: "'w uart_sys \<Rightarrow> bool" where
  "uart_stalled s \<longleftrightarrow> us_armed s = None \<and> \<not> ui_require_node (us_info s) \<and> (\<forall>n. us_pc s \<noteq> Rx_start n)"

lemma status_keeps:
  assumes "uart_status_thread E api s = Some (b, t)"
  shows "us_armed t = us_armed s" and "us_pc t = us_pc s" and "us_received t = us_received s"
    and "ui_require_node (us_info t) = ui_require_node (us_info s)"
  using assms by (auto simp: uart_status_thread_def Let_def bind_eq_Some_conv split: if_splits)

lemma stalled_step:
  assumes "uart_step E api s t" and "uart_stalled s"
  shows "uart_stalled t \<and> us_received t = us_received s"
  using assms(1)
proof cases
  case Thread
  then show ?thesis using assms(2)
    by (cases "us_pc s") (auto simp: uart_stalled_def uart_rx_thread_def Let_def bind_eq_Some_conv split: option.splits prod.splits if_splits)
next
  case (Interrupt data error)
  then show ?thesis using assms(2) by (simp add: uart_stalled_def uart_interrupt_def)
next
  case (Status b)
  then show ?thesis using assms(2) status_keeps[of E api s b t] by (simp add: uart_stalled_def)
qed (use assms(2) in \<open>auto simp: uart_stalled_def uart_ms_callback_def uart_ls_callback_def rx_stop_def\<close>)

lemma stalled_for_ever: "(uart_step E api)\<^sup>*\<^sup>* s t \<Longrightarrow> uart_stalled s \<Longrightarrow> uart_stalled t \<and> us_received t = us_received s"
  by (induction rule: rtranclp_induct) (auto dest: stalled_step)

text \<open>
  The run: the thread arms the device; five interrupts use up the buffers; the thread hands one chunk
  on and arms the device again; the next interrupt comes before it has reset \<open>ui_require_node\<close>.
\<close>

definition arm_run :: "bool list" where "arm_run = replicate 5 False"
definition stall_run :: "bool list" where
  "stall_run = arm_run @ replicate 5 True @ replicate 6 False @ [True, False] @ concat (replicate 5 (replicate 5 False))"

lemma stall_run_free:
  assumes "distinct [a, b, c, d, e]"
  shows "ctl_run stall_run \<lparr>c_free = [a, b, c, d, e], c_data = [], c_pc = Rx_wait, c_armed = None, c_require = True,
      c_sem = 1, c_stop = False\<rparr> = Some \<lparr>c_free = [b, c, d, e, a], c_data = [], c_pc = Rx_wait, c_armed = None,
      c_require = False, c_sem = 0, c_stop = False\<rparr>"
  by (simp add: stall_run_def arm_run_def numeral_eq_Suc ctl_thread_def ctl_interrupt_def ctl_blocked_def)

text \<open>The other run: the interrupts come while the thread is about to look for a buffer for the device.\<close>

definition fault_run :: "bool list" where
  "fault_run = arm_run @ replicate 3 True @ replicate 4 False @ replicate 3 True"

lemma fault_run_none:
  assumes "distinct [a, b, c, d, e]"
  shows "\<exists>k. ctl_run fault_run \<lparr>c_free = [a, b, c, d, e], c_data = [], c_pc = Rx_wait, c_armed = None, c_require = True,
      c_sem = 1, c_stop = False\<rparr> = Some k \<and> \<not> ctl_blocked k \<and> ctl_thread k = None"
  by (simp add: fault_run_def arm_run_def numeral_eq_Suc ctl_thread_def ctl_interrupt_def ctl_blocked_def)

lemma started_ctl:
  assumes "uart_started s"
  obtains a b c d e where "distinct [a, b, c, d, e]" and "ui_free_queue (us_info s) = [a, b, c, d, e]"
    and "ctl s = \<lparr>c_free = [a, b, c, d, e], c_data = [], c_pc = Rx_wait, c_armed = None, c_require = True,
      c_sem = 1, c_stop = False\<rparr>"
proof -
  have "length (ui_free_queue (us_info s)) = 5" using assms by (simp add: uart_started_def MAX_RX_BUF_NUMBER_def)
  then obtain a b c d e where q: "ui_free_queue (us_info s) = [a, b, c, d, e]" by (auto simp: numeral_eq_Suc length_Suc_conv)
  moreover have "distinct (ui_free_queue (us_info s))" using assms by (simp add: uart_started_def pool_ok_def owned_def)
  ultimately show ?thesis using assms by (intro that[of a b c d e]) (auto simp: ctl_def uart_started_def)
qed

text \<open>
  C22. The receive thread and the interrupt race for the buffers. Whatever the device receives, and
  with every call succeeding, there is a run in which the thread finds no buffer for the device and
  follows a null pointer, and one after which all buffers are free and the thread waits, but the
  device has none and nothing is ever received again.
\<close>

theorem uart_race:
  assumes "uart_started s" and "receiver_starts api"
  shows "(\<exists>t. (uart_step E api)\<^sup>*\<^sup>* s t \<and> \<not> uart_rx_blocked t \<and> uart_rx_thread E api t = None)
    \<and> (\<exists>t. (uart_step E api)\<^sup>*\<^sup>* s t \<and> set (ui_free_queue (us_info t)) = set (ui_free_queue (us_info s)) \<and> uart_rx_blocked t
          \<and> (\<forall>u. (uart_step E api)\<^sup>*\<^sup>* t u \<longrightarrow> us_received u = us_received t))"
proof -
  obtain a b c d e where q: "distinct [a, b, c, d, e]" "ui_free_queue (us_info s) = [a, b, c, d, e]"
    and k: "ctl s = \<lparr>c_free = [a, b, c, d, e], c_data = [], c_pc = Rx_wait, c_armed = None, c_require = True,
      c_sem = 1, c_stop = False\<rparr>" using started_ctl[OF assms(1)] by metis
  have run: "\<exists>t. (uart_step E api)\<^sup>*\<^sup>* s t \<and> uart_inv t \<and> ctl t = k" if "ctl_run es (ctl s) = Some k" for es k
    by (rule ctl_run_realised[OF that started_inv[OF assms(1)] assms(2), of "[]"]) simp
  obtain k1 where "ctl_run fault_run (ctl s) = Some k1" "\<not> ctl_blocked k1" "ctl_thread k1 = None"
    using fault_run_none[OF q(1)] k by metis
  with run obtain t where t: "(uart_step E api)\<^sup>*\<^sup>* s t" "uart_inv t" "\<not> ctl_blocked (ctl t)" "ctl_thread (ctl t) = None" by blast
  obtain u where u: "(uart_step E api)\<^sup>*\<^sup>* s u" "ctl u = \<lparr>c_free = [b, c, d, e, a], c_data = [], c_pc = Rx_wait,
      c_armed = None, c_require = False, c_sem = 0, c_stop = False\<rparr>"
    using run[of stall_run] stall_run_free[OF q(1)] k by metis
  from arg_cong[OF u(2), of c_armed] arg_cong[OF u(2), of c_require] arg_cong[OF u(2), of c_pc] arg_cong[OF u(2), of c_sem]
  have stalled: "uart_stalled u" "uart_rx_blocked u" by (simp_all add: uart_stalled_def uart_rx_blocked_def)
  have "set (ui_free_queue (us_info u)) = set (ui_free_queue (us_info s))"
    using arg_cong[OF u(2), of c_free] q(2) by auto
  moreover have "uart_rx_thread E api t = None" "\<not> uart_rx_blocked t"
    using thread_refines[OF t(2) assms(2), of E] t(3,4) by (simp_all add: ctl_blocked)
  ultimately show ?thesis using t(1) u(1) stalled stalled_for_ever by metis
qed

text \<open>
  C23. The race is the only fault of the UART driver's threads: in every reachable state the step of the
  receive thread faults exactly when it looks for a buffer for the device and none is free, an
  interrupt with as much data as a buffer holds does not, and neither does the status thread.
\<close>

theorem uart_only_fault:
  assumes "uart_started s" and "(uart_step E api)\<^sup>*\<^sup>* s t"
  shows "(uart_rx_thread E api t = None \<longleftrightarrow>
      us_pc t = Rx_check \<and> ui_require_node (us_info t) \<and> ui_free_queue (us_info t) = [])
    \<and> (us_armed t \<noteq> None \<and> length data \<le> ui_rx_buf_size (us_info t) \<longrightarrow> uart_interrupt api data error t \<noteq> None)
    \<and> uart_status_thread E api t \<noteq> None"
proof (intro conjI)
  have inv: "uart_inv t" by (rule uart_relay.inv_run[OF assms])
  show "us_armed t \<noteq> None \<and> length data \<le> ui_rx_buf_size (us_info t) \<longrightarrow> uart_interrupt api data error t \<noteq> None"
    using interrupt_total[OF inv] by blast
  have "uart_core_ok t" using inv by (simp add: uart_inv_def)
  then show "uart_status_thread E api t \<noteq> None" by (rule status_step[of t E api]) simp
  show "uart_rx_thread E api t = None \<longleftrightarrow>
      us_pc t = Rx_check \<and> ui_require_node (us_info t) \<and> ui_free_queue (us_info t) = []"
  proof (cases "us_pc t")
    case (Rx_send n)
    then show ?thesis using send_step[OF inv Rx_send, of E api] by (metis option.distinct(1) rx_pc.distinct)
  next
    case (Rx_start n)
    then have "get_node t n \<noteq> None" using inv by (auto simp: uart_inv_def pool_ok_def owned_def flight_def)
    then show ?thesis using Rx_start by (auto simp: uart_rx_thread_def Let_def case_prod_beta)
  next
    case Rx_take
    then show ?thesis by (cases "ui_data_queue (us_info t)") (simp_all add: uart_rx_thread_def)
  next
    case Rx_check
    then show ?thesis by (cases "ui_free_queue (us_info t)") (simp_all add: uart_rx_thread_def Let_def)
  qed (simp_all add: uart_rx_thread_def Let_def)
qed

section \<open>A sample driver\<close>

definition sample_uart :: "unit uart_api" where
  "sample_uart =
     \<lparr>uart_alloc = (\<lambda>w n. (True, w)), uart_zalloc = (\<lambda>w. (True, w)), uart_malloc = (\<lambda>w n. (True, w)),
      uart_sem_init = (\<lambda>w. (0, w)), uart_pthread_create = (\<lambda>w. (0, w)), uart_open = (\<lambda>w. (Some 0, w)),
      uart_close = (\<lambda>d w. w), device_uart_start_receiver = (\<lambda>n d w. (0, w)),
      device_uart_start_transmitter = (\<lambda>data d w. (0, w)),
      device_uart_set_configuration = (\<lambda>baud p b s f d w. (0, w)), device_uart_get_modem_ctrl = (\<lambda>d w. (0, 0, w)),
      device_uart_set_modem_ctrl = (\<lambda>m d w. (0, w)), device_uart_set_break = (\<lambda>b d w. (0, w)),
      device_uart_get_modem_status = (\<lambda>d w. (0, 0, w)), device_uart_get_line_status = (\<lambda>d w. (0, 0, w)),
      device_uart_attach_ms_callback = (\<lambda>b d w. (0, w)), device_uart_attach_ls_callback = (\<lambda>b d w. (0, w)),
      LSR_OE = 2, LSR_PE = 4, LSR_FE = 8, LSR_BI = 16, MSR_DCD = 128, MSR_DSR = 32, MSR_RI = 64, MCR_DTR = 1, MCR_RTS = 2\<rparr>"

definition sample_started :: "unit uart_sys" where
  "sample_started =
     \<lparr>us_dev = Some 0, us_priv = True,
      us_info = (blank_info 0)\<lparr>ui_ms_ls_operation := Some 0, ui_status_thread := True, ui_free_queue := [0, 1, 2, 3, 4],
        ui_rx_buf_size := 256, ui_entries := 5, ui_require_node := True, ui_rx_sem := 1, ui_rx_thread := True\<rparr>,
      us_nodes = replicate 5 (Some \<lparr>un_data_size = 0, un_data_flags = 0, un_buffer = replicate 256 0\<rparr>),
      us_core = sample_core (sample_cport True) [sample_operation 0 0 7 [0]],
      us_pc = Rx_wait, us_armed = None, us_threads = 2, us_sems = 2, us_open = 1, us_received = [], us_handed = []\<rparr>"

lemma sample_started_ok: "uart_started sample_started"
proof -
  have "core_inv (\<lambda>a. if a < length [sample_operation 0 0 7 [0]] then 1 else 0) (us_core sample_started)"
    unfolding sample_started_def uart_sys.simps by (rule sample_core_inv) simp
  moreover have "(\<lambda>a. if a < length [sample_operation 0 0 7 [0]] then 1 else 0) = uart_held (us_info sample_started)"
    by (simp add: fun_eq_iff uart_held_def sample_started_def)
  ultimately have "uart_core_ok sample_started"
    by (simp add: uart_core_ok_def op_shape_def sample_started_def blank_info_def)
  moreover have "pool_ok sample_started"
    by (simp add: pool_ok_def owned_def flight_def armed_node_def sample_started_def blank_info_def get_node_def node_ok_def
        numeral_eq_Suc)
  ultimately show ?thesis
    by (simp add: uart_started_def sample_started_def blank_info_def MAX_RX_BUF_NUMBER_def MAX_RX_BUF_SIZE_def)
qed

lemma sample_uart_starts: "receiver_starts sample_uart"
  by (simp add: receiver_starts_def sample_uart_def)


theorem uart_race_witness:
  "\<exists>t. (uart_step quiet_env sample_uart)\<^sup>*\<^sup>* sample_started t \<and> uart_rx_blocked t
     \<and> (\<forall>u. (uart_step quiet_env sample_uart)\<^sup>*\<^sup>* t u \<longrightarrow> us_received u = us_received t)"
  using uart_race[OF sample_started_ok sample_uart_starts, where E = quiet_env] by blast

theorem uart_only_fault_witness: "uart_rx_thread quiet_env sample_uart sample_started \<noteq> None"
  using uart_only_fault[OF sample_started_ok rtranclp.rtrancl_refl, where E = quiet_env and api = sample_uart]
  by (simp add: sample_started_def)

end
