(* ===== verification/Gb_Uart_Life.thy ===== *)
theory Gb_Uart_Life
  imports Gb_Uart_Props
begin

text \<open>
  The start and the end of the UART driver: a successful start ends in the state that the runs of
  \<open>Gb_Uart_Runs\<close> begin with, and the end frees every buffer but the one that the device fills.
\<close>

section \<open>Nodes\<close>

definition live_nodes :: "'w uart_sys \<Rightarrow> nat set" where
  "live_nodes s = {n. get_node s n \<noteq> None}"

lemma on_world_result:
  "fst (on_world f s) = fst (f (world (us_core s)))"
  "snd (on_world f s) = s\<lparr>us_core := (us_core s)\<lparr>world := snd (f (world (us_core s)))\<rparr>\<rparr>"
  by (simp_all add: on_world_def Let_def case_prod_beta)

text \<open>Freeing a queue of live nodes frees exactly these.\<close>

lemma uart_free_buf_ok:
  assumes "distinct q" and "\<forall>n \<in> set q. get_node s n \<noteq> None"
  shows "\<exists>N. uart_free_buf q s = Some (s\<lparr>us_nodes := N\<rparr>) \<and> live_nodes (s\<lparr>us_nodes := N\<rparr>) = live_nodes s - set q"
  using assms
proof (induction q arbitrary: s)
  case Nil
  then show ?case by (intro exI[of _ "us_nodes s"]) simp
next
  case (Cons n q)
  let ?s = "s\<lparr>us_nodes := (us_nodes s)[n := None]\<rparr>"
  have g: "get_node ?s m = (if m = n then None else get_node s m)" for m by (auto simp: get_node_def nth_list_update)
  have "\<forall>m \<in> set q. get_node ?s m \<noteq> None" using Cons.prems g by auto
  then obtain N where N: "uart_free_buf q ?s = Some (s\<lparr>us_nodes := N\<rparr>)" "live_nodes (s\<lparr>us_nodes := N\<rparr>) = live_nodes ?s - set q"
    using Cons.IH[of ?s] Cons.prems(1) by auto
  have "live_nodes ?s = live_nodes s - {n}" by (auto simp: live_nodes_def g)
  then show ?case using N Cons.prems(2) by (intro exI[of _ N]) (auto split: option.splits)
qed

text \<open>Allocation: fresh nodes at the end of the queue, as many as asked for when it succeeds.\<close>

definition blank_node :: "nat \<Rightarrow> uart_node" where
  "blank_node k = \<lparr>un_data_size = 0, un_data_flags = 0, un_buffer = replicate k 0\<rparr>"

definition with_nodes :: "nat \<Rightarrow> nat \<Rightarrow> 'w \<Rightarrow> 'w uart_sys \<Rightarrow> 'w uart_sys" where
  "with_nodes j k w s = s\<lparr>us_core := (us_core s)\<lparr>world := w\<rparr>, us_nodes := us_nodes s @ replicate j (Some (blank_node k))\<rparr>"

lemma uart_alloc_buf_ok:
  "\<exists>r j w. uart_alloc_buf api i k queue s = (r, queue @ [length (us_nodes s) ..< length (us_nodes s) + j], with_nodes j k w s)
     \<and> (r = 0 \<longrightarrow> j = i)"
proof (induction i arbitrary: queue s)
  case 0
  then show ?case by (intro exI[of _ 0] exI[of _ "world (us_core s)"]) (simp add: with_nodes_def)
next
  case (Suc i)
  let ?r = "on_world (\<lambda>w. uart_malloc api w (k + 8)) s"
  let ?w = "snd (uart_malloc api (world (us_core s)) (k + 8))"
  have s1: "snd ?r = s\<lparr>us_core := (us_core s)\<lparr>world := ?w\<rparr>\<rparr>" by (simp add: on_world_result)
  show ?case
  proof (cases "fst ?r")
    case False
    then show ?thesis
      by (intro exI[of _ ENOMEM] exI[of _ 0] exI[of _ ?w]) (simp add: case_prod_beta s1 with_nodes_def)
  next
    case True
    let ?s = "(snd ?r)\<lparr>us_nodes := us_nodes (snd ?r) @ [Some (blank_node k)]\<rparr>"
    obtain r j w where IH: "uart_alloc_buf api i k (put_node_back queue (length (us_nodes (snd ?r)))) ?s =
        (r, put_node_back queue (length (us_nodes (snd ?r))) @ [length (us_nodes ?s) ..< length (us_nodes ?s) + j], with_nodes j k w ?s)"
        "r = 0 \<longrightarrow> j = i" using Suc.IH by blast
    have "with_nodes j k w ?s = with_nodes (Suc j) k w s" by (simp add: with_nodes_def s1)
    then have "uart_alloc_buf api (Suc i) k queue s =
        (r, queue @ [length (us_nodes s) ..< length (us_nodes s) + Suc j], with_nodes (Suc j) k w s)"
      using True IH(1) by (simp add: case_prod_beta blank_node_def put_node_back_def s1 upt_conv_Cons del: upt_Suc)
    then show ?thesis using IH(2) by blast
  qed
qed

lemma get_node_with_nodes:
  "get_node (with_nodes j k w s) n = (if n < length (us_nodes s) then get_node s n
     else if n < length (us_nodes s) + j then Some (blank_node k) else None)"
  by (auto simp: get_node_def with_nodes_def nth_append)

lemma node_ok_blank [simp]: "node_ok k (blank_node k)"
  by (simp add: node_ok_def blank_node_def)

text \<open>Both queues together.\<close>

lemma uart_free_queues_ok:
  assumes "distinct (ui_data_queue (us_info s) @ ui_free_queue (us_info s))"
    and "\<forall>n \<in> set (ui_data_queue (us_info s) @ ui_free_queue (us_info s)). get_node s n \<noteq> None"
  obtains N where "uart_free_queues s = Some (put_info ((us_info s)\<lparr>ui_data_queue := [], ui_free_queue := []\<rparr>) (s\<lparr>us_nodes := N\<rparr>))"
    and "live_nodes (s\<lparr>us_nodes := N\<rparr>) = live_nodes s - set (ui_data_queue (us_info s) @ ui_free_queue (us_info s))"
proof -
  obtain M where M: "uart_free_buf (ui_data_queue (us_info s)) s = Some (s\<lparr>us_nodes := M\<rparr>)"
    "live_nodes (s\<lparr>us_nodes := M\<rparr>) = live_nodes s - set (ui_data_queue (us_info s))"
    using uart_free_buf_ok[of "ui_data_queue (us_info s)" s] assms by auto
  have "\<forall>n \<in> set (ui_free_queue (us_info s)). get_node (s\<lparr>us_nodes := M\<rparr>) n \<noteq> None"
    using assms M(2) by (auto simp: live_nodes_def)
  then obtain N where "uart_free_buf (ui_free_queue (us_info s)) (s\<lparr>us_nodes := M\<rparr>) = Some (s\<lparr>us_nodes := N\<rparr>)"
    "live_nodes (s\<lparr>us_nodes := N\<rparr>) = live_nodes (s\<lparr>us_nodes := M\<rparr>) - set (ui_free_queue (us_info s))"
    using uart_free_buf_ok[of "ui_free_queue (us_info s)" "s\<lparr>us_nodes := M\<rparr>"] assms by auto
  then show ?thesis using M that[of N] by (auto simp: uart_free_queues_def)
qed

text \<open>The end of a receiver whose thread waits: the post of the stop wakes it, and it ends.\<close>

lemma receiver_deinit_ok:
  assumes "us_pc s = Rx_wait" and "ui_rx_thread (us_info s)"
    and q: "distinct (ui_data_queue (us_info s) @ ui_free_queue (us_info s))"
      "\<forall>n \<in> set (ui_data_queue (us_info s) @ ui_free_queue (us_info s)). get_node s n \<noteq> None"
  obtains N where "uart_receiver_cb_deinit E api s = Some (Some (put_info
      ((us_info s)\<lparr>ui_thread_stop := True, ui_data_queue := [], ui_free_queue := []\<rparr>)
      (s\<lparr>us_pc := Rx_ended, us_threads := us_threads s - 1, us_sems := us_sems s - 1, us_nodes := N\<rparr>)))"
    and "live_nodes (s\<lparr>us_nodes := N\<rparr>) = live_nodes s - set (ui_data_queue (us_info s) @ ui_free_queue (us_info s))"
proof -
  let ?t = "s\<lparr>us_pc := Rx_ended, us_info := (us_info s)\<lparr>ui_thread_stop := True\<rparr>, us_threads := us_threads s - 1,
      us_sems := us_sems s - 1\<rparr>"
  have j: "rx_join E api 8 (rx_stop s) = Some (True, put_info ((us_info s)\<lparr>ui_thread_stop := True\<rparr>) (s\<lparr>us_pc := Rx_ended\<rparr>))"
    using assms(1) by (simp add: numeral_eq_Suc uart_rx_blocked_def rx_stop_def uart_rx_thread_def put_info_def)
  have l: "live_nodes (?t\<lparr>us_nodes := N\<rparr>) = live_nodes (s\<lparr>us_nodes := N\<rparr>)" "live_nodes ?t = live_nodes s"
    "get_node ?t n = get_node s n" for N n
    by (simp_all add: live_nodes_def get_node_def put_info_def)
  have "\<forall>n \<in> set (ui_data_queue (us_info ?t) @ ui_free_queue (us_info ?t)). get_node ?t n \<noteq> None"
    using q(2) unfolding l(3) by simp
  moreover have "distinct (ui_data_queue (us_info ?t) @ ui_free_queue (us_info ?t))" using q(1) by simp
  ultimately obtain N where N: "uart_free_queues ?t = Some (put_info ((us_info ?t)\<lparr>ui_data_queue := [], ui_free_queue := []\<rparr>) (?t\<lparr>us_nodes := N\<rparr>))"
    "live_nodes (?t\<lparr>us_nodes := N\<rparr>) = live_nodes ?t - set (ui_data_queue (us_info ?t) @ ui_free_queue (us_info ?t))"
    using uart_free_queues_ok by metis
  have "uart_receiver_cb_deinit E api s = uart_free_queues ?t \<bind> (\<lambda>u. Some (Some u))"
    using assms(2) j by (simp add: uart_receiver_cb_deinit_def put_info_def)
  then show ?thesis using that[of N] N l by (simp add: put_info_def)
qed

section \<open>The end\<close>

text \<open>
  Ending the receiver while its thread waits always succeeds, but the buffer that the device fills
  is in no queue: it is never freed.
\<close>

theorem receiver_deinit_leaks:
  assumes "uart_inv s" and "us_pc s = Rx_wait" and "ui_rx_thread (us_info s)" and "live_nodes s = set (owned s)"
  shows "\<exists>t. uart_receiver_cb_deinit E api s = Some (Some t) \<and> us_pc t = Rx_ended \<and> live_nodes t = set (armed_node s)"
proof -
  have p: "pool_ok s" using assms(1) by (simp add: uart_inv_def)
  have "distinct (ui_data_queue (us_info s) @ ui_free_queue (us_info s))"
    "\<forall>n \<in> set (ui_data_queue (us_info s) @ ui_free_queue (us_info s)). get_node s n \<noteq> None"
    using p by (auto simp: pool_ok_def owned_def)
  from receiver_deinit_ok[OF assms(2,3) this, of E api] obtain N where
    N: "uart_receiver_cb_deinit E api s = Some (Some (put_info
      ((us_info s)\<lparr>ui_thread_stop := True, ui_data_queue := [], ui_free_queue := []\<rparr>)
      (s\<lparr>us_pc := Rx_ended, us_threads := us_threads s - 1, us_sems := us_sems s - 1, us_nodes := N\<rparr>)))" (is "_ = Some (Some ?t)")
    and l: "live_nodes (s\<lparr>us_nodes := N\<rparr>) = live_nodes s - set (ui_data_queue (us_info s) @ ui_free_queue (us_info s))" by metis
  have "live_nodes ?t = live_nodes (s\<lparr>us_nodes := N\<rparr>)" by (simp add: live_nodes_def get_node_def put_info_def)
  also have "\<dots> = set (armed_node s)"
    unfolding l assms(4) using p assms(2) by (auto simp: owned_def pool_ok_def flight_def)
  finally show ?thesis using N by auto
qed

section \<open>The start\<close>

lemma receiver_init_ok:
  assumes "uart_receiver_cb_init api s = Some (0, t)"
  obtains w where "t = put_info ((us_info s)\<lparr>ui_free_queue := [length (us_nodes s) ..< length (us_nodes s) + 5], ui_data_queue := [],
          ui_entries := 5, ui_rx_buf_size := 256, ui_rx_sem := 0, ui_rx_thread := True\<rparr>)
        ((with_nodes 5 256 w s)\<lparr>us_threads := us_threads s + 1, us_sems := us_sems s + 1, us_pc := Rx_wait\<rparr>)"
proof -
  let ?i = "(us_info s)\<lparr>ui_free_queue := [], ui_data_queue := [], ui_entries := 5, ui_rx_buf_size := 256\<rparr>"
  obtain r j w where al: "uart_alloc_buf api 5 256 [] (put_info ?i s) =
      (r, [length (us_nodes s) ..< length (us_nodes s) + j], with_nodes j 256 w (put_info ?i s))" "r = 0 \<longrightarrow> j = 5"
    using uart_alloc_buf_ok[of api 5 256 "[]" "put_info ?i s"] by auto
  have "\<exists>w'. t = put_info ((us_info s)\<lparr>ui_free_queue := [length (us_nodes s) ..< length (us_nodes s) + 5], ui_data_queue := [],
          ui_entries := 5, ui_rx_buf_size := 256, ui_rx_sem := 0, ui_rx_thread := True\<rparr>)
        ((with_nodes 5 256 w' s)\<lparr>us_threads := us_threads s + 1, us_sems := us_sems s + 1, us_pc := Rx_wait\<rparr>)"
    using assms al
    by (intro exI[of _ "snd (uart_pthread_create api (snd (uart_sem_init api w)))"]) (auto simp: uart_receiver_cb_init_def MAX_RX_BUF_NUMBER_def MAX_RX_BUF_SIZE_def Let_def case_prod_beta on_world_result
        bind_eq_Some_conv with_nodes_def put_info_def split: if_splits)
  then show ?thesis using that by blast
qed

lemma status_init_ok:
  assumes "uart_status_cb_init E api s = Some (0, t)" and inv: "core_inv (\<lambda>_. 0) (us_core s)"
  obtains a where "core_inv ((\<lambda>_. 0)(a := 1)) (us_core t)" and "op_shape (us_core t) a = Some (ui_cport (us_info s), Some 9)"
    and "ui_cport (us_info s) < length (g_cport (us_core t))"
    and "us_info t = (us_info s)\<lparr>ui_ms_ls_operation := Some a, ui_status_sem := 0, ui_status_thread := True\<rparr>"
    and "us_nodes t = us_nodes s" and "us_armed t = us_armed s" and "us_received t = us_received s" and "us_handed t = us_handed s"
proof -
  let ?p = "ui_cport (us_info s)"
  have "(1 :: nat) + HDR_SIZE < 2 ^ 32" by simp
  from this show ?thesis
  proof (cases rule: gb_operation_create_cases[of 1 "us_core s" ?p E 7])
    case (created w)
    let ?a = "length (core_heap (us_core s))" and ?op = "created ?p 7 1"
    let ?c = "\<lambda>w. (us_core s)\<lparr>world := w, core_heap := core_heap (us_core s) @ [Some ?op]\<rparr>"
    have p: "?p < length (g_cport (us_core s))" using created(1) core_invD(5)[OF inv] by simp
    have op: "op_ok (length (g_cport (us_core s))) ?op" "op_response ?op = None" "op_ref_count ?op = 1"
      using op_ok_created[OF p, of 7 1] by (simp_all add: created_def new_operation_def)
    have "core_inv ((\<lambda>_. 0)(?a := 1)) (?c v)" for v
      using core_inv_append[OF inv, of "Some ?op"] op by (simp add: core_inv_world_heap)
    moreover have "op_shape (?c v) ?a = Some (?p, Some 9)" for v
      by (simp add: op_shape_def get_op_def created_def new_operation_def)
    moreover have "us_core t = ?c (snd (uart_pthread_create api (snd (uart_sem_init api w))))
       \<and> us_info t = (us_info s)\<lparr>ui_ms_ls_operation := Some ?a, ui_status_sem := 0, ui_status_thread := True\<rparr>
       \<and> us_nodes t = us_nodes s \<and> us_armed t = us_armed s \<and> us_received t = us_received s \<and> us_handed t = us_handed s"
    proof (cases "fst (uart_sem_init api w) = 0 \<and> fst (uart_pthread_create api (snd (uart_sem_init api w))) = 0")
      case True
      then show ?thesis using assms(1) created(2)
        by (auto simp: uart_status_cb_init_def Let_def case_prod_beta on_world_result put_info_def)
    next
      case False
      then show ?thesis using assms(1) created(2)
        by (auto simp: uart_status_cb_init_def Let_def case_prod_beta on_world_result put_info_def bind_eq_Some_conv split: if_splits)
    qed
    ultimately show ?thesis using that[of ?a] p by simp
  qed (use assms(1) in \<open>auto simp: uart_status_cb_init_def\<close>)
qed

text \<open>An error of the start is its result.\<close>

lemma err_result:
  "err_device_close api ret s = Some (r, t) \<Longrightarrow> r = ret"
  "err_status_cb_deinit E api ret s = Some (r, t) \<Longrightarrow> r = ret"
  "err_receiver_cb_deinit E api ret s = Some (Some (r, t)) \<Longrightarrow> r = ret"
proof -
  show d: "err_device_close api ret s = Some (r, t) \<Longrightarrow> r = ret" for s by (auto simp: err_device_close_def split: prod.splits)
  show st: "err_status_cb_deinit E api ret s = Some (r, t) \<Longrightarrow> r = ret" for s
    by (auto simp: err_status_cb_deinit_def bind_eq_Some_conv dest: d)
  show "err_receiver_cb_deinit E api ret s = Some (Some (r, t)) \<Longrightarrow> r = ret"
    by (auto simp: err_receiver_cb_deinit_def bind_eq_Some_conv split: option.splits dest: st)
qed

lemma update_status_ok:
  assumes "uart_update_status E api s = Some (Some (0, t))"
  obtains w ls where "t = put_info ((us_info s)\<lparr>ui_last_serial_state := ls, ui_require_node := True, ui_rx_sem := ui_rx_sem (us_info s) + 1\<rparr>)
     (s\<lparr>us_core := (us_core s)\<lparr>world := w\<rparr>\<rparr>)"
proof -
  let ?w = "us_core s" and ?dev = "us_dev s"
  define w1 where "w1 = snd (snd (device_uart_get_modem_status api ?dev (world ?w)))"
  define w2 where "w2 = snd (snd (device_uart_get_line_status api ?dev w1))"
  define w3 where "w3 = snd (device_uart_attach_ms_callback api True ?dev w2)"
  define w4 where "w4 = snd (device_uart_attach_ls_callback api True ?dev w3)"
  have e: "(err_receiver_cb_deinit E api r u = Some (Some (0, t))) = False" if "r \<noteq> 0" for r u
    using err_result(3)[of E api r u 0 t] that by auto
  have "\<exists>ls. t = put_info ((us_info s)\<lparr>ui_last_serial_state := ls, ui_require_node := True, ui_rx_sem := ui_rx_sem (us_info s) + 1\<rparr>)
     (s\<lparr>us_core := (us_core s)\<lparr>world := w4\<rparr>\<rparr>)"
    using assms e unfolding uart_update_status_def
    by (auto simp: Let_def case_prod_beta on_world_result put_info_def w1_def w2_def w3_def w4_def split: if_splits)
  then show ?thesis using that by blast
qed

text \<open>
  C24. A start of the UART driver that reports success has opened the device, holds its status operation
  and runs both threads, and its state is the one from which the receive path is correct: five
  free buffers, an empty data queue and the first request for a buffer.
\<close>

theorem gb_uart_init_starts:
  assumes "gb_uart_init E api cport s = Some (Some (0, t))" and inv: "core_inv (\<lambda>_. 0) (us_core s)"
    and clean: "us_armed s = None" "us_received s = []" "us_handed s = []"
  shows "uart_started t \<and> ui_status_thread (us_info t) \<and> ui_rx_thread (us_info t) \<and> ui_cport (us_info t) = cport"
proof -
  have n: "- ENOMEM \<noteq> 0" "- ENODEV \<noteq> 0" by simp_all
  obtain w dev k s4 s5 where
    st: "uart_status_cb_init E api (s\<lparr>us_priv := True, us_info := blank_info cport, us_core := (us_core s)\<lparr>world := w\<rparr>,
        us_dev := dev, us_open := k\<rparr>) = Some (0, s4)" (is "uart_status_cb_init E api ?s = _")
    and rx: "uart_receiver_cb_init api s4 = Some (0, s5)" and up: "uart_update_status E api s5 = Some (Some (0, t))"
    using assms(1) n
    by (auto simp: gb_uart_init_def Let_def case_prod_beta on_world_result put_info_def bind_eq_Some_conv
        split: if_splits dest!: err_result(1,2))
  have "core_inv (\<lambda>_. 0) (us_core ?s)" using inv by simp
  from status_init_ok[OF st this] clean obtain a where s4: "core_inv ((\<lambda>_. 0)(a := 1)) (us_core s4)"
    "op_shape (us_core s4) a = Some (cport, Some 9)" "cport < length (g_cport (us_core s4))"
    "us_info s4 = (blank_info cport)\<lparr>ui_ms_ls_operation := Some a, ui_status_sem := 0, ui_status_thread := True\<rparr>"
    "us_armed s4 = None" "us_received s4 = []" "us_handed s4 = []"
    by (auto simp: blank_info_def)
  from receiver_init_ok[OF rx] obtain v where s5: "s5 = put_info ((us_info s4)\<lparr>ui_free_queue := [length (us_nodes s4) ..< length (us_nodes s4) + 5],
          ui_data_queue := [], ui_entries := 5, ui_rx_buf_size := 256, ui_rx_sem := 0, ui_rx_thread := True\<rparr>)
        ((with_nodes 5 256 v s4)\<lparr>us_threads := us_threads s4 + 1, us_sems := us_sems s4 + 1, us_pc := Rx_wait\<rparr>)" .
  from update_status_ok[OF up] obtain u ls where t: "t = put_info ((us_info s5)\<lparr>ui_last_serial_state := ls, ui_require_node := True,
      ui_rx_sem := ui_rx_sem (us_info s5) + 1\<rparr>) (s5\<lparr>us_core := (us_core s5)\<lparr>world := u\<rparr>\<rparr>)" .
  have "get_node t n = get_node (with_nodes 5 256 v s4) n" for n by (simp add: t s5 get_node_def put_info_def)
  then have "pool_ok t"
    by (auto simp: pool_ok_def owned_def flight_def armed_node_def t s5 with_nodes_def[of 5 256 v s4, THEN arg_cong[where f = us_armed]]
        get_node_with_nodes s4)
  moreover have "uart_held (us_info t) = (\<lambda>_. 0)(a := 1)"
    using s4 by (auto simp: t s5 uart_held_eq with_nodes_def fun_eq_iff)
  then have "uart_core_ok t" using s4 by (simp add: t s5 uart_core_ok_def with_nodes_def blank_info_def)
  ultimately show ?thesis
    using s4 by (auto simp: uart_started_def t s5 with_nodes_def MAX_RX_BUF_NUMBER_def MAX_RX_BUF_SIZE_def blank_info_def)
qed

definition sample_off :: "unit uart_sys" where
  "sample_off =
     \<lparr>us_dev = None, us_priv = False, us_info = blank_info 0, us_nodes = [], us_core = sample_core (sample_cport True) [],
      us_pc = Rx_ended, us_armed = None, us_threads = 0, us_sems = 0, us_open = 0, us_received = [], us_handed = []\<rparr>"

lemma sample_create:
  "gb_operation_create quiet_env 0 7 (Suc 0) (sample_core (sample_cport True) []) =
     Some (Some 0, (sample_core (sample_cport True) [])\<lparr>core_heap := [Some (created 0 7 1)]\<rparr>)"
  by (rule gb_operation_create_cases[of 1 "sample_core (sample_cport True) []" 0 quiet_env 7])
    (simp_all add: quiet_env_def gb_operation_create_def gb_operation_create_raw_def
      wr16_def wr_slice_def wr8_def bytes16_def hget_def)

theorem gb_uart_init_starts_witness:
  "\<exists>t. gb_uart_init quiet_env sample_uart 0 sample_off = Some (Some (0, t)) \<and> uart_started t"
proof -
  have w: "(sample_core cp ops)\<lparr>world := u\<rparr> = sample_core cp ops" for cp ops u by (simp add: sample_core_def)
  have "\<exists>t. gb_uart_init quiet_env sample_uart 0 sample_off = Some (Some (0, t))"
    by (simp add: gb_uart_init_def uart_status_cb_init_def uart_receiver_cb_init_def uart_update_status_def on_world_def
        sample_uart_def sample_off_def put_info_def w sample_create Let_def MAX_RX_BUF_NUMBER_def MAX_RX_BUF_SIZE_def
        numeral_eq_Suc blank_info_def)
  then obtain t where t: "gb_uart_init quiet_env sample_uart 0 sample_off = Some (Some (0, t))" by blast
  have "core_inv (\<lambda>_. 0) (us_core sample_off)" using sample_core_empty by (simp add: sample_off_def)
  from gb_uart_init_starts[OF t this] show ?thesis using t by (simp add: sample_off_def)
qed

theorem receiver_deinit_leaks_witness:
  "\<exists>t. uart_receiver_cb_deinit quiet_env sample_uart sample_started = Some (Some t) \<and> live_nodes t = {}"
proof -
  have "live_nodes sample_started = set (owned sample_started)"
    by (auto simp: live_nodes_def get_node_def owned_def flight_def armed_node_def sample_started_def blank_info_def)
  moreover have "ui_rx_thread (us_info sample_started)" "us_pc sample_started = Rx_wait" "armed_node sample_started = []"
    by (simp_all add: sample_started_def armed_node_def)
  ultimately show ?thesis using receiver_deinit_leaks[OF started_inv[OF sample_started_ok], where E = quiet_env and api = sample_uart] by auto
qed

end
