(* ===== verification/Gb_Hid.thy ===== *)
theory Gb_Hid
  imports Gb_Relay
begin

text \<open>
  The HID protocol, \<^verbatim>\<open>subsys/greybus/hid.c\<close>: its handlers, the callback that copies an input report
  into an operation prepared for it, the thread that sends these operations, and the start and end
  of the driver. A node is an operation with the buffer of its request; unlike the UART driver's
  nodes it carries its message all the time.
\<close>

unbundle bit_operations_syntax

section \<open>State\<close>

definition MAX_REPORT_OPERATIONS :: nat where "MAX_REPORT_OPERATIONS = 5"

record gb_hid_info =
  hi_cport :: nat
  hi_report_desc_len :: u16
  hi_free_queue :: "nat list"
  hi_data_queue :: "nat list"
  hi_report_node :: "nat option"
  hi_report_buf_size :: nat
  hi_entries :: nat
  hi_node_request :: bool
  hi_active_sem :: nat
  hi_thread :: bool
  hi_thread_stop :: bool

record hid_descriptor =
  hd_length :: u8
  hd_report_desc_length :: u16
  hd_hid_version :: u16
  hd_product_id :: u16
  hd_vendor_id :: u16
  hd_country_code :: u8

text \<open>
  The device. The report descriptor and a report are written into the response; of a report as many
  octets as it is told.
\<close>

record 'w hid_api =
  hid_alloc :: "'w alloc_fn"
  hid_zalloc :: "'w \<Rightarrow> bool \<times> 'w"
  hid_sem_init :: "'w \<Rightarrow> int \<times> 'w"
  hid_pthread_create :: "'w \<Rightarrow> int \<times> 'w"
  hid_open :: "'w \<Rightarrow> nat option \<times> 'w"
  hid_close :: "nat option \<Rightarrow> 'w \<Rightarrow> 'w"
  device_hid_get_descriptor :: "nat \<Rightarrow> 'w \<Rightarrow> int \<times> hid_descriptor \<times> 'w"
  device_hid_get_report_descriptor :: "nat \<Rightarrow> 'w \<Rightarrow> int \<times> bytes \<times> 'w"
  device_hid_power_on :: "nat \<Rightarrow> 'w \<Rightarrow> int \<times> 'w"
  device_hid_power_off :: "nat \<Rightarrow> 'w \<Rightarrow> int \<times> 'w"
  device_hid_get_report_length :: "u8 \<Rightarrow> u8 \<Rightarrow> nat option \<Rightarrow> 'w \<Rightarrow> int \<times> 'w"
  device_hid_get_max_report_length :: "u8 \<Rightarrow> nat option \<Rightarrow> 'w \<Rightarrow> int \<times> 'w"
  device_hid_get_report :: "u8 \<Rightarrow> u8 \<Rightarrow> nat \<Rightarrow> nat option \<Rightarrow> 'w \<Rightarrow> int \<times> bytes \<times> 'w"
  device_hid_set_report :: "u8 \<Rightarrow> u8 \<Rightarrow> bytes \<Rightarrow> nat option \<Rightarrow> 'w \<Rightarrow> int \<times> 'w"
  device_hid_register_callback :: "nat option \<Rightarrow> 'w \<Rightarrow> int \<times> 'w"
  device_hid_unregister_callback :: "nat option \<Rightarrow> 'w \<Rightarrow> 'w"

text \<open>What the bundle holds: the device handle and, after a start, the information block.\<close>

record hid_bundle =
  hb_dev :: "nat option"
  hb_priv :: "gb_hid_info option"

type_synonym 'w hid_handler = "(hid_bundle \<times> 'w) handler"

section \<open>Handlers\<close>

definition gb_hid_protocol_version :: "'w hid_api \<Rightarrow> 'w hid_handler" where
  "gb_hid_protocol_version api = version_response (pair_alloc (hid_alloc api)) 0 1"

text \<open>\<^verbatim>\<open>if (!hid_info || !bundle->dev)\<close> at the start of four handlers.\<close>

definition with_device :: "(gb_hid_info \<Rightarrow> nat \<Rightarrow> 'w hid_handler) \<Rightarrow> 'w hid_handler" where
  "with_device f bnd w op =
     (case (hb_priv (fst w), hb_dev (fst w)) of
        (Some info, Some dev) \<Rightarrow> f info dev bnd w op
      | _ \<Rightarrow> Some (GB_OP_UNKNOWN_ERROR, op, w))"

definition unknown_on_error :: "int \<Rightarrow> u8" where
  "unknown_on_error ret = (if ret \<noteq> 0 then GB_OP_UNKNOWN_ERROR else GB_OP_SUCCESS)"

definition desc_bytes :: "hid_descriptor \<Rightarrow> bytes" where
  "desc_bytes d = [hd_length d] @ bytes16 (hd_report_desc_length d) @ bytes16 (hd_hid_version d) @ bytes16 (hd_product_id d)
     @ bytes16 (hd_vendor_id d) @ [hd_country_code d]"

definition gb_hid_get_descriptor :: "'w hid_api \<Rightarrow> 'w hid_handler" where
  "gb_hid_get_descriptor api = with_device (\<lambda>info dev. with_response (pair_alloc (hid_alloc api)) 10 (\<lambda>bnd w op.
     let (ret, d, v) = device_hid_get_descriptor api dev (snd w) in
     if ret \<noteq> 0 then Some (GB_OP_UNKNOWN_ERROR, op, fst w, v)
     else do {
       op1 \<leftarrow> resp_slice op 0 (desc_bytes d);
       Some (GB_OP_SUCCESS, op1, (fst w)\<lparr>hb_priv := Some (info\<lparr>hi_report_desc_len := hd_report_desc_length d\<rparr>)\<rparr>, v) }))"

text \<open>The device writes its report descriptor, however long it is, into a response of the noted length.\<close>

definition gb_hid_get_report_descriptor :: "'w hid_api \<Rightarrow> 'w hid_handler" where
  "gb_hid_get_report_descriptor api = with_device (\<lambda>info dev.
     with_response (pair_alloc (hid_alloc api)) (unat (hi_report_desc_len info)) (\<lambda>bnd w op.
       let (ret, d, v) = device_hid_get_report_descriptor api dev (snd w) in do {
         op1 \<leftarrow> resp_slice op 0 d;
         Some (unknown_on_error ret, op1, fst w, v) }))"

definition gb_hid_power_on :: "'w hid_api \<Rightarrow> 'w hid_handler" where
  "gb_hid_power_on api = with_device (\<lambda>info dev bnd w op.
     let (ret, v) = device_hid_power_on api dev (snd w) in Some (unknown_on_error ret, op, fst w, v))"

definition gb_hid_power_off :: "'w hid_api \<Rightarrow> 'w hid_handler" where
  "gb_hid_power_off api = with_device (\<lambda>info dev bnd w op.
     let (ret, v) = device_hid_power_off api dev (snd w) in Some (unknown_on_error ret, op, fst w, v))"

text \<open>The length is kept in sixteen bits.\<close>

definition report_response :: "'w hid_api \<Rightarrow> u8 \<Rightarrow> u8 \<Rightarrow> u16 \<Rightarrow> 'w hid_handler" where
  "report_response api ty ident report_len = with_response (pair_alloc (hid_alloc api)) (unat report_len) (\<lambda>bnd w op.
     let (ret, d, v) = device_hid_get_report api ty ident (unat report_len) (hb_dev (fst w)) (snd w) in do {
       op1 \<leftarrow> resp_slice op 0 (take (unat report_len) d);
       Some (unknown_on_error ret, op1, fst w, v) })"

definition gb_hid_get_report :: "'w hid_api \<Rightarrow> 'w hid_handler" where
  "gb_hid_get_report api = with_request 2 (\<lambda>bnd w op. do {
     report_type \<leftarrow> req8 op 0; report_id \<leftarrow> req8 op 1;
     (let (ret, v) = device_hid_get_report_length api report_type report_id (hb_dev (fst w)) (snd w) in
      if ret \<le> 0 then Some (GB_OP_UNKNOWN_ERROR, op, fst w, v)
      else
        let report_len = word_of_int ret :: u16 in
        report_response api report_type report_id (if 0 < unat report_id then report_len + 1 else report_len) bnd (fst w, v) op) })"

text \<open>
  The length is an unsigned variable, so that a negative result of the device is not recognised, and
  nothing says that the request holds as many octets.
\<close>

definition gb_hid_set_report :: "'w hid_api \<Rightarrow> 'w hid_handler" where
  "gb_hid_set_report api = with_request 2 (\<lambda>bnd w op. do {
     report_type \<leftarrow> req8 op 0; report_id \<leftarrow> req8 op 1;
     (let (ret, v) = device_hid_get_report_length api report_type report_id (hb_dev (fst w)) (snd w);
          report_len = word_of_int ret :: u16 in
      if report_len = 0 then Some (GB_OP_UNKNOWN_ERROR, op, fst w, v)
      else do {
        report \<leftarrow> req_slice op 2 (unat report_len);
        let (ret, v2) = device_hid_set_report api report_type report_id report (hb_dev (fst w)) v;
        Some (unknown_on_error ret, op, fst w, v2) }) })"

definition hid_handler :: "'w hid_api \<Rightarrow> nat \<Rightarrow> 'w hid_handler" where
  "hid_handler api n =
     (if n = 1 then gb_hid_protocol_version api
      else if n = 2 then gb_hid_get_descriptor api
      else if n = 3 then gb_hid_get_report_descriptor api
      else if n = 4 then gb_hid_power_on api
      else if n = 5 then gb_hid_power_off api
      else if n = 6 then gb_hid_get_report api
      else if n = 7 then gb_hid_set_report api
      else (\<lambda>bnd w op. None))"

lemmas hid_defs = gb_hid_protocol_version_def gb_hid_get_descriptor_def gb_hid_get_report_descriptor_def gb_hid_power_on_def
  gb_hid_power_off_def gb_hid_get_report_def gb_hid_set_report_def report_response_def with_device_def

lemma hid_written:
  assumes "hid_handler api n bnd w op = Some (res, op', w')"
  shows "resp_written op op'"
proof -
  have l: "unat (v :: u16) + 8 < 2 ^ 32" for v using unat_u16_lt[of v] by simp
  have "wp True (hid_handler api n bnd w op) (\<lambda>(res, op', w'). resp_written op op')"
    by (auto simp: hid_handler_def hid_defs idiom_defs wp_atoms Let_def split: prod.splits option.splits
        dest!: alloc_written[of _ _ _ 2, simplified] alloc_written[of _ _ _ 10, simplified] alloc_written[OF _ l]
          resp_writes(4) intro: resp_written_trans)
  from wp_TrueD[OF this assms] show ?thesis by simp
qed

interpretation hid: gb_handler "hid_handler api"
  by unfold_locales (rule hid_written)

text \<open>No request of the host, apart from those for the report descriptor and for setting a report, can go wrong.\<close>

lemma hid_total: "n \<in> set [1, 2, 4, 5, 6] \<Longrightarrow> handler_total 0 None (hid_handler api n)"
proof -
  have wd: "(\<And>info dev. handler_total 0 None (f info dev)) \<Longrightarrow> handler_total 0 None (with_device f)" for f :: "gb_hid_info \<Rightarrow> nat \<Rightarrow> 'a hid_handler"
    by (simp add: handler_total_def with_device_def split: option.splits)
  have "handler_total 0 (Some 10) (\<lambda>bnd w op.
     let (ret, d, v) = device_hid_get_descriptor api dev (snd w) in
     if ret \<noteq> 0 then Some (GB_OP_UNKNOWN_ERROR, op, fst w, v)
     else do {
       op1 \<leftarrow> resp_slice op 0 (desc_bytes d);
       Some (GB_OP_SUCCESS, op1, (fst w)\<lparr>hb_priv := Some (info\<lparr>hi_report_desc_len := hd_report_desc_length d\<rparr>)\<rparr>, v) })" for info dev
    by (auto simp: handler_total_def fits_def resp_slice_def resp_update_def wr_slice_def Let_def desc_bytes_def split: prod.splits)
  then have "handler_total 0 None (gb_hid_get_descriptor api)"
    unfolding gb_hid_get_descriptor_def by (intro wd total_with_response) simp_all
  moreover have "handler_total 0 None (gb_hid_power_on api)" "handler_total 0 None (gb_hid_power_off api)"
    unfolding gb_hid_power_on_def gb_hid_power_off_def
    by (intro wd; simp add: handler_total_def Let_def case_prod_beta)+
  moreover have "handler_total 2 (Some (unat l)) (\<lambda>bnd w op.
     let (ret, d, v) = device_hid_get_report api ty i (unat l) (hb_dev (fst w)) (snd w) in do {
       op1 \<leftarrow> resp_slice op 0 (take (unat l) d);
       Some (unknown_on_error ret, op1, fst w, v) })" for l :: u16 and ty i
    by (auto simp: handler_total_def fits_def resp_slice_def resp_update_def wr_slice_def Let_def split: prod.splits)
  then have report: "handler_total 2 None (report_response api ty i l)" for ty i l
    unfolding report_response_def using unat_u16_lt[of l] by (intro total_with_response) simp_all
  then have "handler_total 0 None (gb_hid_get_report api)"
    unfolding gb_hid_get_report_def
    by (intro total_request total_reads) (simp_all add: handler_total_def Let_def case_prod_beta)
  ultimately show "n \<in> set [1, 2, 4, 5, 6] \<Longrightarrow> handler_total 0 None (hid_handler api n)"
    by (auto simp: hid_handler_def gb_hid_protocol_version_def total_version)
qed

interpretation hid_safe: gb_handler_safe "hid_handler api" "[1, 2, 4, 5, 6]"
  by unfold_locales (rule total_handler[OF hid_total])

end
