(* ===== verification/Gb_Hid_Threads.thy ===== *)
theory Gb_Hid_Threads
  imports Gb_Hid
begin

text \<open>
  The part of \<^verbatim>\<open>subsys/greybus/hid.c\<close> beside the handlers: the callback of the device, the thread
  that sends input reports, and the start and end of the driver. \<open>hs_nodes\<close> is the heap of
  nodes, each the address of its operation; the buffer of a node is the request payload of this
  operation. The interrupt locks of the queues make each access to them atomic; the thread is cut
  at all accesses to shared state.
\<close>

section \<open>State\<close>

datatype hid_pc = Hid_wait | Hid_take | Hid_send nat | Hid_put nat | Hid_check | Hid_assign "nat option" | Hid_clear | Hid_ended

text \<open>\<open>hs_received\<close> are the reports the callback has accepted, \<open>hs_handed\<close> the contents of the requests sent.\<close>

record 'w hid_sys =
  hs_dev :: "nat option"
  hs_priv :: bool
  hs_info :: gb_hid_info
  hs_nodes :: "nat option list"
  hs_core :: "'w core"
  hs_pc :: hid_pc
  hs_threads :: nat
  hs_sems :: nat
  hs_received :: "bytes list"
  hs_handed :: "bytes list"

definition hid_put :: "gb_hid_info \<Rightarrow> 'w hid_sys \<Rightarrow> 'w hid_sys" where
  "hid_put info s = s\<lparr>hs_info := info\<rparr>"

definition node_op :: "'w hid_sys \<Rightarrow> nat \<Rightarrow> nat option" where
  "node_op s n = (if n < length (hs_nodes s) then hs_nodes s ! n else None)"

definition hid_world :: "('w \<Rightarrow> 'r \<times> 'w) \<Rightarrow> 'w hid_sys \<Rightarrow> 'r \<times> 'w hid_sys" where
  "hid_world f s = (let (r, w) = f (world (hs_core s)) in (r, s\<lparr>hs_core := (hs_core s)\<lparr>world := w\<rparr>\<rparr>))"

section \<open>Queues\<close>

definition node_requeue :: "nat list \<Rightarrow> nat \<Rightarrow> nat list" where
  "node_requeue queue node = queue @ [node]"

fun node_dequeue :: "nat list \<Rightarrow> nat option \<times> nat list" where
  "node_dequeue [] = (None, [])"
| "node_dequeue (node # queue) = (Some node, queue)"

section \<open>The callback\<close>

text \<open>\<^verbatim>\<open>memcpy\<close> to the start of the request payload of an operation.\<close>

definition op_fill :: "nat \<Rightarrow> bytes \<Rightarrow> 'w core \<Rightarrow> 'w core option" where
  "op_fill a data c = do {
     op \<leftarrow> get_op c a;
     b \<leftarrow> op_request_buffer op;
     b' \<leftarrow> wr_slice b HDR_SIZE data;
     Some (put_op a (op\<lparr>op_request_buffer := Some b'\<rparr>) c) }"

definition hid_event_callback_routine :: "bytes \<Rightarrow> 'w hid_sys \<Rightarrow> (int \<times> 'w hid_sys) option" where
  "hid_event_callback_routine report s =
     (let info = hs_info s in
      case hi_report_node info of
        None \<Rightarrow> Some (- ENOMEM, hid_put (info\<lparr>hi_active_sem := hi_active_sem info + 1\<rparr>) s)
      | Some n \<Rightarrow>
          if hi_report_buf_size info \<noteq> length report then Some (- EINVAL, s)
          else do {
            a \<leftarrow> node_op s n;
            c \<leftarrow> op_fill a report (hs_core s);
            let info1 = info\<lparr>hi_data_queue := node_requeue (hi_data_queue info) n\<rparr>;
            let (node, queue) = node_dequeue (hi_free_queue info1);
            let info2 = info1\<lparr>hi_free_queue := queue, hi_node_request := hi_node_request info1 \<or> node = None, hi_report_node := node,
                  hi_active_sem := hi_active_sem info1 + 1\<rparr>;
            Some (0, (hid_put info2 s)\<lparr>hs_core := c, hs_received := hs_received s @ [report]\<rparr>) })"

section \<open>The thread\<close>

definition hid_blocked :: "'w hid_sys \<Rightarrow> bool" where
  "hid_blocked s \<longleftrightarrow> hs_pc s = Hid_ended \<or> (hs_pc s = Hid_wait \<and> hi_active_sem (hs_info s) = 0)"

definition op_report :: "'w core \<Rightarrow> nat \<Rightarrow> bytes" where
  "op_report c a = (case get_op c a of None \<Rightarrow> [] | Some op \<Rightarrow>
     (case op_request_buffer op of None \<Rightarrow> [] | Some b \<Rightarrow> drop HDR_SIZE b))"

definition report_proc_thread :: "'w env \<Rightarrow> 'w hid_sys \<Rightarrow> 'w hid_sys option" where
  "report_proc_thread E s =
     (let info = hs_info s in
      case hs_pc s of
        Hid_wait \<Rightarrow> Some (hid_put (info\<lparr>hi_active_sem := hi_active_sem info - 1\<rparr>)
                      (s\<lparr>hs_pc := if hi_thread_stop info then Hid_ended else Hid_take\<rparr>))
      | Hid_take \<Rightarrow>
          (case node_dequeue (hi_data_queue info) of
             (None, _) \<Rightarrow> Some (s\<lparr>hs_pc := Hid_check\<rparr>)
           | (Some n, queue) \<Rightarrow> Some (hid_put (info\<lparr>hi_data_queue := queue\<rparr>) (s\<lparr>hs_pc := Hid_send n\<rparr>)))
      | Hid_send n \<Rightarrow> do {
          a \<leftarrow> node_op s n;
          (ret, c) \<leftarrow> gb_operation_send_request E a None False (hs_core s);
          Some (s\<lparr>hs_core := c, hs_pc := Hid_put n, hs_handed := hs_handed s @ [op_report (hs_core s) a]\<rparr>) }
      | Hid_put n \<Rightarrow> Some (hid_put (info\<lparr>hi_free_queue := node_requeue (hi_free_queue info) n\<rparr>) (s\<lparr>hs_pc := Hid_check\<rparr>))
      | Hid_check \<Rightarrow>
          if hi_node_request info then
            let (node, queue) = node_dequeue (hi_free_queue info) in
            Some (hid_put (info\<lparr>hi_free_queue := queue\<rparr>) (s\<lparr>hs_pc := Hid_assign node\<rparr>))
          else Some (s\<lparr>hs_pc := Hid_wait\<rparr>)
      | Hid_assign node \<Rightarrow> Some (hid_put (info\<lparr>hi_report_node := node\<rparr>) (s\<lparr>hs_pc := Hid_clear\<rparr>))
      | Hid_clear \<Rightarrow> Some (hid_put (info\<lparr>hi_node_request := False\<rparr>) (s\<lparr>hs_pc := Hid_wait\<rparr>))
      | Hid_ended \<Rightarrow> Some s)"

section \<open>Start and end\<close>

fun hid_free_op :: "'w env \<Rightarrow> nat list \<Rightarrow> 'w hid_sys \<Rightarrow> 'w hid_sys option" where
  "hid_free_op E [] s = Some s"
| "hid_free_op E (n # queue) s = do {
     a \<leftarrow> node_op s n;
     c \<leftarrow> gb_operation_destroy E a (hs_core s);
     hid_free_op E queue (s\<lparr>hs_core := c, hs_nodes := (hs_nodes s)[n := None]\<rparr>) }"

text \<open>On failure the queue that has been filled so far is freed again.\<close>

fun hid_alloc_op :: "'w env \<Rightarrow> 'w hid_api \<Rightarrow> nat \<Rightarrow> nat \<Rightarrow> nat \<Rightarrow> nat list \<Rightarrow> 'w hid_sys \<Rightarrow> (int \<times> nat list \<times> 'w hid_sys) option" where
  "hid_alloc_op E api cport 0 buf_size queue s = Some (0, queue, s)"
| "hid_alloc_op E api cport (Suc i) buf_size queue s = do {
     (operation, c) \<leftarrow> gb_operation_create E cport 0x08 buf_size (hs_core s);
     let s1 = s\<lparr>hs_core := c\<rparr>;
     (case operation of
        None \<Rightarrow> do { s2 \<leftarrow> hid_free_op E queue s1; Some (- ENOMEM, [], s2) }
      | Some a \<Rightarrow>
          let (ok, s2) = hid_world (hid_zalloc api) s1 in
          if \<not> ok then do {
            c2 \<leftarrow> gb_operation_destroy E a (hs_core s2);
            s3 \<leftarrow> hid_free_op E queue (s2\<lparr>hs_core := c2\<rparr>);
            Some (- ENOMEM, [], s3) }
          else hid_alloc_op E api cport i buf_size (node_requeue queue (length (hs_nodes s2)))
            (s2\<lparr>hs_nodes := hs_nodes s2 @ [Some a]\<rparr>)) }"

definition hid_free_queues :: "'w env \<Rightarrow> 'w hid_sys \<Rightarrow> 'w hid_sys option" where
  "hid_free_queues E s = do {
     s1 \<leftarrow> hid_free_op E (hi_data_queue (hs_info s)) s;
     s2 \<leftarrow> hid_free_op E (hi_free_queue (hs_info s)) s1;
     Some (hid_put ((hs_info s2)\<lparr>hi_data_queue := [], hi_free_queue := []\<rparr>) s2) }"

definition hid_receiver_callback_init :: "'w env \<Rightarrow> 'w hid_api \<Rightarrow> 'w hid_sys \<Rightarrow> (int \<times> 'w hid_sys) option" where
  "hid_receiver_callback_init E api s =
     (let s1 = hid_put ((hs_info s)\<lparr>hi_free_queue := [], hi_data_queue := [], hi_entries := MAX_REPORT_OPERATIONS\<rparr>) s;
          info = hs_info s1 in do {
        (ret, queue, s2) \<leftarrow> hid_alloc_op E api (hi_cport info) (hi_entries info) (hi_report_buf_size info) [] s1;
        let s3 = hid_put ((hs_info s2)\<lparr>hi_free_queue := queue\<rparr>) s2;
        if ret \<noteq> 0 then Some (ret, s3)
        else
          let (ret, s4) = hid_world (hid_sem_init api) s3 in
          if ret \<noteq> 0 then do { s5 \<leftarrow> hid_free_queues E s4; Some (- ret, s5) }
          else
            let (ret, s5) = hid_world (hid_pthread_create api)
                  (hid_put ((hs_info s4)\<lparr>hi_active_sem := 0\<rparr>) (s4\<lparr>hs_sems := hs_sems s4 + 1\<rparr>)) in
            if ret \<noteq> 0 then do { s6 \<leftarrow> hid_free_queues E (s5\<lparr>hs_sems := hs_sems s5 - 1\<rparr>); Some (- ret, s6) }
            else Some (0, hid_put ((hs_info s5)\<lparr>hi_thread := True\<rparr>) (s5\<lparr>hs_threads := hs_threads s5 + 1, hs_pc := Hid_wait\<rparr>)) })"

text \<open>\<^verbatim>\<open>pthread_join\<close>; the Boolean says whether the thread has ended.\<close>

fun hid_join :: "'w env \<Rightarrow> nat \<Rightarrow> 'w hid_sys \<Rightarrow> (bool \<times> 'w hid_sys) option" where
  "hid_join E 0 s = Some (False, s)"
| "hid_join E (Suc fuel) s =
     (if hs_pc s = Hid_ended then Some (True, s)
      else if hid_blocked s then Some (False, s)
      else do { s' \<leftarrow> report_proc_thread E s; hid_join E fuel s' })"

definition hid_stop :: "'w hid_sys \<Rightarrow> 'w hid_sys" where
  "hid_stop s = hid_put ((hs_info s)\<lparr>hi_thread_stop := True, hi_active_sem := hi_active_sem (hs_info s) + 1\<rparr>) s"

text \<open>The inner result is \<open>None\<close> when the join does not return; eight steps are enough.\<close>

definition hid_receiver_callback_deinit :: "'w env \<Rightarrow> 'w hid_sys \<Rightarrow> 'w hid_sys option option" where
  "hid_receiver_callback_deinit E s = do {
     (ended, s1) \<leftarrow> (if hi_thread (hs_info s) then do {
                        (ended, t) \<leftarrow> hid_join E 8 (hid_stop s);
                        Some (ended, t\<lparr>hs_threads := hs_threads t - 1\<rparr>) }
                      else Some (True, s));
     if \<not> ended then Some None
     else do { s2 \<leftarrow> hid_free_queues E (s1\<lparr>hs_sems := hs_sems s1 - 1\<rparr>); Some (Some s2) } }"

definition hid_close_device :: "'w hid_api \<Rightarrow> 'w hid_sys \<Rightarrow> 'w hid_sys" where
  "hid_close_device api s = snd (hid_world (\<lambda>w. ((), hid_close api (hs_dev s) w)) s)"

definition blank_hid :: "nat \<Rightarrow> gb_hid_info" where
  "blank_hid cport =
     \<lparr>hi_cport = cport, hi_report_desc_len = 0, hi_free_queue = [], hi_data_queue = [], hi_report_node = None,
      hi_report_buf_size = 0, hi_entries = 0, hi_node_request = False, hi_active_sem = 0, hi_thread = False,
      hi_thread_stop = False\<rparr>"

text \<open>The last part of the start: the first buffer and the callback.\<close>

definition hid_register :: "'w env \<Rightarrow> 'w hid_api \<Rightarrow> 'w hid_sys \<Rightarrow> (int \<times> 'w hid_sys) option option" where
  "hid_register E api s =
     (let (node, queue) = node_dequeue (hi_free_queue (hs_info s));
          s1 = hid_put ((hs_info s)\<lparr>hi_free_queue := queue, hi_report_node := node, hi_node_request := False\<rparr>) s;
          (ret, s2) = hid_world (device_hid_register_callback api (hs_dev s1)) s1 in
      if ret \<noteq> 0 then do {
        r \<leftarrow> hid_receiver_callback_deinit E s2;
        (case r of None \<Rightarrow> Some None | Some s3 \<Rightarrow> Some (Some (ret, hid_close_device api s3))) }
      else Some (Some (0, s2\<lparr>hs_priv := True\<rparr>)))"

definition gb_hid_init :: "'w env \<Rightarrow> 'w hid_api \<Rightarrow> nat \<Rightarrow> 'w hid_sys \<Rightarrow> (int \<times> 'w hid_sys) option option" where
  "gb_hid_init E api cport s =
     (let (ok, s1) = hid_world (hid_zalloc api) s in
      if \<not> ok then Some (Some (- ENOMEM, s1))
      else
        let (dev, s2) = hid_world (hid_open api) (hid_put (blank_hid cport) s1); s3 = s2\<lparr>hs_dev := dev\<rparr> in
        if dev = None then Some (Some (- EIO, s3))
        else
          let (ret, s4) = hid_world (device_hid_get_max_report_length api 0 dev) s3 in
          if ret < 0 then Some (Some (ret, hid_close_device api s4))
          else do {
            (ret, s5) \<leftarrow> hid_receiver_callback_init E api (hid_put ((hs_info s4)\<lparr>hi_report_buf_size := nat ret\<rparr>) s4);
            if ret \<noteq> 0 then Some (Some (ret, hid_close_device api s5)) else hid_register E api s5 })"

definition gb_hid_exit :: "'w env \<Rightarrow> 'w hid_api \<Rightarrow> 'w hid_sys \<Rightarrow> 'w hid_sys option option" where
  "gb_hid_exit E api s =
     (if \<not> hs_priv s then Some (Some s)
      else
        let (_, s1) = hid_world (\<lambda>w. ((), device_hid_unregister_callback api (hs_dev s) w)) s in do {
          r \<leftarrow> hid_receiver_callback_deinit E s1;
          (case r of None \<Rightarrow> Some None | Some s2 \<Rightarrow> Some (Some (hid_close_device api s2))) })"

end
