(* ===== verification/Gb_Hid_Runs.thy ===== *)
theory Gb_Hid_Runs
  imports Gb_Hid_Threads "HOL-Library.Multiset"
begin

text \<open>
  What holds of the HID driver however the callback of the device, the thread that sends reports, the
  rest of the core and the end of the driver take turns: every node is in one place and holds an
  operation of its own, and the reports accepted go to the host in order. The nodes in \<open>hid_owned\<close>
  are those of the two queues, that in the hands of the thread and the one the next report goes to.
\<close>

section \<open>The invariant\<close>

definition hid_flight :: "'w hid_sys \<Rightarrow> nat list" where
  "hid_flight s = (case hs_pc s of Hid_send n \<Rightarrow> [n] | Hid_put n \<Rightarrow> [n] | Hid_assign (Some n) \<Rightarrow> [n] | _ \<Rightarrow> [])"

definition report_nodes :: "'w hid_sys \<Rightarrow> nat list" where
  "report_nodes s = (case hi_report_node (hs_info s) of None \<Rightarrow> [] | Some n \<Rightarrow> [n])"

definition hid_owned :: "'w hid_sys \<Rightarrow> nat list" where
  "hid_owned s = hi_free_queue (hs_info s) @ hi_data_queue (hs_info s) @ hid_flight s @ report_nodes s"

definition node_ops :: "'w hid_sys \<Rightarrow> nat option list" where
  "node_ops s = map (node_op s) (hid_owned s)"

definition hid_held :: "'w hid_sys \<Rightarrow> nat \<Rightarrow> int" where
  "hid_held s a = (if Some a \<in> set (node_ops s) then 1 else 0)"

definition report_of :: "'w hid_sys \<Rightarrow> nat \<Rightarrow> bytes" where
  "report_of s n = (case node_op s n of None \<Rightarrow> [] | Some a \<Rightarrow> op_report (hs_core s) a)"

definition hid_pending_nodes :: "'w hid_sys \<Rightarrow> nat list" where
  "hid_pending_nodes s = (case hs_pc s of Hid_send n \<Rightarrow> [n] | _ \<Rightarrow> []) @ hi_data_queue (hs_info s)"

definition hid_pending :: "'w hid_sys \<Rightarrow> bytes list" where
  "hid_pending s = map (report_of s) (hid_pending_nodes s)"

definition hid_pool_ok :: "'w hid_sys \<Rightarrow> bool" where
  "hid_pool_ok s \<longleftrightarrow> distinct (node_ops s) \<and> None \<notin> set (node_ops s)"

definition hid_control_ok :: "'w hid_sys \<Rightarrow> bool" where
  "hid_control_ok s \<longleftrightarrow>
     (hi_node_request (hs_info s) \<and> hs_pc s \<noteq> Hid_clear \<longrightarrow> hi_report_node (hs_info s) = None)
     \<and> (\<forall>r. hs_pc s = Hid_assign r \<longrightarrow> hi_node_request (hs_info s))
     \<and> (hs_pc s \<noteq> Hid_ended \<longrightarrow>
          length (hi_data_queue (hs_info s)) \<le> hi_active_sem (hs_info s) + (if hs_pc s = Hid_take then 1 else 0))"

definition hid_core_ok :: "'w hid_sys \<Rightarrow> bool" where
  "hid_core_ok s \<longleftrightarrow> core_inv (hid_held s) (hs_core s)
     \<and> (\<forall>a. Some a \<in> set (node_ops s) \<longrightarrow>
          op_shape (hs_core s) a = Some (hi_cport (hs_info s), Some (8 + hi_report_buf_size (hs_info s))))"

definition hid_account_ok :: "'w hid_sys \<Rightarrow> bool" where
  "hid_account_ok s \<longleftrightarrow> hs_received s = hs_handed s @ hid_pending s"

definition hid_inv :: "'w hid_sys \<Rightarrow> bool" where
  "hid_inv s \<longleftrightarrow> hid_pool_ok s \<and> hid_control_ok s \<and> hid_core_ok s \<and> hid_account_ok s"

text \<open>The state that a successful start leaves behind.\<close>

definition hid_started :: "'w hid_sys \<Rightarrow> bool" where
  "hid_started s \<longleftrightarrow> hs_pc s = Hid_wait \<and> hi_data_queue (hs_info s) = [] \<and> \<not> hi_node_request (hs_info s)
     \<and> Suc (length (hi_free_queue (hs_info s))) = MAX_REPORT_OPERATIONS \<and> hi_report_node (hs_info s) \<noteq> None
     \<and> hi_active_sem (hs_info s) = 0 \<and> \<not> hi_thread_stop (hs_info s) \<and> hi_thread (hs_info s)
     \<and> hs_received s = [] \<and> hs_handed s = [] \<and> hid_pool_ok s \<and> hid_core_ok s"

section \<open>Steps\<close>

text \<open>Other threads change the core, but keep what the driver holds.\<close>

definition hid_rely :: "'w hid_sys \<Rightarrow> 'w core \<Rightarrow> bool" where
  "hid_rely s c \<longleftrightarrow> core_inv (hid_held s) c \<and> (\<forall>a. 0 < hid_held s a \<longrightarrow> op_view c a = op_view (hs_core s) a)"

inductive hid_step :: "'w env \<Rightarrow> 'w hid_sys \<Rightarrow> 'w hid_sys \<Rightarrow> bool" for E where
  Thread: "\<not> hid_blocked s \<Longrightarrow> report_proc_thread E s = Some t \<Longrightarrow> hid_step E s t"
| Report: "hid_event_callback_routine report s = Some (ret, t) \<Longrightarrow> hid_step E s t"
| Stop: "hid_step E s (hid_stop s)"
| Core: "hid_rely s c \<Longrightarrow> hid_step E s (s\<lparr>hs_core := c\<rparr>)"

inductive_cases hid_stepE: "hid_step E s t"

section \<open>Elementary facts\<close>

lemma node_op_simps [simp]:
  "node_op (hid_put info s) = node_op s" "node_op (s\<lparr>hs_pc := pc\<rparr>) = node_op s" "node_op (s\<lparr>hs_core := c\<rparr>) = node_op s"
  "node_op (s\<lparr>hs_received := r\<rparr>) = node_op s" "node_op (s\<lparr>hs_handed := l\<rparr>) = node_op s"
  by (simp_all add: fun_eq_iff node_op_def hid_put_def)

lemma hid_put_simps [simp]:
  "hs_info (hid_put info s) = info" "hs_pc (hid_put info s) = hs_pc s" "hs_core (hid_put info s) = hs_core s"
  "hs_received (hid_put info s) = hs_received s" "hs_handed (hid_put info s) = hs_handed s"
  "hs_nodes (hid_put info s) = hs_nodes s" "hs_dev (hid_put info s) = hs_dev s" "hid_put i (hid_put info s) = hid_put i s"
  by (simp_all add: hid_put_def)

lemma fun_node_op: "hs_nodes t = hs_nodes s \<Longrightarrow> node_op t = node_op s"
  by (simp add: fun_eq_iff node_op_def)

lemmas hid_owned_defs = hid_owned_def hid_flight_def report_nodes_def

text \<open>A step that only moves nodes keeps the set of them, and so what the driver holds.\<close>

lemma hid_held_cong: "set (node_ops t) = set (node_ops s) \<Longrightarrow> hid_held t = hid_held s"
  by (simp add: fun_eq_iff hid_held_def)

lemma node_ops_perm: "hs_nodes t = hs_nodes s \<Longrightarrow> mset (hid_owned t) = mset (hid_owned s) \<Longrightarrow> mset (node_ops t) = mset (node_ops s)"
  using fun_node_op[of t s] by (simp add: node_ops_def)

lemma moved_ok:
  assumes "hs_nodes t = hs_nodes s" and "mset (hid_owned t) = mset (hid_owned s)"
  shows "hid_held t = hid_held s" and "set (node_ops t) = set (node_ops s)" and "hid_pool_ok t = hid_pool_ok s"
proof -
  note m = node_ops_perm[OF assms]
  show s: "set (node_ops t) = set (node_ops s)" by (rule mset_eq_setD[OF m])
  show "hid_held t = hid_held s" by (rule hid_held_cong[OF s])
  show "hid_pool_ok t = hid_pool_ok s" using mset_eq_imp_distinct_iff[OF m] s by (simp add: hid_pool_ok_def)
qed

lemma moved_core_ok:
  assumes "hs_nodes t = hs_nodes s" and "mset (hid_owned t) = mset (hid_owned s)" and "hs_core t = hs_core s"
    and "hi_cport (hs_info t) = hi_cport (hs_info s)" and "hi_report_buf_size (hs_info t) = hi_report_buf_size (hs_info s)"
  shows "hid_core_ok t = hid_core_ok s"
  using moved_ok(1,2)[OF assms(1,2)] assms(3-5) by (simp add: hid_core_ok_def)

text \<open>A new core with the same view of what is held.\<close>

lemma op_report_view: "op_report c a = (case op_view c a of Some (_, Some (_, b)) \<Rightarrow> b | _ \<Rightarrow> [])"
  by (simp add: op_report_def op_view_def split: option.splits)

lemma hid_core_view:
  assumes "hid_core_ok s" and "core_inv (hid_held s) c" and "\<And>a. 0 < hid_held s a \<Longrightarrow> op_view c a = op_view (hs_core s) a"
  shows "hid_core_ok (s\<lparr>hs_core := c\<rparr>)"
    and "set ns \<subseteq> set (hid_owned s) \<Longrightarrow> map (report_of (s\<lparr>hs_core := c\<rparr>)) ns = map (report_of s) ns"
proof -
  have k: "node_ops (s\<lparr>hs_core := c\<rparr>) = node_ops s" by (simp add: node_ops_def hid_owned_defs)
  then have "hid_held (s\<lparr>hs_core := c\<rparr>) = hid_held s" by (simp add: fun_eq_iff hid_held_def)
  moreover have v: "op_view c a = op_view (hs_core s) a" if "Some a \<in> set (node_ops s)" for a
    using assms(3) that by (simp add: hid_held_def)
  ultimately show "hid_core_ok (s\<lparr>hs_core := c\<rparr>)" using assms(1,2) k by (simp add: hid_core_ok_def op_shape_view)
  show "map (report_of (s\<lparr>hs_core := c\<rparr>)) ns = map (report_of s) ns" if ns: "set ns \<subseteq> set (hid_owned s)"
  proof (rule map_cong[OF refl])
    fix n assume "n \<in> set ns"
    then have "node_op s n \<in> set (node_ops s)" using ns by (auto simp: node_ops_def)
    then have "op_report c a = op_report (hs_core s) a" if "node_op s n = Some a" for a
      using v that by (simp add: op_report_view)
    then show "report_of (s\<lparr>hs_core := c\<rparr>) n = report_of s n" by (simp add: report_of_def split: option.splits)
  qed
qed

lemma pending_owned: "set (hid_pending_nodes s) \<subseteq> set (hid_owned s)"
  by (auto simp: hid_pending_nodes_def hid_owned_defs split: hid_pc.splits)

text \<open>The operation of an owned node.\<close>

lemma hid_owned_op:
  assumes inv: "hid_inv s" and n: "n \<in> set (hid_owned s)"
  obtains a op b where "node_op s n = Some a" and "get_op (hs_core s) a = Some op" and "op_request_buffer op = Some b"
    and "length b = 8 + hi_report_buf_size (hs_info s)" and "0 < hid_held s a"
proof -
  have m: "node_op s n \<in> set (node_ops s)" using n by (simp add: node_ops_def)
  moreover have "None \<notin> set (node_ops s)" using inv by (simp add: hid_inv_def hid_pool_ok_def)
  ultimately have "node_op s n \<noteq> None" by metis
  then obtain a where a: "node_op s n = Some a" by blast
  then have "op_shape (hs_core s) a = Some (hi_cport (hs_info s), Some (8 + hi_report_buf_size (hs_info s)))"
    using inv m by (simp add: hid_inv_def hid_core_ok_def)
  then show ?thesis using that[OF a] m a by (auto simp: op_shape_def hid_held_def)
qed

section \<open>The callback\<close>

text \<open>A report in the operation of the node that waits for it.\<close>

lemma op_fill_ok:
  assumes inv: "core_inv h c" and op: "get_op c a = Some op" and b: "op_request_buffer op = Some b" "length b = 8 + length data"
  obtains c' where "op_fill a data c = Some c'" and "core_inv h c'" and "op_report c' a = data"
    and "\<And>x. op_shape c' x = op_shape c x" and "\<And>x. x \<noteq> a \<Longrightarrow> op_report c' x = op_report c x"
proof -
  let ?b = "take 8 b @ data"
  let ?op = "op\<lparr>op_request_buffer := Some ?b\<rparr>"
  have w: "wr_slice b HDR_SIZE data = Some ?b" using b(2) by (simp add: wr_slice_def)
  have "hdr_size ?b = hdr_size b" using b(2) by (simp add: rd16_def rd8_def nth_append)
  then have "op_ok (length (g_cport c)) ?op"
    using core_invD(3)[OF inv op] b by (auto simp: op_ok_def buffer_ok_def)
  then have "core_inv h (put_op a ?op c)" by (intro core_inv_put_op[OF inv op]) simp_all
  moreover have "op_shape (put_op a ?op c) x = op_shape c x" for x by (rule op_shape_put_op[OF op]) (use b in simp_all)
  moreover have "op_report (put_op a ?op c) x = (if x = a then data else op_report c x)" for x
    using get_op_SomeD[OF op] b(2) by (simp add: op_report_def core_simps)
  ultimately show ?thesis using that[of "put_op a ?op c"] op b(1) w by (simp add: op_fill_def)
qed

definition accepted :: "nat \<Rightarrow> bytes \<Rightarrow> 'w core \<Rightarrow> 'w hid_sys \<Rightarrow> 'w hid_sys" where
  "accepted n report c s =
     (let info = hs_info s in
      (hid_put (info\<lparr>hi_data_queue := hi_data_queue info @ [n], hi_free_queue := tl (hi_free_queue info),
          hi_node_request := hi_node_request info \<or> hi_free_queue info = [],
          hi_report_node := (case hi_free_queue info of [] \<Rightarrow> None | m # q \<Rightarrow> Some m),
          hi_active_sem := hi_active_sem info + 1\<rparr>) s)\<lparr>hs_core := c, hs_received := hs_received s @ [report]\<rparr>)"

lemma callback_cases:
  assumes inv: "hid_inv s"
  obtains (none) "hi_report_node (hs_info s) = None"
      "hid_event_callback_routine report s =
         Some (- ENOMEM, hid_put ((hs_info s)\<lparr>hi_active_sem := hi_active_sem (hs_info s) + 1\<rparr>) s)"
  | (size) n where "hi_report_node (hs_info s) = Some n" and "length report \<noteq> hi_report_buf_size (hs_info s)"
      and "hid_event_callback_routine report s = Some (- EINVAL, s)"
  | (accept) n a c where "hi_report_node (hs_info s) = Some n" and "length report = hi_report_buf_size (hs_info s)"
      and "node_op s n = Some a" and "op_fill a report (hs_core s) = Some c"
      and "hid_event_callback_routine report s = Some (0, accepted n report c s)"
      and "core_inv (hid_held s) c" and "op_report c a = report" and "\<And>x. op_shape c x = op_shape (hs_core s) x"
      and "\<And>x. x \<noteq> a \<Longrightarrow> op_report c x = op_report (hs_core s) x"
proof (cases "hi_report_node (hs_info s)")
  case None
  then show ?thesis using none by (simp add: hid_event_callback_routine_def Let_def)
next
  case (Some n)
  show ?thesis
  proof (cases "length report = hi_report_buf_size (hs_info s)")
    case False
    then show ?thesis using size Some by (auto simp: hid_event_callback_routine_def)
  next
    case True
    have "n \<in> set (hid_owned s)" using Some by (simp add: hid_owned_defs)
    from hid_owned_op[OF inv this] obtain a op b where a: "node_op s n = Some a" "get_op (hs_core s) a = Some op"
      "op_request_buffer op = Some b" "length b = 8 + length report" using True by metis
    have "core_inv (hid_held s) (hs_core s)" using inv by (simp add: hid_inv_def hid_core_ok_def)
    from op_fill_ok[OF this a(2-4)] obtain c where c: "op_fill a report (hs_core s) = Some c" "core_inv (hid_held s) c"
      "op_report c a = report" "\<And>x. op_shape c x = op_shape (hs_core s) x" "\<And>x. x \<noteq> a \<Longrightarrow> op_report c x = op_report (hs_core s) x"
      by metis
    have "hid_event_callback_routine report s = Some (0, accepted n report c s)"
      using Some True a(1) c(1)
      by (cases "hi_free_queue (hs_info s)") (simp_all add: hid_event_callback_routine_def accepted_def node_requeue_def Let_def)
    then show ?thesis using accept[OF Some True a(1) c(1)] c by blast
  qed
qed

lemma accepted_simps [simp]:
  "hs_pc (accepted n report c s) = hs_pc s" "hs_core (accepted n report c s) = c" "hs_nodes (accepted n report c s) = hs_nodes s"
  "hs_received (accepted n report c s) = hs_received s @ [report]" "hs_handed (accepted n report c s) = hs_handed s"
  "hs_info (accepted n report c s) = (hs_info s)\<lparr>hi_data_queue := hi_data_queue (hs_info s) @ [n],
     hi_free_queue := tl (hi_free_queue (hs_info s)), hi_node_request := hi_node_request (hs_info s) \<or> hi_free_queue (hs_info s) = [],
     hi_report_node := (case hi_free_queue (hs_info s) of [] \<Rightarrow> None | m # q \<Rightarrow> Some m),
     hi_active_sem := hi_active_sem (hs_info s) + 1\<rparr>"
  by (simp_all add: accepted_def Let_def)

lemma flight_accepted: "hid_flight (accepted n report c s) = hid_flight s"
  by (simp add: hid_flight_def)

lemma accept_inv:
  assumes inv: "hid_inv s" and n: "hi_report_node (hs_info s) = Some n" "node_op s n = Some a"
    and len: "length report = hi_report_buf_size (hs_info s)"
    and c: "core_inv (hid_held s) c" "op_report c a = report" "\<And>x. op_shape c x = op_shape (hs_core s) x"
      "\<And>x. x \<noteq> a \<Longrightarrow> op_report c x = op_report (hs_core s) x"
  shows "hid_inv (accepted n report c s)"
proof -
  let ?t = "accepted n report c s"
  have p: "hid_pool_ok s" "hid_control_ok s" "hid_core_ok s" "hid_account_ok s" using inv by (simp_all add: hid_inv_def)
  have "mset (hid_owned ?t) = mset (hid_owned s)"
    using n(1) by (cases "hi_free_queue (hs_info s)") (simp_all add: hid_owned_def report_nodes_def flight_accepted)
  note m = moved_ok[OF _ this, simplified]
  have "hid_pool_ok ?t" using m p(1) by simp
  moreover have "hid_control_ok ?t" using p(2) n(1)
    by (cases "hi_free_queue (hs_info s)") (auto simp: hid_control_ok_def)
  moreover have "hid_core_ok ?t" using p(3) c(1,3) m by (simp add: hid_core_ok_def)
  moreover have "map (report_of ?t) (hid_pending_nodes s) = map (report_of s) (hid_pending_nodes s)"
  proof (rule map_cong[OF refl])
    fix x assume "x \<in> set (hid_pending_nodes s)"
    then have "node_op s x \<in> set (map (node_op s) (hi_data_queue (hs_info s) @ hid_flight s))"
      by (auto simp: hid_flight_def hid_pending_nodes_def split: hid_pc.splits)
    moreover have "node_op s n \<notin> set (map (node_op s) (hi_data_queue (hs_info s) @ hid_flight s))"
      using p(1) n(1) by (auto simp: hid_pool_ok_def node_ops_def hid_owned_def report_nodes_def)
    ultimately have "node_op s x \<noteq> node_op s n" by metis
    then show "report_of ?t x = report_of s x"
      using n(2) c(4) fun_node_op[of ?t s] by (auto simp: report_of_def split: option.splits)
  qed
  then have "hid_pending ?t = hid_pending s @ [report]"
    using n c(2) fun_node_op[of ?t s] by (simp add: hid_pending_def hid_pending_nodes_def report_of_def)
  then have "hid_account_ok ?t" using p(4) by (simp add: hid_account_ok_def)
  ultimately show ?thesis by (simp add: hid_inv_def)
qed

text \<open>Steps that touch neither queues nor nodes.\<close>

lemma hid_quiet_inv:
  assumes "hid_inv s" and same: "hs_nodes t = hs_nodes s" "hs_pc t = hs_pc s" "hs_core t = hs_core s"
      "hs_received t = hs_received s" "hs_handed t = hs_handed s"
    and info: "hs_info t = (hs_info s)\<lparr>hi_active_sem := k, hi_thread_stop := b\<rparr>" "hi_active_sem (hs_info s) \<le> k"
  shows "hid_inv t"
proof -
  have m: "mset (hid_owned t) = mset (hid_owned s)" using same info by (simp add: hid_owned_defs)
  have "report_of t = report_of s" using same fun_node_op[OF same(1)] by (simp add: fun_eq_iff report_of_def split: option.splits)
  then have "hid_pending t = hid_pending s" using same info by (simp add: hid_pending_def hid_pending_nodes_def)
  then show ?thesis
    using assms(1) moved_ok(3)[OF same(1) m] moved_core_ok[OF same(1) m same(3)] same info
    by (auto simp: hid_inv_def hid_control_ok_def hid_account_ok_def intro: le_trans)
qed

lemma callback_inv:
  assumes "hid_inv s" and "hid_event_callback_routine report s = Some (ret, t)"
  shows "hid_inv t"
  using assms(1)
proof (cases rule: callback_cases[of s report])
  case none
  then show ?thesis
    using assms by (intro hid_quiet_inv[OF assms(1), of t "hi_thread_stop (hs_info s)" "Suc (hi_active_sem (hs_info s))"]) simp_all
next
  case (size n)
  then show ?thesis using assms by simp
next
  case (accept n a c)
  then show ?thesis using assms accept_inv[OF assms(1) accept(1,3,2,6-9)] by simp
qed

section \<open>The thread\<close>

lemma report_of_simps [simp]:
  "report_of (hid_put info s) = report_of s" "report_of (s\<lparr>hs_pc := pc\<rparr>) = report_of s" "report_of (s\<lparr>hs_handed := l\<rparr>) = report_of s"
  by (simp_all add: fun_eq_iff report_of_def split: option.splits)

text \<open>The steps that only move nodes and control.\<close>

lemma hid_move:
  assumes inv: "hid_inv s" and "\<not> hid_blocked s" and t: "report_proc_thread E s = Some t" and pc: "\<And>n. hs_pc s \<noteq> Hid_send n"
  shows "hs_nodes t = hs_nodes s" and "mset (hid_owned t) = mset (hid_owned s)" and "hs_core t = hs_core s"
    and "hi_cport (hs_info t) = hi_cport (hs_info s)" and "hi_report_buf_size (hs_info t) = hi_report_buf_size (hs_info s)"
    and "hid_control_ok t" and "report_of t = report_of s" and "hid_account_ok t"
proof -
  have c: "hid_control_ok s" "hid_account_ok s" using inv by (simp_all add: hid_inv_def)
  show "hs_nodes t = hs_nodes s" "hs_core t = hs_core s" "hi_cport (hs_info t) = hi_cport (hs_info s)"
    "hi_report_buf_size (hs_info t) = hi_report_buf_size (hs_info s)" "report_of t = report_of s"
    using t pc by (cases "hs_pc s"; auto simp: report_proc_thread_def Let_def split: prod.splits option.splits if_splits)+
  show "mset (hid_owned t) = mset (hid_owned s)"
    using c(1) t pc
    by (cases "hs_pc s"; cases "hi_data_queue (hs_info s)"; cases "hi_free_queue (hs_info s)")
      (auto simp: hid_owned_defs report_proc_thread_def Let_def node_requeue_def hid_control_ok_def split: if_splits option.splits)
  show "hid_control_ok t"
    using c(1) t pc assms(2)
    by (cases "hs_pc s"; cases "hi_data_queue (hs_info s)"; cases "hi_free_queue (hs_info s)")
      (auto simp: hid_control_ok_def hid_blocked_def report_proc_thread_def Let_def split: if_splits)
  show "hid_account_ok t"
    using c(2) t pc
    by (cases "hs_pc s"; cases "hi_data_queue (hs_info s)"; cases "hi_free_queue (hs_info s)")
      (auto simp: hid_account_ok_def hid_pending_def hid_pending_nodes_def report_proc_thread_def Let_def split: if_splits)
qed

lemma hid_move_inv:
  assumes inv: "hid_inv s" and "\<not> hid_blocked s" and t: "report_proc_thread E s = Some t" and pc: "\<And>n. hs_pc s \<noteq> Hid_send n"
  shows "hid_inv t"
  using inv hid_move[OF assms] moved_ok(3)[OF hid_move(1,2)[OF assms]] moved_core_ok[OF hid_move(1-5)[OF assms]]
  by (simp add: hid_inv_def)

text \<open>The request: the core stays in order, and the report counts as handed on.\<close>

lemma hid_send:
  assumes inv: "hid_inv s" and pc: "hs_pc s = Hid_send n"
  obtains c where "hid_core_ok (s\<lparr>hs_core := c\<rparr>)"
    and "report_proc_thread E s = Some (s\<lparr>hs_core := c, hs_pc := Hid_put n, hs_handed := hs_handed s @ [report_of s n]\<rparr>)"
    and "set ns \<subseteq> set (hid_owned s) \<Longrightarrow> map (report_of (s\<lparr>hs_core := c\<rparr>)) ns = map (report_of s) ns"
proof -
  have "n \<in> set (hid_owned s)" using pc by (simp add: hid_owned_defs)
  from hid_owned_op[OF inv this] obtain a where a: "node_op s n = Some a" "0 < hid_held s a" by metis
  have core: "hid_core_ok s" "core_inv (hid_held s) (hs_core s)" using inv by (simp_all add: hid_inv_def hid_core_ok_def)
  from send_own_request[OF core(2) a(2), of E] obtain r c where
    c: "gb_operation_send_request E a None False (hs_core s) = Some (r, c)" "core_inv (hid_held s) c"
      "\<And>b. op_view c b = op_view (hs_core s) b" by metis
  have "report_proc_thread E s = Some (s\<lparr>hs_core := c, hs_pc := Hid_put n, hs_handed := hs_handed s @ [report_of s n]\<rparr>)"
    using pc a(1) c(1) by (simp add: report_proc_thread_def report_of_def Let_def)
  then show ?thesis using that hid_core_view[OF core(1) c(2,3)] by blast
qed

lemma hid_send_inv:
  assumes inv: "hid_inv s" and t: "report_proc_thread E s = Some t" and pc: "hs_pc s = Hid_send n"
  shows "hid_inv t"
proof -
  from hid_send[OF inv pc, of E "hi_data_queue (hs_info s)"] obtain c where core: "hid_core_ok (s\<lparr>hs_core := c\<rparr>)"
    and t: "t = s\<lparr>hs_core := c, hs_pc := Hid_put n, hs_handed := hs_handed s @ [report_of s n]\<rparr>"
    and data: "map (report_of (s\<lparr>hs_core := c\<rparr>)) (hi_data_queue (hs_info s)) = map (report_of s) (hi_data_queue (hs_info s))"
    using t by (metis option.inject pending_owned hid_pending_nodes_def le_sup_iff set_append)
  have p: "hid_pool_ok s" "hid_control_ok s" "hid_account_ok s" using inv by (simp_all add: hid_inv_def)
  have o: "hid_owned t = hid_owned s" "hid_owned (s\<lparr>hs_core := c\<rparr>) = hid_owned s" using pc by (simp_all add: t hid_owned_defs)
  have "hid_pool_ok t" using p(1) by (simp add: t hid_pool_ok_def node_ops_def o[unfolded t])
  moreover have "hid_control_ok t" using p(2) pc by (auto simp: t hid_control_ok_def)
  moreover have "node_ops t = node_ops (s\<lparr>hs_core := c\<rparr>)" "hid_held t = hid_held (s\<lparr>hs_core := c\<rparr>)"
    by (simp_all add: t node_ops_def o[unfolded t] o(2) hid_held_def fun_eq_iff)
  then have "hid_core_ok t" using core by (simp add: hid_core_ok_def t)
  moreover have "report_of t = report_of (s\<lparr>hs_core := c\<rparr>)" by (simp add: t fun_eq_iff report_of_def split: option.splits)
  then have "hid_account_ok t" using p(3) pc data by (simp add: t hid_account_ok_def hid_pending_def hid_pending_nodes_def)
  ultimately show ?thesis by (simp add: hid_inv_def)
qed

lemma hid_thread_inv:
  assumes "hid_inv s" and "\<not> hid_blocked s" and "report_proc_thread E s = Some t"
  shows "hid_inv t"
  using hid_move_inv[OF assms] hid_send_inv[OF assms(1,3)] by blast

section \<open>All steps\<close>

lemma hid_rely_inv:
  assumes inv: "hid_inv s" and "hid_rely s c"
  shows "hid_inv (s\<lparr>hs_core := c\<rparr>)"
proof -
  let ?t = "s\<lparr>hs_core := c\<rparr>"
  have core: "hid_core_ok s" using inv by (simp add: hid_inv_def)
  have c: "core_inv (hid_held s) c" "\<And>a. 0 < hid_held s a \<Longrightarrow> op_view c a = op_view (hs_core s) a"
    using assms(2) by (simp_all add: hid_rely_def)
  note hid_core_view(1)[OF core c] hid_core_view(2)[OF core c pending_owned]
  moreover have "hid_pending_nodes ?t = hid_pending_nodes s" "hid_owned ?t = hid_owned s" "node_ops ?t = node_ops s"
    by (simp_all add: hid_pending_nodes_def hid_owned_defs node_ops_def)
  ultimately show ?thesis using inv by (simp add: hid_inv_def hid_pool_ok_def hid_control_ok_def hid_account_ok_def hid_pending_def)
qed

lemma hid_step_inv: "hid_inv s \<Longrightarrow> hid_step E s t \<Longrightarrow> hid_inv t"
proof (erule hid_stepE)
  assume inv: "hid_inv s"
  show "hid_inv t" if "t = hid_stop s"
    by (rule hid_quiet_inv[OF inv, of t True "Suc (hi_active_sem (hs_info s))"]) (simp_all add: that hid_stop_def)
qed (auto intro: hid_thread_inv callback_inv hid_rely_inv)

lemma hid_started_inv: "hid_started s \<Longrightarrow> hid_inv s"
  by (simp add: hid_started_def hid_inv_def hid_control_ok_def hid_account_ok_def hid_pending_def hid_pending_nodes_def)

interpretation hid_relay: relay hid_started "hid_step E" hid_inv hs_received hs_handed hid_pending
  by unfold_locales (erule hid_started_inv, erule (1) hid_step_inv, simp add: hid_inv_def hid_account_ok_def)

text \<open>Neither the thread nor the callback faults.\<close>

lemma hid_thread_total:
  assumes "hid_inv s"
  shows "report_proc_thread E s \<noteq> None"
proof (cases "hs_pc s")
  case (Hid_send n)
  then show ?thesis using hid_send[OF assms Hid_send, of E "[]"] by (metis option.distinct(1))
qed (auto simp: report_proc_thread_def Let_def case_prod_beta split: option.splits)

lemma hid_callback_total:
  assumes "hid_inv s"
  shows "hid_event_callback_routine report s \<noteq> None"
  by (cases rule: callback_cases[OF assms, of report]) simp_all

end
