(* ===== verification/Gb_Hid_Props.thy ===== *)
theory Gb_Hid_Props
  imports Gb_Hid_Runs Gb_Samples
begin

text \<open>
  The properties of the HID driver. What decides about its race is abstracted to \<open>hid_ctl\<close>, the two
  queues, the place of the thread and the node for the next report; a run of this skeleton is one
  of the driver.
\<close>

section \<open>Order\<close>


section \<open>The control skeleton\<close>

record hid_ctl =
  h_free :: "nat list"
  h_data :: "nat list"
  h_pc :: hid_pc
  h_report :: "nat option"
  h_request :: bool
  h_sem :: nat
  h_stop :: bool

definition hid_control :: "'w hid_sys \<Rightarrow> hid_ctl" where
  "hid_control s = \<lparr>h_free = hi_free_queue (hs_info s), h_data = hi_data_queue (hs_info s), h_pc = hs_pc s,
     h_report = hi_report_node (hs_info s), h_request = hi_node_request (hs_info s), h_sem = hi_active_sem (hs_info s),
     h_stop = hi_thread_stop (hs_info s)\<rparr>"

definition hctl_blocked :: "hid_ctl \<Rightarrow> bool" where
  "hctl_blocked k \<longleftrightarrow> h_pc k = Hid_ended \<or> (h_pc k = Hid_wait \<and> h_sem k = 0)"

definition hctl_thread :: "hid_ctl \<Rightarrow> hid_ctl" where
  "hctl_thread k =
     (case h_pc k of
        Hid_wait \<Rightarrow> k\<lparr>h_sem := h_sem k - 1, h_pc := if h_stop k then Hid_ended else Hid_take\<rparr>
      | Hid_take \<Rightarrow> (case h_data k of [] \<Rightarrow> k\<lparr>h_pc := Hid_check\<rparr> | n # q \<Rightarrow> k\<lparr>h_data := q, h_pc := Hid_send n\<rparr>)
      | Hid_send n \<Rightarrow> k\<lparr>h_pc := Hid_put n\<rparr>
      | Hid_put n \<Rightarrow> k\<lparr>h_free := h_free k @ [n], h_pc := Hid_check\<rparr>
      | Hid_check \<Rightarrow>
          (if h_request k then
             (case h_free k of [] \<Rightarrow> k\<lparr>h_pc := Hid_assign None\<rparr> | n # q \<Rightarrow> k\<lparr>h_free := q, h_pc := Hid_assign (Some n)\<rparr>)
           else k\<lparr>h_pc := Hid_wait\<rparr>)
      | Hid_assign node \<Rightarrow> k\<lparr>h_report := node, h_pc := Hid_clear\<rparr>
      | Hid_clear \<Rightarrow> k\<lparr>h_request := False, h_pc := Hid_wait\<rparr>
      | Hid_ended \<Rightarrow> k)"

definition hctl_report :: "hid_ctl \<Rightarrow> hid_ctl" where
  "hctl_report k = (case h_report k of
     None \<Rightarrow> k\<lparr>h_sem := h_sem k + 1\<rparr>
   | Some n \<Rightarrow> (let k1 = k\<lparr>h_data := h_data k @ [n], h_sem := h_sem k + 1\<rparr> in
       case h_free k of [] \<Rightarrow> k1\<lparr>h_report := None, h_request := True\<rparr> | m # q \<Rightarrow> k1\<lparr>h_report := Some m, h_free := q\<rparr>))"

lemma hid_control_sel [simp]:
  "h_free (hid_control s) = hi_free_queue (hs_info s)" "h_data (hid_control s) = hi_data_queue (hs_info s)"
  "h_pc (hid_control s) = hs_pc s" "h_report (hid_control s) = hi_report_node (hs_info s)"
  "h_request (hid_control s) = hi_node_request (hs_info s)" "h_sem (hid_control s) = hi_active_sem (hs_info s)"
  "h_stop (hid_control s) = hi_thread_stop (hs_info s)"
  by (simp_all add: hid_control_def)

lemma hctl_blocked: "hctl_blocked (hid_control s) = hid_blocked s"
  by (simp add: hctl_blocked_def hid_blocked_def)

lemma hid_thread_refines:
  assumes inv: "hid_inv s"
  shows "\<exists>t. report_proc_thread E s = Some t \<and> hid_control t = hctl_thread (hid_control s)
    \<and> hi_report_buf_size (hs_info t) = hi_report_buf_size (hs_info s)"
proof (cases "hs_pc s")
  case (Hid_send n)
  from hid_send[OF inv Hid_send, of E "[]"] obtain c where
    "report_proc_thread E s = Some (s\<lparr>hs_core := c, hs_pc := Hid_put n, hs_handed := hs_handed s @ [report_of s n]\<rparr>)" by metis
  then show ?thesis using Hid_send by (simp add: hctl_thread_def hid_control_def)
next
  case Hid_take
  then show ?thesis by (cases "hi_data_queue (hs_info s)") (simp_all add: report_proc_thread_def hctl_thread_def hid_control_def Let_def)
next
  case Hid_check
  then show ?thesis by (cases "hi_free_queue (hs_info s)") (simp_all add: report_proc_thread_def hctl_thread_def hid_control_def Let_def)
qed (simp_all add: report_proc_thread_def hctl_thread_def hid_control_def node_requeue_def Let_def)

lemma hid_report_refines:
  assumes inv: "hid_inv s" and "length report = hi_report_buf_size (hs_info s)"
  shows "\<exists>r t. hid_event_callback_routine report s = Some (r, t) \<and> hid_control t = hctl_report (hid_control s)
    \<and> hi_report_buf_size (hs_info t) = hi_report_buf_size (hs_info s)"
proof (cases rule: callback_cases[OF inv, of report])
  case 1
  then show ?thesis by (simp add: hctl_report_def hid_control_def)
next
  case (2 n)
  then show ?thesis using assms(2) by simp
next
  case (3 n a c)
  then show ?thesis by (cases "hi_free_queue (hs_info s)") (simp_all add: hctl_report_def hid_control_def Let_def)
qed

text \<open>A run of the skeleton: \<open>True\<close> is a report, \<open>False\<close> a step of the thread, if it is not blocked.\<close>

fun hctl_run :: "bool list \<Rightarrow> hid_ctl \<Rightarrow> hid_ctl" where
  "hctl_run [] k = k"
| "hctl_run (True # es) k = hctl_run es (hctl_report k)"
| "hctl_run (False # es) k = hctl_run es (if hctl_blocked k then k else hctl_thread k)"

lemma hctl_run_realised:
  assumes "hid_inv s"
  shows "\<exists>t. (hid_step E)\<^sup>*\<^sup>* s t \<and> hid_inv t \<and> hid_control t = hctl_run es (hid_control s)"
  using assms
proof (induction es arbitrary: s)
  case (Cons e es)
  have "\<exists>t. (hid_step E)\<^sup>*\<^sup>* s t \<and> hid_inv t \<and> hctl_run (e # es) (hid_control s) = hctl_run es (hid_control t)"
  proof (cases e)
    case True
    from hid_report_refines[OF Cons.prems, of "replicate (hi_report_buf_size (hs_info s)) 0"] obtain r t where
      t: "hid_event_callback_routine (replicate (hi_report_buf_size (hs_info s)) 0) s = Some (r, t)" "hid_control t = hctl_report (hid_control s)"
      by auto
    show ?thesis
      using True t(2) callback_inv[OF Cons.prems t(1)] r_into_rtranclp[of "hid_step E", OF hid_step.Report[OF t(1)]] by auto
  next
    case False
    from hid_thread_refines[OF Cons.prems, of E] obtain t where t: "report_proc_thread E s = Some t" "hid_control t = hctl_thread (hid_control s)"
      by auto
    show ?thesis
    proof (cases "hid_blocked s")
      case True
      then show ?thesis using Cons.prems \<open>\<not> e\<close> by (intro exI[of _ s]) (simp add: hctl_blocked)
    next
      case nb: False
      have "(hid_step E)\<^sup>*\<^sup>* s t" by (rule r_into_rtranclp[of "hid_step E", OF hid_step.Thread[OF nb t(1)]])
      moreover have "hid_inv t" by (rule hid_thread_inv[OF Cons.prems nb t(1)])
      ultimately show ?thesis using nb \<open>\<not> e\<close> t(2) by (intro exI[of _ t]) (simp add: hctl_blocked)
    qed
  qed
  then show ?case using Cons.IH by (metis rtranclp_trans)
qed auto

section \<open>The race for the last node\<close>

text \<open>Without a node for the next report, and with nobody asked for one, every report is refused.\<close>

definition hid_stalled :: "'w hid_sys \<Rightarrow> bool" where
  "hid_stalled s \<longleftrightarrow> hi_report_node (hs_info s) = None \<and> \<not> hi_node_request (hs_info s) \<and> (\<forall>r. hs_pc s \<noteq> Hid_assign r)"

lemma hid_stalled_refuses:
  "hid_stalled s \<Longrightarrow> hid_event_callback_routine report s =
     Some (- ENOMEM, hid_put ((hs_info s)\<lparr>hi_active_sem := hi_active_sem (hs_info s) + 1\<rparr>) s)"
  by (simp add: hid_stalled_def hid_event_callback_routine_def Let_def)

lemma hid_stalled_step: "hid_step E s t \<Longrightarrow> hid_stalled s \<Longrightarrow> hid_stalled t"
proof (erule hid_stepE)
  assume s: "hid_stalled s"
  show "hid_stalled t" if "report_proc_thread E s = Some t"
    using s that by (cases "hs_pc s")
      (auto simp: hid_stalled_def report_proc_thread_def Let_def bind_eq_Some_conv split: option.splits prod.splits if_splits)
  show "hid_stalled t" if "hid_event_callback_routine report s = Some (ret, t)" for report ret
    using s that hid_stalled_refuses[OF s, of report] by (auto simp: hid_stalled_def)
qed (auto simp: hid_stalled_def hid_stop_def)

lemma hid_stalled_for_ever: "(hid_step E)\<^sup>*\<^sup>* s t \<Longrightarrow> hid_stalled s \<Longrightarrow> hid_stalled t"
  by (induction rule: rtranclp_induct) (auto dest: hid_stalled_step)

text \<open>
  The run: five reports use up the nodes; the thread hands one on and gives its node to the next
  report; this comes before the thread has reset \<open>node_request\<close>.
\<close>

definition hid_stall_run :: "bool list" where
  "hid_stall_run = replicate 5 True @ replicate 6 False @ [True, False] @ replicate 25 False"

lemma hid_stall_run:
  "hctl_run hid_stall_run \<lparr>h_free = [b, c, d, e], h_data = [], h_pc = Hid_wait, h_report = Some a, h_request = False,
      h_sem = 0, h_stop = False\<rparr> = \<lparr>h_free = [b, c, d, e, a], h_data = [], h_pc = Hid_wait, h_report = None,
      h_request = False, h_sem = 0, h_stop = False\<rparr>"
  by (simp add: hid_stall_run_def numeral_eq_Suc hctl_thread_def hctl_report_def hctl_blocked_def)

lemma hid_started_ctl:
  assumes "hid_started s"
  obtains a b c d e where "hi_free_queue (hs_info s) = [b, c, d, e]" and "hi_report_node (hs_info s) = Some a"
    and "hid_control s = \<lparr>h_free = [b, c, d, e], h_data = [], h_pc = Hid_wait, h_report = Some a, h_request = False,
      h_sem = 0, h_stop = False\<rparr>"
proof -
  have "length (hi_free_queue (hs_info s)) = 4" using assms by (simp add: hid_started_def MAX_REPORT_OPERATIONS_def)
  then obtain b c d e where "hi_free_queue (hs_info s) = [b, c, d, e]" by (auto simp: numeral_eq_Suc length_Suc_conv)
  moreover obtain a where "hi_report_node (hs_info s) = Some a" using assms by (auto simp: hid_started_def)
  ultimately show ?thesis using that assms by (auto simp: hid_control_def hid_started_def)
qed

text \<open>
  C26. The thread of the HID driver and the callback race for the nodes: after a successful start there
  is always a run, without any failing call, after which all nodes are free and the thread waits,
  but every report that the device ever delivers from then on is refused for want of memory.
\<close>

theorem hid_race:
  assumes "hid_started s"
  shows "\<exists>t. (hid_step E)\<^sup>*\<^sup>* s t \<and> hid_blocked t
    \<and> set (hi_free_queue (hs_info t)) = set (hi_free_queue (hs_info s)) \<union> set_option (hi_report_node (hs_info s))
    \<and> (\<forall>u report. (hid_step E)\<^sup>*\<^sup>* t u \<longrightarrow> map_option fst (hid_event_callback_routine report u) = Some (- ENOMEM))"
proof -
  obtain a b c d e where k: "hi_free_queue (hs_info s) = [b, c, d, e]" "hi_report_node (hs_info s) = Some a"
    "hid_control s = \<lparr>h_free = [b, c, d, e], h_data = [], h_pc = Hid_wait, h_report = Some a, h_request = False,
      h_sem = 0, h_stop = False\<rparr>" using hid_started_ctl[OF assms] by metis
  from hctl_run_realised[OF hid_started_inv[OF assms], of E hid_stall_run] obtain t where
    t: "(hid_step E)\<^sup>*\<^sup>* s t" "hid_control t = \<lparr>h_free = [b, c, d, e, a], h_data = [], h_pc = Hid_wait, h_report = None,
      h_request = False, h_sem = 0, h_stop = False\<rparr>" using hid_stall_run k(3) by metis
  from t(2) have q: "hi_free_queue (hs_info t) = [b, c, d, e, a]" "hid_blocked t" "hid_stalled t"
    by (simp_all add: hid_control_def hid_blocked_def hid_stalled_def)
  have "map_option fst (hid_event_callback_routine report u) = Some (- ENOMEM)" if "(hid_step E)\<^sup>*\<^sup>* t u" for u report
    using hid_stalled_refuses[OF hid_stalled_for_ever[OF that q(3)], of report] by simp
  then show ?thesis using t(1) q(1,2) k(1,2) by (intro exI[of _ t]) auto
qed

section \<open>The report descriptor\<close>

text \<open>
  The response has the length noted by the last request for the descriptor, zero before the first;
  the device writes its whole report descriptor there.
\<close>

theorem gb_hid_report_descriptor_faults:
  assumes "hb_priv b = Some info" and "hb_dev b = Some dev" and "op_ok k op"
    and "hid_alloc api w (unat (hi_report_desc_len info) + 8) = (True, v)"
    and "device_hid_get_report_descriptor api dev v = (ret, d, u)"
  shows "gb_hid_get_report_descriptor api bnd (b, w) op = None \<longleftrightarrow> unat (hi_report_desc_len info) < length d"
proof -
  let ?n = "unat (hi_report_desc_len info)"
  have n: "?n < 65536" using unat_u16_lt[of "hi_report_desc_len info"] by simp
  have al: "pair_alloc (hid_alloc api) (b, w) (size_add ?n HDR_SIZE) = (True, b, v)"
    using assms(4) n by (simp add: pair_alloc_def)
  have m: "?n + HDR_SIZE < 2 ^ 32" using n by simp
  from alloc_answer_wide[OF assms(3) m, of "pair_alloc (hid_alloc api)" "(b, w)"] show ?thesis
  proof (elim disjE exE conjE)
    fix h w' assume h: "length h = 8"
      and op1: "gb_operation_alloc_response (pair_alloc (hid_alloc api)) (b, w) op ?n = Some (True, answer op h (replicate ?n 0), w')"
    then have "w' = (b, v)" using al by (auto simp: gb_operation_alloc_response_def Let_def bind_eq_Some_conv)
    then show ?thesis using assms(1,2,5) h op1
      by (auto simp: gb_hid_get_report_descriptor_def with_device_def with_response_def resp_slice_def resp_update_def answer_def
          wr_slice_def Let_def)
  qed (use al in \<open>auto simp: gb_operation_alloc_response_def Let_def bind_eq_Some_conv\<close>)
qed

section \<open>A sample driver\<close>

definition sample_hid_started :: "unit hid_sys" where
  "sample_hid_started =
     \<lparr>hs_dev = Some 0, hs_priv = True,
      hs_info = (blank_hid 0)\<lparr>hi_free_queue := [1, 2, 3, 4], hi_report_node := Some 0, hi_report_buf_size := 1, hi_entries := 5,
        hi_thread := True\<rparr>,
      hs_nodes = [Some 0, Some 1, Some 2, Some 3, Some 4],
      hs_core = sample_core (sample_cport True) (replicate 5 (sample_operation 0 0 8 [0])),
      hs_pc = Hid_wait, hs_threads = 1, hs_sems = 1, hs_received = [], hs_handed = []\<rparr>"

lemma sample_hid_nodes: "node_ops sample_hid_started = [Some 1, Some 2, Some 3, Some 4, Some 0]"
  by (simp add: node_ops_def hid_owned_defs sample_hid_started_def blank_hid_def node_op_def)

lemma sample_hid_started_ok: "hid_started sample_hid_started"
proof -
  have "core_inv (\<lambda>a. if a < length (replicate 5 (sample_operation 0 0 8 [0])) then 1 else 0) (hs_core sample_hid_started)"
    unfolding sample_hid_started_def hid_sys.simps by (rule sample_core_inv) (simp add: list_all_iff)
  moreover have "(\<lambda>a. if a < length (replicate 5 (sample_operation 0 0 8 [0])) then 1 else 0) = hid_held sample_hid_started"
    by (auto simp: fun_eq_iff hid_held_def sample_hid_nodes)
  ultimately have "hid_core_ok sample_hid_started"
    by (auto simp: hid_core_ok_def sample_hid_nodes op_shape_def) (simp_all add: sample_hid_started_def blank_hid_def)
  moreover have "hid_pool_ok sample_hid_started" by (simp add: hid_pool_ok_def sample_hid_nodes)
  ultimately show ?thesis
    by (simp add: hid_started_def) (simp add: sample_hid_started_def blank_hid_def MAX_REPORT_OPERATIONS_def)
qed


theorem hid_race_witness:
  "\<exists>t. (hid_step quiet_env)\<^sup>*\<^sup>* sample_hid_started t \<and> hid_blocked t
    \<and> map_option fst (hid_event_callback_routine [7] t) = Some (- ENOMEM)"
  using hid_race[OF sample_hid_started_ok, where E = quiet_env] by blast

end
