(* ===== verification/Gb_Hid_Life.thy ===== *)
theory Gb_Hid_Life
  imports Gb_Hid_Props
begin

text \<open>
  The start and the end of the HID driver: a successful start ends in the state that the runs of
  \<open>Gb_Hid_Runs\<close> begin with, and the end frees every node but the one for the next report.
\<close>

section \<open>The start\<close>

lemma hid_world_result:
  "fst (hid_world f s) = fst (f (world (hs_core s)))"
  "snd (hid_world f s) = s\<lparr>hs_core := (hs_core s)\<lparr>world := snd (f (world (hs_core s)))\<rparr>\<rparr>"
  by (simp_all add: hid_world_def Let_def case_prod_beta)

text \<open>A new operation of the driver.\<close>

lemma hid_create:
  assumes "gb_operation_create E cport ty k c = Some (Some a, c')" and inv: "core_inv h c" and k: "k + 8 < 65536"
  shows "core_inv (h(a := 1)) c'" and "h a = 0" and "op_shape c' a = Some (cport, Some (8 + k))"
    and "\<And>x. 0 < h x \<Longrightarrow> op_shape c' x = op_shape c x"
proof -
  have "k + HDR_SIZE < 2 ^ 32" using k by simp
  then have "core_inv (h(a := 1)) c' \<and> h a = 0 \<and> op_shape c' a = Some (cport, Some (8 + k))
     \<and> (\<forall>x. 0 < h x \<longrightarrow> op_shape c' x = op_shape c x)"
  proof (cases rule: gb_operation_create_cases[of k c cport E ty])
    case (created w)
    let ?op = "created cport ty k"
    have a: "a = length (core_heap c)" "c' = c\<lparr>world := w, core_heap := core_heap c @ [Some ?op]\<rparr>" using created(2) assms(1) by simp_all
    have p: "cport < length (g_cport c)" using created(1) core_invD(5)[OF inv] by simp
    have "op_ok (length (g_cport c)) ?op" "op_response ?op = None" "op_ref_count ?op = 1"
      using op_ok_created[OF p, of ty k] k by (simp_all add: created_def new_operation_def)
    then have "core_inv (h(a := 1)) c'" using core_inv_append[OF inv, of "Some ?op"] by (simp add: a core_inv_world_heap)
    moreover have "op_shape c' a = Some (cport, Some (8 + k))" by (simp add: a op_shape_def get_op_def created_def new_operation_def)
    ultimately show ?thesis using core_inv_fresh(1)[OF inv] op_shape_append[OF held_inside[OF inv]] by (simp add: a)
  qed (use assms(1) in auto)
  then show "core_inv (h(a := 1)) c'" "h a = 0" "op_shape c' a = Some (cport, Some (8 + k))"
    "\<And>x. 0 < h x \<Longrightarrow> op_shape c' x = op_shape c x" by blast+
qed

text \<open>What the driver holds after it has made the operations \<open>as\<close>.\<close>

definition holding :: "(nat \<Rightarrow> int) \<Rightarrow> nat list \<Rightarrow> nat \<Rightarrow> int" where
  "holding h as x = (if x \<in> set as then 1 else h x)"

lemma holding_Nil [simp]: "holding h [] = h" and holding_Cons: "h a = 0 \<Longrightarrow> a \<notin> set as \<Longrightarrow> holding (h(a := 1)) as = holding h (a # as)"
  by (auto simp: fun_eq_iff holding_def)

definition same_driver :: "'w hid_sys \<Rightarrow> 'w hid_sys \<Rightarrow> bool" where
  "same_driver s t \<longleftrightarrow> hs_info t = hs_info s \<and> hs_pc t = hs_pc s \<and> hs_dev t = hs_dev s
     \<and> hs_received t = hs_received s \<and> hs_handed t = hs_handed s"

lemma hid_alloc_op_ok:
  assumes "hid_alloc_op E api cport i k queue s = Some (0, q, t)" and "core_inv h (hs_core s)" and "k + 8 < 65536"
  shows "\<exists>as. length as = i \<and> distinct as \<and> (\<forall>a \<in> set as. h a = 0 \<and> op_shape (hs_core t) a = Some (cport, Some (8 + k)))
    \<and> q = queue @ [length (hs_nodes s) ..< length (hs_nodes s) + i] \<and> hs_nodes t = hs_nodes s @ map Some as
    \<and> core_inv (holding h as) (hs_core t) \<and> (\<forall>x. 0 < h x \<longrightarrow> op_shape (hs_core t) x = op_shape (hs_core s) x) \<and> same_driver s t"
  using assms
proof (induction i arbitrary: queue s h)
  case 0
  then show ?case by (simp add: same_driver_def)
next
  case (Suc i)
  from Suc.prems(1) obtain a c where c: "gb_operation_create E cport 8 k (hs_core s) = Some (Some a, c)"
    by (auto simp: bind_eq_Some_conv Let_def split: option.splits)
  note new = hid_create[OF c Suc.prems(2,3)]
  define s2 where "s2 = (snd (hid_world (hid_zalloc api) (s\<lparr>hs_core := c\<rparr>)))\<lparr>hs_nodes := hs_nodes s @ [Some a]\<rparr>"
  have rec: "hid_alloc_op E api cport i k (queue @ [length (hs_nodes s)]) s2 = Some (0, q, t)"
    using Suc.prems(1) c by (auto simp: case_prod_beta hid_world_result bind_eq_Some_conv Let_def s2_def node_requeue_def split: if_splits)
  have s2: "hs_nodes s2 = hs_nodes s @ [Some a]" "op_shape (hs_core s2) x = op_shape c x" "same_driver s s2" for x
    by (simp_all add: s2_def hid_world_result same_driver_def)
  have inv: "core_inv (h(a := 1)) (hs_core s2)" using new(1) by (simp add: s2_def hid_world_result)
  from Suc.IH[OF rec inv Suc.prems(3)] obtain as where IH: "length as = i" "distinct as"
    "\<forall>b \<in> set as. (h(a := 1)) b = 0 \<and> op_shape (hs_core t) b = Some (cport, Some (8 + k))"
    "q = (queue @ [length (hs_nodes s)]) @ [length (hs_nodes s2) ..< length (hs_nodes s2) + i]" "hs_nodes t = hs_nodes s2 @ map Some as"
    "core_inv (holding (h(a := 1)) as) (hs_core t)" "\<forall>x. 0 < (h(a := 1)) x \<longrightarrow> op_shape (hs_core t) x = op_shape (hs_core s2) x"
    "same_driver s2 t"
    by blast
  have q: "q = queue @ [length (hs_nodes s) ..< length (hs_nodes s) + Suc i]" "hs_nodes t = hs_nodes s @ map Some (a # as)"
    using IH(4,5) s2(1) by (simp_all add: upt_conv_Cons del: upt_Suc)
  have a: "a \<notin> set as" using IH(3) by auto
  have "op_shape (hs_core t) a = Some (cport, Some (8 + k))" using IH(7) new(3) s2(2) by simp
  then have "\<forall>b \<in> set (a # as). h b = 0 \<and> op_shape (hs_core t) b = Some (cport, Some (8 + k))" using IH(3) new(2) by (auto split: if_splits)
  moreover have "\<forall>x. 0 < h x \<longrightarrow> op_shape (hs_core t) x = op_shape (hs_core s) x" using IH(7) new(2,4) s2(2) by auto
  moreover have "same_driver s t" using IH(8) s2(3) by (simp add: same_driver_def)
  moreover have "core_inv (holding h (a # as)) (hs_core t)" using IH(6) a new(2) by (simp add: holding_Cons)
  ultimately show ?case using IH(1,2) a q by (intro exI[of _ "a # as"]) (simp del: upt_Suc)
qed

lemma hid_receiver_init_ok:
  assumes "hid_receiver_callback_init E api s = Some (0, t)"
  obtains s2 w where "hid_alloc_op E api (hi_cport (hs_info s)) 5 (hi_report_buf_size (hs_info s)) []
      (hid_put ((hs_info s)\<lparr>hi_free_queue := [], hi_data_queue := [], hi_entries := 5\<rparr>) s) = Some (0, hi_free_queue (hs_info t), s2)"
    and "hs_info t = (hs_info s2)\<lparr>hi_free_queue := hi_free_queue (hs_info t), hi_active_sem := 0, hi_thread := True\<rparr>"
    and "hs_pc t = Hid_wait" and "hs_core t = (hs_core s2)\<lparr>world := w\<rparr>" and "hs_nodes t = hs_nodes s2"
    and "hs_received t = hs_received s2" and "hs_handed t = hs_handed s2" and "hs_dev t = hs_dev s2"
proof -
  obtain ret q s2 where al: "hid_alloc_op E api (hi_cport (hs_info s)) 5 (hi_report_buf_size (hs_info s)) []
      (hid_put ((hs_info s)\<lparr>hi_free_queue := [], hi_data_queue := [], hi_entries := 5\<rparr>) s) = Some (ret, q, s2)"
    using assms by (auto simp: hid_receiver_callback_init_def Let_def bind_eq_Some_conv MAX_REPORT_OPERATIONS_def)
  have t: "t = hid_put ((hs_info s2)\<lparr>hi_free_queue := q, hi_active_sem := 0, hi_thread := True\<rparr>)
      (s2\<lparr>hs_core := (hs_core s2)\<lparr>world := snd (hid_pthread_create api (snd (hid_sem_init api (world (hs_core s2)))))\<rparr>,
         hs_sems := hs_sems s2 + 1, hs_threads := hs_threads s2 + 1, hs_pc := Hid_wait\<rparr>)" and r: "ret = 0"
    using assms al
    by (auto simp: hid_receiver_callback_init_def Let_def MAX_REPORT_OPERATIONS_def case_prod_beta hid_world_result
        bind_eq_Some_conv hid_put_def split: if_splits)
  have q: "hi_free_queue (hs_info t) = q" by (simp add: t)
  show ?thesis by (rule that[unfolded q, OF al[unfolded r], of "snd (hid_pthread_create api (snd (hid_sem_init api (world (hs_core s2)))))"])
      (simp_all add: t hid_put_def)
qed

lemma hid_register_ok:
  assumes "hid_register E api s = Some (Some (0, t))" and q: "hi_free_queue (hs_info s) = n # q"
  obtains w where "t = (hid_put ((hs_info s)\<lparr>hi_free_queue := q, hi_report_node := Some n, hi_node_request := False\<rparr>)
      s)\<lparr>hs_core := (hs_core s)\<lparr>world := w\<rparr>, hs_priv := True\<rparr>"
proof -
  let ?s = "hid_put ((hs_info s)\<lparr>hi_free_queue := q, hi_report_node := Some n, hi_node_request := False\<rparr>) s"
  have "t = ?s\<lparr>hs_core := (hs_core s)\<lparr>world := snd (device_hid_register_callback api (hs_dev s) (world (hs_core s)))\<rparr>, hs_priv := True\<rparr>"
    using assms by (auto simp: hid_register_def Let_def case_prod_beta hid_world_result hid_put_def bind_eq_Some_conv split: if_splits option.splits)
  then show ?thesis by (rule that)
qed

text \<open>Reports of at most 65527 octets fit into a message.\<close>

definition report_fits :: "'w hid_api \<Rightarrow> bool" where
  "report_fits api \<longleftrightarrow> (\<forall>ty d w. fst (device_hid_get_max_report_length api ty d w) < 65528)"

text \<open>
  A start of the HID driver that reports success has opened the device and holds five operations of
  its own for reports, of which one waits for the first, with the thread running: the state from
  which reports are delivered in order.
\<close>

theorem gb_hid_init_starts:
  assumes "gb_hid_init E api cport s = Some (Some (0, t))" and inv: "core_inv (\<lambda>_. 0) (hs_core s)" and fits: "report_fits api"
    and clean: "hs_received s = []" "hs_handed s = []"
  shows "hid_started t \<and> hs_priv t \<and> hs_dev t \<noteq> None \<and> hi_cport (hs_info t) = cport"
proof -
  have n: "- ENOMEM \<noteq> 0" "- EIO \<noteq> 0" by simp_all
  obtain w dev v k s5 where rx: "hid_receiver_callback_init E api (hid_put ((blank_hid cport)\<lparr>hi_report_buf_size := nat k\<rparr>)
        (s\<lparr>hs_dev := Some dev, hs_core := (hs_core s)\<lparr>world := v\<rparr>\<rparr>)) = Some (0, s5)" (is "hid_receiver_callback_init E api ?s = _")
    and k: "k = fst (device_hid_get_max_report_length api 0 (Some dev) w)" "0 \<le> k" and reg: "hid_register E api s5 = Some (Some (0, t))"
    using assms(1) n
    by (auto simp: gb_hid_init_def Let_def case_prod_beta hid_world_result hid_put_def bind_eq_Some_conv split: if_splits)
  have "k < 65528" using fits k(1) by (simp add: report_fits_def)
  then have len: "nat k + 8 < 65536" using k(2) by simp
  from hid_receiver_init_ok[OF rx] obtain s2 u where
    al: "hid_alloc_op E api cport 5 (nat k) [] (hid_put ((blank_hid cport)\<lparr>hi_report_buf_size := nat k, hi_entries := 5\<rparr>) ?s) =
        Some (0, hi_free_queue (hs_info s5), s2)" (is "hid_alloc_op E api cport 5 _ [] ?a = _")
    and s5: "hs_info s5 = (hs_info s2)\<lparr>hi_free_queue := hi_free_queue (hs_info s5), hi_active_sem := 0, hi_thread := True\<rparr>"
      "hs_pc s5 = Hid_wait" "hs_core s5 = (hs_core s2)\<lparr>world := u\<rparr>" "hs_nodes s5 = hs_nodes s2"
      "hs_received s5 = hs_received s2" "hs_handed s5 = hs_handed s2" "hs_dev s5 = hs_dev s2"
    by (auto simp: blank_hid_def)
  have "core_inv (\<lambda>_. 0) (hs_core ?a)" using inv by simp
  from hid_alloc_op_ok[OF al this len] obtain as where as: "length as = 5" "distinct as"
    "\<forall>a \<in> set as. op_shape (hs_core s2) a = Some (cport, Some (8 + nat k))"
    "hi_free_queue (hs_info s5) = [length (hs_nodes s) ..< length (hs_nodes s) + 5]" "hs_nodes s2 = hs_nodes s @ map Some as"
    "core_inv (holding (\<lambda>_. 0) as) (hs_core s2)" "same_driver ?a s2"
    by (auto simp del: upt_Suc)
  let ?n = "length (hs_nodes s)"
  have q: "hi_free_queue (hs_info s5) = ?n # [Suc ?n ..< ?n + 5]" unfolding as(4) by (simp add: upt_conv_Cons)
  from hid_register_ok[OF reg q] obtain w' where t: "t = (hid_put ((hs_info s5)\<lparr>hi_free_queue := [Suc ?n ..< ?n + 5], hi_report_node := Some ?n,
      hi_node_request := False\<rparr>) s5)\<lparr>hs_core := (hs_core s5)\<lparr>world := w'\<rparr>, hs_priv := True\<rparr>" .
  have "hs_info t = (hs_info s2)\<lparr>hi_active_sem := 0, hi_thread := True, hi_free_queue := [Suc ?n ..< ?n + 5], hi_report_node := Some ?n,
      hi_node_request := False\<rparr>" unfolding t by (subst s5(1)) simp
  then have i: "hs_info t = (blank_hid cport)\<lparr>hi_report_buf_size := nat k, hi_entries := 5, hi_active_sem := 0, hi_thread := True,
      hi_free_queue := [Suc ?n ..< ?n + 5], hi_report_node := Some ?n, hi_node_request := False\<rparr>"
    using as(7) by (simp add: same_driver_def blank_hid_def)
  have pc: "hs_pc t = Hid_wait" "hs_received t = []" "hs_handed t = []" "hs_dev t \<noteq> None" using s5 as(7) clean by (simp_all add: t same_driver_def)
  obtain a b c d e where abc: "as = [a, b, c, d, e]" using as(1) by (auto simp: numeral_eq_Suc length_Suc_conv)
  have "hid_owned t = [Suc ?n, Suc (Suc ?n), Suc (Suc (Suc ?n)), Suc (Suc (Suc (Suc ?n))), ?n]"
    using pc(1) by (simp add: hid_owned_defs i blank_hid_def numeral_eq_Suc upt_conv_Cons)
  moreover have "hs_nodes t = hs_nodes s @ [Some a, Some b, Some c, Some d, Some e]" using as(5) s5(4) abc by (simp add: t)
  ultimately have ops: "node_ops t = [Some b, Some c, Some d, Some e, Some a]" by (simp add: node_ops_def node_op_def nth_append)
  have "hid_held t = holding (\<lambda>_. 0) as" by (auto simp: fun_eq_iff hid_held_def ops holding_def abc)
  moreover have "hs_core t = (hs_core s2)\<lparr>world := w'\<rparr>" "hs_priv t" using s5(3) by (simp_all add: t)
  moreover have "hi_cport (hs_info t) = cport" "hi_report_buf_size (hs_info t) = nat k" by (simp_all add: i blank_hid_def)
  ultimately have "hid_core_ok t" "hs_priv t" "hi_cport (hs_info t) = cport" using as(3,6) abc by (auto simp: hid_core_ok_def ops)
  moreover have "hid_pool_ok t" using as(2) abc by (auto simp: hid_pool_ok_def ops)
  ultimately show ?thesis using pc by (simp add: hid_started_def MAX_REPORT_OPERATIONS_def) (simp add: i blank_hid_def)
qed

end
