(* ===== verification/Gb_Camera.thy ===== *)
theory Gb_Camera
  imports Gb_Driver Gb_Serial
begin

text \<open>
  The camera protocol, \<^verbatim>\<open>subsys/greybus/camera.c\<close>: its operational states, the handlers, and the start
  and end of the driver. The information block hangs on a global pointer, here the first part of the
  state; the camera is a parameter, with the structures and flags of the missing header
  \<^verbatim>\<open>device_camera.h\<close>.
\<close>

unbundle bit_operations_syntax

section \<open>State\<close>

definition STATE_REMOVED :: u8 where "STATE_REMOVED = 0"
definition STATE_INSERTED :: u8 where "STATE_INSERTED = 1"
definition STATE_UNCONFIGURED :: u8 where "STATE_UNCONFIGURED = 2"
definition STATE_CONFIGURED :: u8 where "STATE_CONFIGURED = 3"
definition STATE_STREAMING :: u8 where "STATE_STREAMING = 4"
definition MAX_STREAMS_NUM :: nat where "MAX_STREAMS_NUM = 4"

lemmas camera_state_defs [simp] = STATE_REMOVED_def STATE_INSERTED_def STATE_UNCONFIGURED_def STATE_CONFIGURED_def STATE_STREAMING_def

record gb_camera_info =
  cam_cport :: nat
  cam_dev :: "nat option"
  cam_state :: u8

text \<open>A stream as the host asks for it, and as the camera answers.\<close>

record streams_cfg_req =
  sq_width :: u16
  sq_height :: u16
  sq_format :: u16
  sq_padding :: u16

record streams_cfg_ans =
  sa_width :: u16
  sa_height :: u16
  sa_format :: u16
  sa_virtual_channel :: u8
  sa_data_type :: u8
  sa_max_size :: u32

text \<open>What the camera leaves behind for a configuration: its number of streams, its flags, the bus and the answers.\<close>

record streams_cfg =
  sc_num_streams :: u8
  sc_flags :: u8
  sc_num_lanes :: u8
  sc_bus_freq :: u32
  sc_lines_per_second :: u32
  sc_answers :: "nat \<Rightarrow> streams_cfg_ans"

record capture_info =
  ci_request_id :: u32
  ci_streams :: u8
  ci_num_frames :: u16
  ci_settings :: bytes

record 'w camera_api =
  cam_alloc :: "'w alloc_fn"
  cam_malloc :: "'w \<Rightarrow> bool \<times> 'w"
  cam_free :: "'w \<Rightarrow> 'w"
  cam_open :: "'w \<Rightarrow> nat option \<times> 'w"
  cam_close :: "nat option \<Rightarrow> 'w \<Rightarrow> 'w"
  device_camera_capabilities :: "nat option \<Rightarrow> 'w \<Rightarrow> int \<times> bytes \<times> 'w"
  device_camera_set_streams_cfg :: "u8 \<Rightarrow> u8 \<Rightarrow> streams_cfg_req list \<Rightarrow> nat option \<Rightarrow> 'w \<Rightarrow> int \<times> streams_cfg \<times> 'w"
  device_camera_capture :: "capture_info \<Rightarrow> nat option \<Rightarrow> 'w \<Rightarrow> int \<times> 'w"
  device_camera_flush :: "nat option \<Rightarrow> 'w \<Rightarrow> int \<times> u32 \<times> 'w"
  CAMERA_CONF_STREAMS_ADJUSTED :: u8
  CAMERA_CONF_STREAMS_TEST_ONLY :: u8

type_synonym 'w camera_handler = "(gb_camera_info option \<times> 'w) handler"

text \<open>The handlers follow the global pointer without a look.\<close>

definition with_camera :: "(gb_camera_info \<Rightarrow> 'w camera_handler) \<Rightarrow> 'w camera_handler" where
  "with_camera f bnd w op = (case fst w of None \<Rightarrow> None | Some info \<Rightarrow> f info bnd w op)"

section \<open>Handlers\<close>

definition gb_camera_protocol_version :: "'w camera_api \<Rightarrow> 'w camera_handler" where
  "gb_camera_protocol_version api = version_response (pair_alloc (cam_alloc api)) 0 1"

definition gb_camera_capabilities :: "'w camera_api \<Rightarrow> 'w camera_handler" where
  "gb_camera_capabilities api = with_camera (\<lambda>info bnd w op.
     if cam_state info < STATE_UNCONFIGURED then Some (GB_OP_INVALID, op, w)
     else
       let (ret, caps, v) = device_camera_capabilities api (cam_dev info) (snd w) in
       if ret \<noteq> 0 then Some (gb_errno_to_op_result ret, op, fst w, v)
       else if GB_MAX_PAYLOAD_SIZE < length caps then Some (GB_OP_NO_MEMORY, op, fst w, v)
       else with_response (pair_alloc (cam_alloc api)) (length caps) (respond caps) bnd (fst w, v) op)"

text \<open>No streams: the camera is unconfigured. It does not matter whether there is memory for the response.\<close>

definition unconfigure_streams :: "'w camera_api \<Rightarrow> u8 \<Rightarrow> gb_camera_info \<Rightarrow> 'w camera_handler" where
  "unconfigure_streams api flags info bnd w op =
     (let info1 = info\<lparr>cam_state := STATE_UNCONFIGURED\<rparr>;
          (ret, cfg, v) = device_camera_set_streams_cfg api 0 0 [] (cam_dev info) (snd w) in
      if ret \<noteq> 0 then Some (gb_errno_to_op_result ret, op, Some info1, v)
      else do {
        (ok, op1, w1) \<leftarrow> gb_operation_alloc_response (pair_alloc (cam_alloc api)) (Some info1, v) op 12;
        Some (GB_OP_SUCCESS, op1, w1) })"

text \<open>The stream blocks of the request, which may be shorter.\<close>

definition read_stream :: "gb_operation \<Rightarrow> nat \<Rightarrow> streams_cfg_req option" where
  "read_stream op i = do {
     width \<leftarrow> req16 op (4 + 8 * i); height \<leftarrow> req16 op (4 + 8 * i + 2);
     format \<leftarrow> req16 op (4 + 8 * i + 4); padding \<leftarrow> req16 op (4 + 8 * i + 6);
     Some \<lparr>sq_width = width, sq_height = height, sq_format = format, sq_padding = padding\<rparr> }"

fun read_streams :: "gb_operation \<Rightarrow> nat \<Rightarrow> nat \<Rightarrow> streams_cfg_req list option" where
  "read_streams op i 0 = Some []"
| "read_streams op i (Suc n) = do { r \<leftarrow> read_stream op i; rs \<leftarrow> read_streams op (Suc i) n; Some (r # rs) }"

definition stream_bytes :: "streams_cfg_ans \<Rightarrow> bytes" where
  "stream_bytes a = bytes16 (sa_width a) @ bytes16 (sa_height a) @ bytes16 (sa_format a) @ [sa_virtual_channel a, sa_data_type a, 0]
     @ [0, 0, 0] @ bytes32 (sa_max_size a)"

definition cfg_header :: "streams_cfg \<Rightarrow> bytes" where
  "cfg_header cfg = [sc_num_streams cfg, sc_flags cfg, sc_num_lanes cfg, 0] @ bytes32 (sc_bus_freq cfg) @ bytes32 (sc_lines_per_second cfg)"

text \<open>One answer after the other; there are \<open>MAX_STREAMS_NUM\<close> of them.\<close>

fun write_streams :: "streams_cfg \<Rightarrow> nat \<Rightarrow> nat \<Rightarrow> gb_operation \<Rightarrow> gb_operation option" where
  "write_streams cfg i 0 op = Some op"
| "write_streams cfg i (Suc n) op =
     (if MAX_STREAMS_NUM \<le> i then None
      else do { op1 \<leftarrow> resp_slice op (12 + 16 * i) (stream_bytes (sc_answers cfg i)); write_streams cfg (Suc i) n op1 })"

text \<open>The response is used without a look whether there was memory for it.\<close>

definition configure_answer :: "'w camera_api \<Rightarrow> u8 \<Rightarrow> streams_cfg \<Rightarrow> 'w camera_handler" where
  "configure_answer api num_streams cfg bnd w op = do {
     (ok, op1, w1) \<leftarrow> gb_operation_alloc_response (pair_alloc (cam_alloc api)) w op (12 + unat num_streams * 16);
     (if \<not> ok then None
      else do {
        op2 \<leftarrow> resp_slice op1 0 (cfg_header cfg);
        op3 \<leftarrow> write_streams cfg 0 (unat (sc_num_streams cfg)) op2;
        Some (GB_OP_SUCCESS, op3, fst w1, cam_free api (cam_free api (snd w1))) }) }"

definition configured_state :: "'w camera_api \<Rightarrow> u8 \<Rightarrow> streams_cfg \<Rightarrow> u8" where
  "configured_state api flags cfg =
     (if sc_flags cfg AND CAMERA_CONF_STREAMS_ADJUSTED api \<noteq> 0 then STATE_UNCONFIGURED
      else if flags AND CAMERA_CONF_STREAMS_TEST_ONLY api \<noteq> 0 then STATE_UNCONFIGURED
      else STATE_CONFIGURED)"

definition configure_streams :: "'w camera_api \<Rightarrow> u8 \<Rightarrow> u8 \<Rightarrow> gb_camera_info \<Rightarrow> 'w camera_handler" where
  "configure_streams api num_streams flags info bnd w op =
     (let (ok, v1) = cam_malloc api (snd w) in
      if \<not> ok then Some (GB_OP_NO_MEMORY, op, fst w, v1)
      else do {
        cfg_request \<leftarrow> read_streams op 0 (unat num_streams);
        let (ok, v2) = cam_malloc api v1;
        if \<not> ok then Some (GB_OP_NO_MEMORY, op, fst w, cam_free api v2)
        else
          let (ret, cfg, v3) = device_camera_set_streams_cfg api num_streams flags cfg_request (cam_dev info) v2 in
          if ret \<noteq> 0 then Some (GB_OP_INVALID, op, fst w, cam_free api (cam_free api v3))
          else configure_answer api num_streams cfg bnd (Some (info\<lparr>cam_state := configured_state api flags cfg\<rparr>), v3) op })"

definition gb_camera_configure_streams :: "'w camera_api \<Rightarrow> 'w camera_handler" where
  "gb_camera_configure_streams api = with_request 4 (\<lambda>bnd w op. do {
     num_streams \<leftarrow> req8 op 0; flags \<leftarrow> req8 op 1;
     if MAX_STREAMS_NUM < unat num_streams then Some (GB_OP_INVALID, op, w)
     else with_camera (\<lambda>info bnd w op.
       if num_streams = 0 then
         if cam_state info < STATE_UNCONFIGURED \<or> STATE_CONFIGURED < cam_state info then Some (GB_OP_INVALID, op, w)
         else unconfigure_streams api flags info bnd w op
       else if cam_state info \<noteq> STATE_UNCONFIGURED then Some (GB_OP_INVALID, op, w)
       else configure_streams api num_streams flags info bnd w op) bnd w op })"

definition gb_camera_capture :: "'w camera_api \<Rightarrow> 'w camera_handler" where
  "gb_camera_capture api = with_camera (\<lambda>info bnd w op.
     if cam_state info \<noteq> STATE_CONFIGURED \<and> cam_state info \<noteq> STATE_STREAMING then Some (GB_OP_INVALID, op, w)
     else with_request 8 (\<lambda>bnd w op. do {
       k \<leftarrow> payload_size op;
       request_id \<leftarrow> req32 op 0; streams \<leftarrow> req8 op 4; padding \<leftarrow> req8 op 5; num_frames \<leftarrow> req16 op 6;
       if padding \<noteq> 0 then Some (GB_OP_INVALID, op, w)
       else
         let (ok, v1) = cam_malloc api (snd w) in
         if \<not> ok then Some (GB_OP_NO_MEMORY, op, fst w, v1)
         else do {
           settings \<leftarrow> req_slice op 8 (k - 8);
           let (ret, v2) = device_camera_capture api
                 \<lparr>ci_request_id = request_id, ci_streams = streams, ci_num_frames = num_frames, ci_settings = settings\<rparr>
                 (cam_dev info) v1;
           Some (gb_errno_to_op_result ret, op, fst w, cam_free api v2) } }) bnd w op)"

definition gb_camera_flush :: "'w camera_api \<Rightarrow> 'w camera_handler" where
  "gb_camera_flush api = with_camera (\<lambda>info bnd w op.
     if cam_state info \<noteq> STATE_STREAMING \<and> cam_state info \<noteq> STATE_CONFIGURED then Some (GB_OP_INVALID, op, w)
     else
       let (ret, request_id, v) = device_camera_flush api (cam_dev info) (snd w) in
       if ret \<noteq> 0 then Some (gb_errno_to_op_result ret, op, fst w, v)
       else with_response (pair_alloc (cam_alloc api)) 4 (respond (bytes32 request_id)) bnd
              (Some (info\<lparr>cam_state := STATE_CONFIGURED\<rparr>), v) op)"

definition camera_handler :: "'w camera_api \<Rightarrow> nat \<Rightarrow> 'w camera_handler" where
  "camera_handler api n =
     (if n = 1 then gb_camera_protocol_version api
      else if n = 2 then gb_camera_capabilities api
      else if n = 3 then gb_camera_configure_streams api
      else if n = 4 then gb_camera_capture api
      else if n = 5 then gb_camera_flush api
      else (\<lambda>bnd w op. None))"

section \<open>Start and end\<close>

text \<open>Without a device the block stays allocated.\<close>

definition gb_camera_init :: "'w camera_api \<Rightarrow> nat \<Rightarrow> gb_camera_info option \<times> 'w \<Rightarrow> int \<times> gb_camera_info option \<times> 'w" where
  "gb_camera_init api cport w =
     (let (ok, v1) = cam_malloc api (snd w) in
      if \<not> ok then (- ENOMEM, None, v1)
      else
        let info = \<lparr>cam_cport = cport, cam_dev = None, cam_state = STATE_INSERTED\<rparr>; (dev, v2) = cam_open api v1 in
        if dev = None then (- EIO, Some info, v2)
        else (0, Some (info\<lparr>cam_dev := dev, cam_state := STATE_UNCONFIGURED\<rparr>), v2))"

definition gb_camera_exit :: "bool \<Rightarrow> 'w camera_api \<Rightarrow> nat \<Rightarrow> gb_camera_info option \<times> 'w \<Rightarrow> (gb_camera_info option \<times> 'w) option" where
  "gb_camera_exit asserts api cport w =
     (case fst w of
        None \<Rightarrow> None
      | Some info \<Rightarrow>
          if asserts \<and> cport \<noteq> cam_cport info then None
          else Some (None, cam_free api (cam_close api (cam_dev info) (snd w))))"

section \<open>The handlers keep to the interface\<close>

lemmas camera_defs = gb_camera_protocol_version_def gb_camera_capabilities_def gb_camera_configure_streams_def gb_camera_capture_def
  gb_camera_flush_def unconfigure_streams_def configure_streams_def configure_answer_def with_camera_def

lemma max_payload [simp]: "GB_MAX_PAYLOAD_SIZE = 2040"
  by (simp add: GB_MAX_PAYLOAD_SIZE_def GB_MTU_def)

lemma write_streams_kept: "write_streams cfg i n op = Some op' \<Longrightarrow> kept op op'"
proof (induction cfg i n op rule: write_streams.induct)
  case (2 cfg i n op)
  then obtain op1 where "resp_slice op (12 + 16 * i) (stream_bytes (sc_answers cfg i)) = Some op1"
    "write_streams cfg (Suc i) n op1 = Some op'" "\<not> MAX_STREAMS_NUM \<le> i"
    by (auto simp: bind_eq_Some_conv split: if_splits)
  then show ?case using kept_trans[OF kept_writes(4)] 2(1) by blast
qed simp

lemma wp_streams:
  "wp True (write_streams cfg i k op) P \<longleftrightarrow> (\<forall>op'. write_streams cfg i k op = Some op' \<longrightarrow> P op')"
  "wp True (read_streams op i k) Q \<longleftrightarrow> (\<forall>x. read_streams op i k = Some x \<longrightarrow> Q x)"
  by (auto simp: wp_True_iff)

lemma handler_kept_wp: "handler_kept f \<Longrightarrow> wp True (f bnd w op) (\<lambda>(res, op', w'). kept op op')"
  by (simp add: handler_kept_def)

lemma with_camera_kept: "(\<And>info. handler_kept (f info)) \<Longrightarrow> handler_kept (with_camera f)"
  by (simp add: handler_kept_def with_camera_def split: option.splits)

lemma configure_kept: "handler_kept (configure_answer api k cfg)"
proof (rule handler_keptI)
  fix bnd w op
  have alloc: "kept op op'" if "gb_operation_alloc_response al w op (12 + unat k * 16) = Some (ok, op', w')"
    for op op' w' ok and w :: "gb_camera_info option \<times> 'a" and al
    using kept_alloc[OF that] unat_u8_lt[of k] by simp
  show "wp True (configure_answer api k cfg bnd w op) (\<lambda>(res, op', w'). kept op op')"
    by (auto simp: configure_answer_def wp_atoms wp_streams dest!: alloc kept_writes write_streams_kept intro: kept_trans)
qed

lemma configure_streams_kept: "handler_kept (gb_camera_configure_streams api)"
proof -
  have "handler_kept (unconfigure_streams api flags info)" for flags info
    by (auto simp: handler_kept_def unconfigure_streams_def Let_def wp_atoms dest!: kept_alloc split: prod.splits)
  moreover have "handler_kept (configure_streams api k flags info)" for k flags info
    using configure_kept[of api] by (auto simp: handler_kept_def configure_streams_def Let_def wp_streams split: prod.splits)
  ultimately have "handler_kept (\<lambda>bnd w op. if k = 0 then
         if cam_state info < STATE_UNCONFIGURED \<or> STATE_CONFIGURED < cam_state info then Some (GB_OP_INVALID, op, w)
         else unconfigure_streams api flags info bnd w op
       else if cam_state info \<noteq> STATE_UNCONFIGURED then Some (GB_OP_INVALID, op, w)
       else configure_streams api k flags info bnd w op)" for k flags info
    by (simp add: handler_kept_def)
  from with_camera_kept[OF this] show ?thesis
    unfolding gb_camera_configure_streams_def by (intro kept_with_request) (auto simp: handler_kept_def wp_atoms)
qed

lemma capture_kept: "handler_kept (gb_camera_capture api)"
  unfolding gb_camera_capture_def
  by (intro with_camera_kept) (auto simp: handler_kept_def with_request_def Let_def wp_atoms split: prod.splits)

lemma flush_kept: "handler_kept (gb_camera_flush api)"
proof -
  have "handler_kept (with_response (pair_alloc (cam_alloc api)) 4 (respond (bytes32 x)))" for x
    by (intro kept_with_response) simp_all
  note resp = handler_kept_wp[OF this]
  show ?thesis unfolding gb_camera_flush_def
    by (intro with_camera_kept) (auto simp: handler_kept_def Let_def split: prod.splits intro: resp)
qed

lemma capabilities_kept: "handler_kept (gb_camera_capabilities api)"
proof -
  have "length caps \<le> 2040 \<Longrightarrow> handler_kept (with_response (pair_alloc (cam_alloc api)) (length caps) (respond caps))" for caps
    by (intro kept_with_response) simp_all
  note resp = handler_kept_wp[OF this]
  show ?thesis unfolding gb_camera_capabilities_def
    by (intro with_camera_kept) (auto simp: handler_kept_def Let_def split: prod.splits intro: resp)
qed

lemma camera_kept: "handler_kept (camera_handler api n)"
  using capabilities_kept configure_streams_kept capture_kept flush_kept
  by (auto simp: camera_handler_def gb_camera_protocol_version_def handler_kept_def[of "\<lambda>bnd w op. None"])

interpretation camera: gb_handler_echo "camera_handler api"
  by unfold_locales (auto dest!: handler_keptD[OF camera_kept] simp: kept_def)

section \<open>States\<close>

text \<open>A request for the camera, whatever it contains.\<close>

inductive camera_step :: "'w camera_api \<Rightarrow> gb_camera_info option \<times> 'w \<Rightarrow> gb_camera_info option \<times> 'w \<Rightarrow> bool" for api where
  Request: "camera_handler api n bnd w op = Some (res, op', w') \<Longrightarrow> camera_step api w w'"

inductive_cases camera_stepE: "camera_step api w w'"

definition camera_open :: "nat \<Rightarrow> gb_camera_info option \<Rightarrow> bool" where
  "camera_open cport s \<longleftrightarrow> (\<exists>info. s = Some info \<and> cam_cport info = cport \<and> cam_dev info \<noteq> None
     \<and> cam_state info \<in> {STATE_UNCONFIGURED, STATE_CONFIGURED})"

lemma inv_with_camera: "(\<And>info. P (Some info) \<Longrightarrow> handler_inv (\<lambda>w. P (fst w)) (f info)) \<Longrightarrow> handler_inv (\<lambda>w. P (fst w)) (with_camera f)"
  by (auto simp: handler_inv_def with_camera_def split: option.splits)

abbreviation camera_live :: "nat \<Rightarrow> gb_camera_info option \<times> 'w \<Rightarrow> bool" where
  "camera_live cport \<equiv> \<lambda>w. camera_open cport (fst w)"

lemma camera_open_Some: "camera_open cport (Some info) \<longleftrightarrow> cam_cport info = cport \<and> cam_dev info \<noteq> None
     \<and> (cam_state info = 2 \<or> cam_state info = 3)"
  by (simp add: camera_open_def)

lemma camera_response_wp:
  "camera_open cport (fst w) \<Longrightarrow> wp True (with_response (pair_alloc al) sz (respond xs) bnd w op) (\<lambda>(res, op', w'). camera_open cport (fst w'))"
  by (rule handler_invD[OF inv_with_response[OF alloc_inv_pair inv_respond]])

lemma capabilities_inv: "handler_inv (camera_live cport) (gb_camera_capabilities api)"
  unfolding gb_camera_capabilities_def
  by (intro inv_with_camera) (auto simp: handler_inv_def Let_def split: prod.splits intro: camera_response_wp)

lemma flush_inv: "handler_inv (camera_live cport) (gb_camera_flush api)"
  unfolding gb_camera_flush_def
  by (intro inv_with_camera) (auto simp: handler_inv_def Let_def camera_open_Some split: prod.splits intro!: camera_response_wp)

lemma capture_inv: "handler_inv (camera_live cport) (gb_camera_capture api)"
  unfolding gb_camera_capture_def
  by (intro inv_with_camera) (auto simp: handler_inv_def with_request_def Let_def wp_atoms split: prod.splits)

lemma configure_inv: "handler_inv (camera_live cport) (gb_camera_configure_streams api)"
proof -
  note alloc = alloc_inv_response[of "camera_live cport", OF alloc_inv_pair]
  have "handler_inv (camera_live cport) (unconfigure_streams api flags info)" if "camera_open cport (Some info)" for flags info
    using that by (auto simp: handler_inv_def unconfigure_streams_def Let_def wp_True_iff camera_open_Some bind_eq_Some_conv split: prod.splits
        dest!: alloc[rotated])
  moreover have answer: "wp True (configure_answer api k cfg bnd w op) (\<lambda>(res, op', w'). camera_open cport (fst w'))"
    if "camera_open cport (fst w)" for k cfg bnd op and w :: "gb_camera_info option \<times> 'a"
    using alloc[OF that] by (auto simp: configure_answer_def wp_True_iff bind_eq_Some_conv split: if_splits)
  then have "handler_inv (camera_live cport) (configure_streams api k flags info)" if "camera_open cport (Some info)" for k flags info
    using that by (auto simp: handler_inv_def configure_streams_def Let_def wp_streams camera_open_Some configured_state_def
        split: prod.splits intro!: answer)
  ultimately show ?thesis
    unfolding gb_camera_configure_streams_def
    by (intro inv_with_request inv_bind)
      (auto simp: handler_inv_def with_camera_def split: option.splits)
qed

lemma camera_open_inv: "handler_inv (camera_live cport) (camera_handler api n)"
  using capabilities_inv flush_inv capture_inv configure_inv inv_version[OF alloc_inv_pair]
  by (auto simp: camera_handler_def gb_camera_protocol_version_def handler_inv_def[of _ "\<lambda>bnd w op. None"])

lemma camera_open_reach: "(camera_step api)\<^sup>*\<^sup>* w w' \<Longrightarrow> camera_open cport (fst w) \<Longrightarrow> camera_open cport (fst w')"
  by (induction rule: rtranclp_induct) (auto elim!: camera_stepE dest: handler_inv_result[OF camera_open_inv, rotated])

text \<open>
  C27. Whatever requests a started camera driver gets, its block stays in place with the device, and it is
  unconfigured or configured, never streaming. Unconfigured, it refuses to capture and to flush
  without asking the camera; configured, it refuses to be configured again before the streams are
  taken away.
\<close>

theorem camera_states:
  assumes "gb_camera_init api cport w = (0, w0)" and "(camera_step api)\<^sup>*\<^sup>* w0 w1"
  shows "\<exists>info. fst w1 = Some info \<and> cam_cport info = cport \<and> cam_dev info \<noteq> None
    \<and> cam_state info \<in> {STATE_UNCONFIGURED, STATE_CONFIGURED}
    \<and> (cam_state info = STATE_UNCONFIGURED \<longrightarrow>
         gb_camera_capture api bnd w1 op = Some (GB_OP_INVALID, op, w1) \<and> gb_camera_flush api bnd w1 op = Some (GB_OP_INVALID, op, w1))
    \<and> (cam_state info = STATE_CONFIGURED \<and> payload_size op = Some k \<and> 4 \<le> k \<and> req8 op 0 = Some num \<and> num \<noteq> 0 \<and> req8 op 1 = Some flags \<longrightarrow>
         gb_camera_configure_streams api bnd w1 op = Some (GB_OP_INVALID, op, w1))"
proof -
  have "camera_open cport (fst w0)"
    using assms(1) by (auto simp: gb_camera_init_def camera_open_def Let_def split: prod.splits if_splits)
  from camera_open_reach[OF assms(2) this] obtain info where info: "fst w1 = Some info" "cam_cport info = cport"
    "cam_dev info \<noteq> None" "cam_state info = 2 \<or> cam_state info = 3" by (auto simp: camera_open_def)
  then show ?thesis
    by (intro exI[of _ info]) (auto simp: gb_camera_capture_def gb_camera_flush_def gb_camera_configure_streams_def with_request_def
        with_camera_def MAX_STREAMS_NUM_def)
qed

section \<open>Memory\<close>

lemma total_with_camera:
  assumes "\<And>info. handler_total n m (f info)" and "fits n m op" and "fst w = Some info"
  shows "with_camera f bnd w op \<noteq> None"
  using assms(3) handler_totalD[OF assms(1,2), of info bnd w] by (simp add: with_camera_def)

text \<open>Of the requests for a started camera only that for the configuration of streams can go wrong.\<close>

lemma camera_total:
  assumes "op_ok k op" and "fst w = Some info" and "n \<in> {1, 2, 4, 5}"
  shows "camera_handler api n bnd w op \<noteq> None"
proof -
  have f: "fits 0 None op" using fits_start[OF assms(1)] .
  have resp: "handler_total 0 None (with_response al (length xs) (respond xs))" if "length xs \<le> 2040"
    for xs and al :: "(gb_camera_info option \<times> 'a) alloc_fn"
    using that by (intro total_with_response total_respond) simp_all
  have "handler_total 0 None (\<lambda>bnd w op. gb_camera_capabilities api bnd (Some info, snd w) op)"
    unfolding handler_total_def gb_camera_capabilities_def with_camera_def Let_def
    using handler_totalD[OF resp] by (simp add: case_prod_beta)
  note 2 = handler_totalD[OF this f, of bnd w]
  have "handler_total 0 None (\<lambda>bnd w op. gb_camera_flush api bnd (Some info, snd w) op)"
    unfolding handler_total_def gb_camera_flush_def with_camera_def Let_def
    using handler_totalD[OF resp[of "bytes32 x" for x, simplified]] by (simp add: case_prod_beta)
  note 5 = handler_totalD[OF this f, of bnd w]
  have "handler_total 8 None (\<lambda>bnd w op. do {
       k \<leftarrow> payload_size op;
       request_id \<leftarrow> req32 op 0; streams \<leftarrow> req8 op 4; padding \<leftarrow> req8 op 5; num_frames \<leftarrow> req16 op 6;
       if padding \<noteq> 0 then Some (GB_OP_INVALID, op, w)
       else
         let (ok, v1) = cam_malloc api (snd w) in
         if \<not> ok then Some (GB_OP_NO_MEMORY, op, fst w, v1)
         else do {
           settings \<leftarrow> req_slice op 8 (k - 8);
           let (ret, v2) = device_camera_capture api
                 \<lparr>ci_request_id = request_id, ci_streams = streams, ci_num_frames = num_frames, ci_settings = settings\<rparr>
                 (cam_dev info) v1;
           Some (gb_errno_to_op_result ret, op, fst w, cam_free api v2) } })" (is "handler_total 8 None ?f")
  proof (rule handler_totalI)
    fix bnd w op
    assume g: "fits 8 None op"
    from fits_payload[OF g] obtain b k where b: "op_request_buffer op = Some b" "payload_size op = Some k" "8 + k \<le> length b" by metis
    obtain x1 x2 x3 x4 where x: "req32 op 0 = Some x1" "req8 op 4 = Some x2" "req8 op 5 = Some x3" "req16 op 6 = Some x4"
      using fits_req[OF g] by fastforce
    have "8 + 8 \<le> length b" using g b(1) by (simp add: fits_def)
    then have "req_slice op 8 (k - 8) \<noteq> None" using b by (simp add: req_slice_def rd_slice_def)
    then show "?f bnd w op \<noteq> None" using b(2) x by (auto simp: Let_def case_prod_beta)
  qed
  from handler_totalD[OF total_request[OF this] f, of bnd w]
  have 4: "gb_camera_capture api bnd w op \<noteq> None" using assms(2) by (simp add: gb_camera_capture_def with_camera_def)
  have 1: "gb_camera_protocol_version api bnd w op \<noteq> None"
    unfolding gb_camera_protocol_version_def by (rule handler_totalD[OF total_version f])
  have "w = (Some info, snd w)" using assms(2) by (cases w) simp
  then show ?thesis using assms(3) 1 2 4 5 by (auto simp: camera_handler_def)
qed

text \<open>Nothing compares the number of streams with the size of the request.\<close>

lemma read_stream_short: "op_request_buffer op = Some b \<Longrightarrow> length b < 20 + 8 * i \<Longrightarrow> read_stream op i = None"
  by (auto simp: read_stream_def req16_def rd16_def rd8_def bind_eq_None_conv)

lemma read_streams_short:
  "op_request_buffer op = Some b \<Longrightarrow> length b < 12 + 8 * (i + n) \<Longrightarrow> 0 < n \<Longrightarrow> read_streams op i n = None"
proof (induction n arbitrary: i)
  case (Suc n)
  then show ?case
    by (cases "n = 0") (auto simp: read_stream_short bind_eq_None_conv intro: Suc.IH[of "Suc i"])
qed simp

lemma configure_overread:
  assumes "payload_size op = Some k" and "4 \<le> k" and "req8 op 0 = Some num" and "req8 op 1 = Some flags"
    and "num \<noteq> 0" and "unat num \<le> 4" and "fst w = Some info" and "cam_state info = STATE_UNCONFIGURED"
    and "fst (cam_malloc api (snd w))" and b: "op_request_buffer op = Some b" "length b < 12 + 8 * unat num"
  shows "gb_camera_configure_streams api bnd w op = None"
proof -
  have "0 < unat num" using assms(5) by (simp add: unat_gt_0)
  then have "read_streams op 0 (unat num) = None" using read_streams_short[OF b(1), of 0 "unat num"] b(2) by simp
  then show ?thesis using assms(1-9)
    by (simp add: gb_camera_configure_streams_def with_request_def with_camera_def configure_streams_def MAX_STREAMS_NUM_def
        Let_def case_prod_beta)
qed

section \<open>A sample camera\<close>

definition sample_camera :: "unit camera_api" where
  "sample_camera =
     \<lparr>cam_alloc = (\<lambda>w n. (True, w)), cam_malloc = (\<lambda>w. (True, w)), cam_free = (\<lambda>w. w), cam_open = (\<lambda>w. (Some 0, w)),
      cam_close = (\<lambda>d w. w), device_camera_capabilities = (\<lambda>d w. (0, [1, 2], w)),
      device_camera_set_streams_cfg = (\<lambda>n f rs d w. (0, \<lparr>sc_num_streams = n, sc_flags = 0, sc_num_lanes = 1, sc_bus_freq = 0,
         sc_lines_per_second = 0, sc_answers = (\<lambda>i. \<lparr>sa_width = 1, sa_height = 1, sa_format = 1, sa_virtual_channel = 0,
         sa_data_type = 0, sa_max_size = 1\<rparr>)\<rparr>, w)),
      device_camera_capture = (\<lambda>i d w. (0, w)), device_camera_flush = (\<lambda>d w. (0, 5, w)),
      CAMERA_CONF_STREAMS_ADJUSTED = 1, CAMERA_CONF_STREAMS_TEST_ONLY = 1\<rparr>"

theorem camera_states_witness:
  "gb_camera_capture sample_camera \<lparr>bnd_id = 1, bnd_cport_start = 3, bnd_dev = []\<rparr>
     (Some \<lparr>cam_cport = 3, cam_dev = Some 0, cam_state = 2\<rparr>, ()) (sample_operation 3 5 4 []) =
   Some (GB_OP_INVALID, sample_operation 3 5 4 [], Some \<lparr>cam_cport = 3, cam_dev = Some 0, cam_state = 2\<rparr>, ())"
proof -
  have "gb_camera_init sample_camera 3 (None, ()) = (0, Some \<lparr>cam_cport = 3, cam_dev = Some 0, cam_state = 2\<rparr>, ())"
    by (simp add: gb_camera_init_def sample_camera_def)
  from camera_states[OF this rtranclp.rtrancl_refl] show ?thesis by simp
qed

end
