(* ===== verification/Spec2Isabelle.thy ===== *)
theory Spec2Isabelle
  imports Gb_Core_Properties Gb_Wire Gb_Tcpip Gb_Spi Gb_Devices Gb_Uart_Life Gb_Hid_Life Gb_Camera
begin

text \<open>
  A model of the Greybus subsystem for Zephyr, \<^verbatim>\<open>src/subsys/greybus\<close>, and what makes it correct.

  \<^bold>\<open>The program.\<close> A Greybus module answers requests that a host sends over connections, the cports.
  A transport hands each message to \<^verbatim>\<open>greybus_rx_handler\<close>, which copies it into an operation, appends
  the operation to the receive fifo of the cport and posts the semaphore of the cport's worker. The
  worker takes the operations in order: a request goes to the handler its type selects in the
  driver's table and its result is sent back; a response is matched by its id with a request that
  waits in the transmit fifo, whose callback then runs. Operations are reference counted. Which
  cports exist and which protocol each has is read from a binary manifest; drivers are registered per
  cport, and the drivers of the protocols are tables of handlers over the hardware interfaces.

  \<^bold>\<open>The theories, bottom up.\<close>
  \<^item> \<open>Gb_Prelude\<close>: octets, little-endian access to buffers that is a fault outside of them, unsigned
    sizes that wrap around, and \<open>wp\<close>, the weakest precondition the proofs use.
  \<^item> \<open>Gb_Types\<close>, \<open>Gb_Operation\<close>: error numbers and results (\<^verbatim>\<open>gb_errno_to_op_result\<close>), the header and
    \<^verbatim>\<open>struct gb_operation\<close>, access to payloads, \<^verbatim>\<open>gb_operation_alloc_response\<close>.
  \<^item> \<open>Gb_Dispatch\<close>: driver tables, sorted at registration and searched by bisection; the search is
    equivalent to a linear one.
  \<^item> \<open>Gb_Heap\<close>: operations at addresses with reference counts, and the invariant that a count is the
    number of references.
  \<^item> \<open>Gb_Manifest\<close>: \<^verbatim>\<open>greybus-manifest.c\<close>, parsing, patching and queries; parsing inverts encoding and
    stays near its buffer.
  \<^item> \<open>Gb_Core\<close>: \<^verbatim>\<open>greybus-core.c\<close> with its global state as the record \<open>core\<close>, one definition per
    function. What it calls through pointers is the record \<open>env\<close>.
  \<^item> \<open>Gb_Core_Inv\<close>, \<open>Gb_Core_Steps\<close>, \<open>Gb_Core_Worker\<close>: the invariant \<open>core_inv\<close>, that every operation of
    the core keeps it and never faults under the interface \<open>core_env\<close> (what handlers, callbacks and
    drivers promise), what a request is answered with (\<open>core_env_echo\<close>), termination of joins.
  \<^item> \<open>Gb_Handler\<close>: the interface of protocol drivers, \<open>gb_handler\<close> and \<open>gb_handler_echo\<close>, and that a driver
    with it is a handler the core can call.
  \<^item> \<open>Gb_Gpio\<close>, \<open>Gb_I2c\<close>, \<open>Gb_Pwm\<close>, \<open>Gb_Control\<close>, \<open>Gb_Loopback\<close>: the drivers \<^verbatim>\<open>gpio.c\<close>, \<^verbatim>\<open>i2c.c\<close>,
    \<^verbatim>\<open>pwm-protocol.c\<close>, \<^verbatim>\<open>control-gpb.c\<close>, \<^verbatim>\<open>loopback.c\<close>, each an instance of the interface.
  \<^item> \<open>Gb_Platform\<close>: the map between cports and devices of \<^verbatim>\<open>platform/platform.c\<close>.
  \<^item> \<open>Gb_Tape\<close>: recording and replaying messages.
  \<^item> \<open>Gb_System\<close>, \<open>Gb_Runs\<close>: the core with these drivers behind its pointers, runs of events on it, and
    the invariant of all states they reach.
  \<^item> \<open>Gb_Samples\<close>, \<open>Gb_Core_Properties\<close>: small concrete states, and the properties of the core and of the
    system, each with an instance.

  \<^bold>\<open>Conventions.\<close> \<open>None\<close> is a fault: an access outside a buffer, a null or dangling pointer, an append of
  a linked list node. Error codes are values. What the repository does not contain (hardware drivers,
  allocators, clocks, threads, sockets) is a parameter. Loops over data are structural recursion or
  have a proved measure; the one loop that may block, the join on a worker, is given the count of the
  semaphore plus one as fuel, which \<open>worker_join_ends\<close> shows to be enough.

  \<^bold>\<open>Not modelled.\<close> Time stamps and the watchdog (empty stubs in this repository), the UniPro zero-copy
  receive path, locks (each definition is an atomic step), the device-tree glue under \<^verbatim>\<open>platform/\<close>, and
  the drivers and transports that the list of components names.
\<close>

end
